(* ===== verification/Prelude.thy ===== *)
theory Prelude
  imports Main "HOL-Library.Sublist" "HOL-Library.Char_ord" "HOL-Library.List_Lexorder"
begin

text \<open>
  Shared vocabulary of the development: the Python values the linter computes with
  (strings as character lists, list indexing that may raise, the results of fallible
  calls), the error reports that every check produces, and the generic lemmas about them
  that the component theories use through the collections \<open>py_str\<close> and \<open>py_seq\<close>.

  Characters are code points below 256. The linter reads its input as unicode text, so
  \<open>uspace\<close> is the white space of \<open>unicode.strip\<close>, \<open>unicode.split\<close> and
  \<open>unicode.isspace\<close> in that range, which is larger than the class \<open>\s\<close> of the
  regular expressions. An Isabelle string literal cannot contain a backslash: \<open>bs\<close>
  turns a back quote, a character that does not occur in the program's literals, into one.
\<close>

named_theorems py_str \<open>equations and bounds of the Python string operations\<close>
named_theorems py_seq \<open>facts that a string operation only deletes characters\<close>

section \<open>Exceptions and results\<close>

text \<open>\<open>Diverges\<close> is the outcome of a call that does not return.\<close>

datatype exn = IndexError | KeyError | ValueError string | AssertionError | AttributeError | Diverges

type_synonym 'a res = "exn + 'a"

definition res_bind :: "'a res \<Rightarrow> ('a \<Rightarrow> 'b res) \<Rightarrow> 'b res" where
  "res_bind m f = (case m of Inl e \<Rightarrow> Inl e | Inr x \<Rightarrow> f x)"

lemma res_bind_simps [simp]: "res_bind (Inl e) f = Inl e" "res_bind (Inr x) f = f x"
  by (simp_all add: res_bind_def)

lemma res_bind_eq_Inr [simp]:
  "res_bind call rest = Inr result \<longleftrightarrow> (\<exists>v. call = Inr v \<and> rest v = Inr result)"
  by (cases call) simp_all

lemma res_bind_eq_Inl:
  "res_bind m f = Inl e \<longleftrightarrow> m = Inl e \<or> (\<exists>x. m = Inr x \<and> f x = Inl e)"
  by (cases m) simp_all

lemma res_bind_assoc: "res_bind (res_bind m f) g = res_bind m (\<lambda>x. res_bind (f x) g)"
  by (cases m) simp_all

definition py_nth :: "'a list \<Rightarrow> int \<Rightarrow> 'a res" where
  "py_nth xs i =
     (if nat i < length xs \<and> i \<ge> 0 then Inr (xs ! nat i)
      else if i < 0 \<and> nat (- i) \<le> length xs then Inr (rev xs ! (nat (- i) - 1))
      else Inl IndexError)"

lemma py_nth_in_range [simp]: "i < length xs \<Longrightarrow> py_nth xs (int i) = Inr (xs ! i)"
  by (simp add: py_nth_def)

lemma py_nth_zero [simp]: "xs \<noteq> [] \<Longrightarrow> py_nth xs 0 = Inr (xs ! 0)"
  by (simp add: py_nth_def)

lemma py_nth_pred: "i < length xs \<Longrightarrow> 0 < i \<Longrightarrow> py_nth xs (int i - 1) = Inr (xs ! (i - 1))"
  by (auto simp: py_nth_def nat_diff_distrib')

lemma py_nth_minus_one: "xs \<noteq> [] \<Longrightarrow> py_nth xs (- 1) = Inr (last xs)"
  by (auto simp: py_nth_def rev_nth last_conv_nth Suc_le_eq)

lemma py_nth_ok_iff: "(\<exists>x. py_nth xs i = Inr x) \<longleftrightarrow> - int (length xs) \<le> i \<and> i < int (length xs)"
  by (auto simp: py_nth_def)

definition returns :: "'a res \<Rightarrow> bool" where "returns m \<longleftrightarrow> (\<exists>x. m = Inr x)"

lemma returns_Inr [simp]: "returns (Inr x)" and returns_Inl [simp]: "\<not> returns (Inl e)"
  by (simp_all add: returns_def)

lemma returns_bind: "returns m \<Longrightarrow> (\<And>x. m = Inr x \<Longrightarrow> returns (f x)) \<Longrightarrow> returns (res_bind m f)"
  by (auto simp: returns_def)

lemma returns_py_nth: "i < length xs \<Longrightarrow> returns (py_nth xs (int i))"
  by (simp add: returns_def)

lemma returnsE: "returns m \<Longrightarrow> (\<And>x. m = Inr x \<Longrightarrow> P) \<Longrightarrow> P"
  by (auto simp: returns_def)

section \<open>Error reports\<close>

text \<open>
  A check receives a callback \<open>error(filename, linenum, category, confidence, message)\<close>.
  The callback never influences the check that calls it, so a check is modelled by the
  list of its calls in order; \<open>report\<close> is one call.
\<close>

datatype report =
  Report (r_file: string) (r_line: int) (r_cat: string) (r_conf: int) (r_msg: string)

section \<open>Strings\<close>

definition bs :: "string \<Rightarrow> string" where
  "bs s = map (\<lambda>c. if c = CHR 0x60 then CHR 0x5C else c) s"

definition nl :: char where "nl = CHR 0x0A"
definition dq :: char where "dq = CHR 0x22"
definition sq :: char where "sq = CHR 0x27"
definition bsl :: char where "bsl = CHR 0x5C"

definition ord_of :: "char \<Rightarrow> nat" where "ord_of c = of_char c"

definition uspace :: "char \<Rightarrow> bool" where
  "uspace c \<longleftrightarrow> ord_of c \<in> set [32, 9, 10, 11, 12, 13, 28, 29, 30, 31, 133, 160]"

definition startswith :: "string \<Rightarrow> string \<Rightarrow> bool" where
  "startswith s p \<longleftrightarrow> prefix p s"

definition endswith :: "string \<Rightarrow> string \<Rightarrow> bool" where
  "endswith s p \<longleftrightarrow> prefix (rev p) (rev s)"

fun find_sub :: "string \<Rightarrow> string \<Rightarrow> nat option" where
  "find_sub p [] = (if p = [] then Some 0 else None)"
| "find_sub p (c # s) = (if prefix p (c # s) then Some 0 else map_option Suc (find_sub p s))"

definition contains :: "string \<Rightarrow> string \<Rightarrow> bool" where
  "contains s p \<longleftrightarrow> find_sub p s \<noteq> None"

fun rfind_chr :: "char \<Rightarrow> string \<Rightarrow> nat option" where
  "rfind_chr c [] = None"
| "rfind_chr c (d # s) =
     (case rfind_chr c s of Some i \<Rightarrow> Some (Suc i) | None \<Rightarrow> (if c = d then Some 0 else None))"

function count_sub :: "string \<Rightarrow> string \<Rightarrow> nat" where
  "count_sub p [] = (if p = [] then 1 else 0)"
| "count_sub p (c # s) =
     (if p = [] then Suc (count_sub p s)
      else if prefix p (c # s) then Suc (count_sub p (drop (length p) (c # s)))
      else count_sub p s)"
  by pat_completeness auto
termination
  by (relation "measure (length \<circ> snd)") auto

function replace_sub :: "string \<Rightarrow> string \<Rightarrow> string \<Rightarrow> string" where
  "replace_sub old new [] = []"
| "replace_sub old new (c # s) =
     (if old \<noteq> [] \<and> prefix old (c # s)
      then new @ replace_sub old new (drop (length old) (c # s))
      else c # replace_sub old new s)"
  by pat_completeness auto
termination
  by (relation "measure (\<lambda>(_, _, s). length s)") auto

definition lstrip :: "string \<Rightarrow> string" where "lstrip s = dropWhile uspace s"
definition rstrip :: "string \<Rightarrow> string" where "rstrip s = rev (dropWhile uspace (rev s))"
definition strip :: "string \<Rightarrow> string" where "strip s = rstrip (lstrip s)"

fun split_chr :: "char \<Rightarrow> string \<Rightarrow> string list" where
  "split_chr c [] = [[]]"
| "split_chr c (d # s) =
     (if c = d then [] # split_chr c s
      else (case split_chr c s of [] \<Rightarrow> [[d]] | w # ws \<Rightarrow> (d # w) # ws))"

fun split_ws_acc :: "string \<Rightarrow> string \<Rightarrow> string list" where
  "split_ws_acc w [] = (if w = [] then [] else [rev w])"
| "split_ws_acc w (c # s) =
     (if uspace c then (if w = [] then split_ws_acc [] s else rev w # split_ws_acc [] s)
      else split_ws_acc (c # w) s)"

definition split_ws :: "string \<Rightarrow> string list" where "split_ws s = split_ws_acc [] s"

function split_sub_acc :: "string \<Rightarrow> string \<Rightarrow> string \<Rightarrow> string list" where
  "split_sub_acc p w [] = [rev w]"
| "split_sub_acc p w (c # s) =
     (if p \<noteq> [] \<and> prefix p (c # s) then rev w # split_sub_acc p [] (drop (length p) (c # s))
      else split_sub_acc p (c # w) s)"
  by pat_completeness auto
termination
  by (relation "measure (\<lambda>(_, _, s). length s)") auto

definition split_sub :: "string \<Rightarrow> string \<Rightarrow> string list" where "split_sub p s = split_sub_acc p [] s"

fun join :: "string \<Rightarrow> string list \<Rightarrow> string" where
  "join sep [] = []"
| "join sep [w] = w"
| "join sep (w # ws) = w @ sep @ join sep ws"

definition lower_chr :: "char \<Rightarrow> char" where
  "lower_chr c =
     (if ord_of c \<in> {65..90} \<or> ord_of c \<in> {192..222} \<and> ord_of c \<noteq> 215 then char_of (ord_of c + 32) else c)"

definition lower :: "string \<Rightarrow> string" where "lower s = map lower_chr s"

function nat_str :: "nat \<Rightarrow> string" where
  "nat_str n =
     (if n < 10 then [char_of (48 + n)] else nat_str (n div 10) @ [char_of (48 + n mod 10)])"
  by pat_completeness auto
termination
  by (relation "measure id") auto

declare nat_str.simps [simp del]

definition int_str :: "int \<Rightarrow> string" where
  "int_str i = (if i < 0 then ''-'' @ nat_str (nat (- i)) else nat_str (nat i))"

section \<open>Lemmas on the string operations\<close>

lemma find_sub_SomeE:
  assumes "find_sub p s = Some i"
  obtains u t where "s = u @ p @ t" "i = length u" "\<And>u' t'. s = u' @ p @ t' \<Longrightarrow> i \<le> length u'"
  using assms
proof (induction s arbitrary: i thesis)
  case Nil
  then show ?case by (auto split: if_splits)
next
  case (Cons c s)
  show ?case
  proof (cases "prefix p (c # s)")
    case True
    with Cons.prems(2) have "i = 0" by simp
    with True show ?thesis using Cons.prems(1)[of "[]"] by (auto simp: prefix_def)
  next
    case False
    with Cons.prems(2) obtain j where j: "find_sub p s = Some j" "i = Suc j" by auto
    then obtain u t where ut: "s = u @ p @ t" "j = length u"
      and min: "\<And>u' t'. s = u' @ p @ t' \<Longrightarrow> j \<le> length u'" using Cons.IH by metis
    have "Suc j \<le> length u'" if "c # s = u' @ p @ t'" for u' t'
      using that False min by (cases u') (auto simp: prefix_def)
    with j ut show ?thesis using Cons.prems(1)[of "c # u" t] by simp
  qed
qed

lemma find_sub_None: "find_sub p s = None \<longleftrightarrow> (\<nexists>u v. s = u @ p @ v)"
proof (induction s)
  case (Cons c s)
  have "(\<exists>u v. c # s = u @ p @ v) \<longleftrightarrow> prefix p (c # s) \<or> (\<exists>u v. s = u @ p @ v)"
    by (auto simp: prefix_def Cons_eq_append_conv)
  with Cons.IH show ?case by auto
qed auto

lemma contains_iff: "contains s p \<longleftrightarrow> (\<exists>u v. s = u @ p @ v)"
  by (simp add: contains_def find_sub_None)

lemma find_sub_single_None: "find_sub [c] s = None \<longleftrightarrow> c \<notin> set s"
  by (auto simp: find_sub_None in_set_conv_decomp)

lemma find_sub_single_SomeE:
  assumes "find_sub [c] s = Some i"
  obtains u t where "s = u @ c # t" "i = length u" "c \<notin> set u"
proof -
  from assms obtain u t where ut: "s = u @ [c] @ t" "i = length u"
    and min: "\<And>u' t'. s = u' @ [c] @ t' \<Longrightarrow> i \<le> length u'" by (metis find_sub_SomeE)
  have "c \<notin> set u"
  proof
    assume "c \<in> set u"
    then obtain x y where "u = x @ c # y" by (meson split_list)
    with ut min [of x "y @ [c] @ t"] show False by simp
  qed
  with ut that show thesis by simp
qed

lemma count_sub_single: "count_sub [c] s = count_list s c"
  by (induction s) auto

lemma subseq_take_drop [simp, py_seq]: "subseq (take n s) s" "subseq (drop n s) s"
  by (auto intro: prefix_imp_subseq suffix_imp_subseq take_is_prefix suffix_drop)

lemma subseq_dropWhile [simp, py_seq]: "subseq (dropWhile P s) s"
  by (auto intro: suffix_imp_subseq suffix_dropWhile)

lemma rstrip_prefix: "prefix (rstrip s) s" 
  by (metis rev_rev_ident rstrip_def suffix_dropWhile suffix_to_prefix)

lemma subseq_lstrip [simp, py_seq]: "subseq (lstrip s) s"
  by (simp add: lstrip_def)

lemma subseq_rstrip [simp, py_seq]: "subseq (rstrip s) s"
  by (rule prefix_imp_subseq [OF rstrip_prefix])

lemma subseq_strip [simp, py_seq]: "subseq (strip s) s"
  unfolding strip_def by (rule subseq_order.order_trans [OF subseq_rstrip subseq_lstrip])

lemma subseq_replace_delete [py_seq]: "subseq (replace_sub old [] s) s"
proof (induction old "[] :: string" s rule: replace_sub.induct)
  case (2 old c s)
  then show ?case by (auto intro: subseq_order.order_trans [OF _ subseq_take_drop(2)])
qed simp

lemma rstrip_idem [simp]: "rstrip (rstrip s) = rstrip s"
  by (simp add: rstrip_def)

lemma replace_sub_id: "\<not> contains s old \<Longrightarrow> replace_sub old new s = s"
proof (induction old new s rule: replace_sub.induct)
  case (2 old new c s)
  then show ?case by (auto simp: contains_iff prefix_def Cons_eq_append_conv)
qed simp

lemma contains_append2: "contains v w \<Longrightarrow> contains (u @ v) w"
  by (metis append.assoc contains_iff)

lemma set_replace_sub: "set (replace_sub old new s) \<subseteq> set new \<union> set s"
proof (induction old new s rule: replace_sub.induct)
  case (2 old new c s)
  then show ?case using set_drop_subset [of "length old" "c # s"] by (auto split: if_splits)
qed simp

lemma count_sub_zero: "c \<in> set p \<Longrightarrow> c \<notin> set s \<Longrightarrow> count_sub p s = 0"
proof (induction p s rule: count_sub.induct)
  case (2 p d s)
  then show ?case using set_mono_prefix [of p "d # s"] by auto
qed auto

lemma join_Cons: "ws \<noteq> [] \<Longrightarrow> join sep (w # ws) = w @ sep @ join sep ws"
  by (cases ws) auto

lemma split_chr_nonempty [simp]: "split_chr c s \<noteq> []"
  by (induction s) (auto split: list.splits)

lemma split_chr_join: "join [c] (split_chr c s) = s"
proof (induction s)
  case (Cons d s)
  obtain w ws where "split_chr c s = w # ws" by (cases "split_chr c s") auto
  with Cons show ?case by (cases ws) auto
qed simp

lemma last_split_chr: "last (split_chr c s) = [] \<longleftrightarrow> s = [] \<or> last s = c"
proof (induction s)
  case (Cons d s)
  obtain w ws where split: "split_chr c s = w # ws" by (cases "split_chr c s") auto
  show ?case
  proof (cases "s = []")
    case False
    with split have "ws = [] \<longrightarrow> w \<noteq> []" using split_chr_join [of c s] by auto
    with Cons split False show ?thesis by auto
  qed auto
qed simp

lemmas [py_str] = find_sub_None find_sub_single_None contains_iff count_sub_single

end
