(* ===== verification/PyRegex.thy ===== *)
theory PyRegex
  imports Prelude
begin

text \<open>
  The regular expressions of Python's \<open>re\<close> module, as far as the linter uses them.
  \<open>compile\<close> parses a pattern into the syntax tree \<open>re\<close>; \<open>ms\<close> gives every way
  a tree matches at a position, in the order in which the backtracking matcher of
  CPython tries them, so that the first element is the match Python reports. A position
  is a zipper (text already read, reversed; text to come) with the groups captured so
  far. Classes and word boundaries are those of a pattern compiled without flags on
  Python 2, that is ASCII ones. An iteration of a starred expression that consumes
  nothing ends the repetition, as in CPython.

  \<open>Match\<close>, \<open>Search\<close> and \<open>ReplaceAll\<close> are the functions of the same names in
  \<open>scripts/cpplint.py\<close>. Their pattern is written with a back quote for each
  backslash (\<open>bs\<close>), so every pattern of the program appears in the model as it does
  in the source. The lemmas say that a match is a piece of the subject, that groups are
  pieces of the subject, that a search finds the leftmost match, that substituting the
  empty string only deletes characters, and that the compilation cache of the program
  cannot be observed.
\<close>

section \<open>Syntax\<close>

datatype cls = CChr char | CRange char char | CDigit | CNDigit | CSpace | CNSpace | CWord | CNWord

datatype re =
    Eps
  | Chr char
  | Any
  | Cls bool "cls list"
  | Seq re re
  | Alt re re
  | Star bool re
  | Grp nat re
  | Bol
  | Eol
  | WordB
  | NWordB
  | Look bool re
  | BackRef nat

definition is_digit :: "char \<Rightarrow> bool" where "is_digit c \<longleftrightarrow> 48 \<le> ord_of c \<and> ord_of c \<le> 57"

definition is_word :: "char \<Rightarrow> bool" where
  "is_word c \<longleftrightarrow> is_digit c \<or> 65 \<le> ord_of c \<and> ord_of c \<le> 90 \<or> 97 \<le> ord_of c \<and> ord_of c \<le> 122 \<or> ord_of c = 95"

definition is_space :: "char \<Rightarrow> bool" where
  "is_space c \<longleftrightarrow> ord_of c = 32 \<or> 9 \<le> ord_of c \<and> ord_of c \<le> 13"

fun in_cls :: "cls \<Rightarrow> char \<Rightarrow> bool" where
  "in_cls (CChr d) c \<longleftrightarrow> c = d"
| "in_cls (CRange l h) c \<longleftrightarrow> ord_of l \<le> ord_of c \<and> ord_of c \<le> ord_of h"
| "in_cls CDigit c \<longleftrightarrow> is_digit c"
| "in_cls CNDigit c \<longleftrightarrow> \<not> is_digit c"
| "in_cls CSpace c \<longleftrightarrow> is_space c"
| "in_cls CNSpace c \<longleftrightarrow> \<not> is_space c"
| "in_cls CWord c \<longleftrightarrow> is_word c"
| "in_cls CNWord c \<longleftrightarrow> \<not> is_word c"

fun in_set :: "bool \<Rightarrow> cls list \<Rightarrow> char \<Rightarrow> bool" where
  "in_set neg cs c \<longleftrightarrow> list_ex (\<lambda>k. in_cls k c) cs \<noteq> neg"

section \<open>Matching\<close>

type_synonym groups = "(nat \<times> nat \<times> string) list"
type_synonym mst = "string \<times> string \<times> groups"

fun step1 :: "(char \<Rightarrow> bool) \<Rightarrow> mst \<Rightarrow> mst list" where
  "step1 P (b, [], g) = []"
| "step1 P (b, c # a, g) = (if P c then [(c # b, a, g)] else [])"

definition mst_rest :: "mst \<Rightarrow> string" where "mst_rest x = fst (snd x)"

fun at_word :: "string \<Rightarrow> bool" where
  "at_word [] = False"
| "at_word (c # _) = is_word c"

fun capture :: "nat \<Rightarrow> mst \<Rightarrow> mst \<Rightarrow> mst" where
  "capture n (b, a, g) (b', a', g') = (b', a', (n, length b, take (length a - length a') a) # g')"

function (sequential) ms :: "re \<Rightarrow> mst \<Rightarrow> mst list" where
  "ms Eps x = [x]"
| "ms (Chr c) x = step1 (\<lambda>d. d = c) x"
| "ms Any x = step1 (\<lambda>d. d \<noteq> nl) x"
| "ms (Cls neg cs) x = step1 (in_set neg cs) x"
| "ms (Seq p q) x = concat (map (ms q) (ms p x))"
| "ms (Alt p q) x = ms p x @ ms q x"
| "ms (Star greedy p) x =
     (let more = concat (map (\<lambda>y. if length (mst_rest y) < length (mst_rest x) then ms (Star greedy p) y else [y])
                   (ms p x))
      in if greedy then more @ [x] else x # more)"
| "ms (Grp n p) x = map (capture n x) (ms p x)"
| "ms Bol (b, a, g) = (if b = [] then [(b, a, g)] else [])"
| "ms Eol (b, a, g) = (if a = [] \<or> a = [nl] then [(b, a, g)] else [])"
| "ms WordB (b, a, g) = (if at_word b \<noteq> at_word a then [(b, a, g)] else [])"
| "ms NWordB (b, a, g) = (if at_word b = at_word a then [(b, a, g)] else [])"
| "ms (Look pos p) (b, a, g) =
     (case ms p (b, a, g) of
        [] \<Rightarrow> (if pos then [] else [(b, a, g)])
      | (b', a', g') # _ \<Rightarrow> (if pos then [(b, a, g')] else []))"
| "ms (BackRef n) (b, a, g) =
     (case map_of g n of
        None \<Rightarrow> []
      | Some (i, t) \<Rightarrow>
          (if prefix t a then [(rev t @ b, drop (length t) a, g)] else []))"
  by pat_completeness auto
termination
  by (relation "measures [\<lambda>(r, x). size r, \<lambda>(r, x). length (mst_rest x)]") auto

definition mst_start :: "string \<Rightarrow> mst" where "mst_start s = ([], s, [])"

record pymatch =
  m_start :: nat
  m_end :: nat
  m_text :: string
  m_groups :: groups

fun mk_match :: "mst \<Rightarrow> mst \<Rightarrow> pymatch" where
  "mk_match (b, a, g) (b', a', g') =
     \<lparr>m_start = length b, m_end = length b', m_text = take (length a - length a') a, m_groups = g'\<rparr>"

definition match_at :: "re \<Rightarrow> mst \<Rightarrow> pymatch option" where
  "match_at r x = (case ms r x of [] \<Rightarrow> None | y # _ \<Rightarrow> Some (mk_match x y))"

definition re_match :: "re \<Rightarrow> string \<Rightarrow> pymatch option" where
  "re_match r s = match_at r (mst_start s)"

fun search_from :: "re \<Rightarrow> string \<Rightarrow> string \<Rightarrow> pymatch option" where
  "search_from r b [] = match_at r (b, [], [])"
| "search_from r b (c # a) =
     (case match_at r (b, c # a, []) of
        Some m \<Rightarrow> Some m
      | None \<Rightarrow> search_from r (c # b) a)"

definition re_search :: "re \<Rightarrow> string \<Rightarrow> pymatch option" where
  "re_search r s = search_from r [] s"

definition group :: "pymatch \<Rightarrow> nat \<Rightarrow> string option" where
  "group m n = (if n = 0 then Some (m_text m) else map_option snd (map_of (m_groups m) n))"

section \<open>Compiling a pattern\<close>

datatype fkind = FTop | FGroup nat | FNonCap | FLook bool

record frame =
  f_kind :: fkind
  f_alts :: "re list"
  f_seq :: "re list"

fun seq_of :: "re list \<Rightarrow> re" where
  "seq_of [] = Eps"
| "seq_of [r] = r"
| "seq_of (r # rs) = Seq r (seq_of rs)"

fun alt_of :: "re list \<Rightarrow> re" where
  "alt_of [] = Eps"
| "alt_of [r] = r"
| "alt_of (r # rs) = Alt r (alt_of rs)"

definition close_frame :: "frame \<Rightarrow> re" where
  "close_frame f =
     (let r = alt_of (rev (seq_of (rev (f_seq f)) # f_alts f))
      in case f_kind f of
           FTop \<Rightarrow> r | FGroup n \<Rightarrow> Grp n r | FNonCap \<Rightarrow> r | FLook p \<Rightarrow> Look p r)"

definition push_re :: "re \<Rightarrow> frame \<Rightarrow> frame" where
  "push_re r f = f\<lparr>f_seq := r # f_seq f\<rparr>"

definition new_frame :: "fkind \<Rightarrow> frame" where
  "new_frame k = \<lparr>f_kind = k, f_alts = [], f_seq = []\<rparr>"

fun esc_cls :: "char \<Rightarrow> cls option" where
  "esc_cls c =
     (if c = CHR ''d'' then Some CDigit else if c = CHR ''D'' then Some CNDigit
      else if c = CHR ''s'' then Some CSpace else if c = CHR ''S'' then Some CNSpace
      else if c = CHR ''w'' then Some CWord else if c = CHR ''W'' then Some CNWord else None)"

definition esc_chr :: "char \<Rightarrow> char" where
  "esc_chr c =
     (if c = CHR ''n'' then CHR 0x0A else if c = CHR ''t'' then CHR 0x09
      else if c = CHR ''r'' then CHR 0x0D else if c = CHR ''f'' then CHR 0x0C
      else if c = CHR ''v'' then CHR 0x0B else c)"

definition esc_re :: "char \<Rightarrow> re" where
  "esc_re c =
     (if c = CHR ''b'' then WordB else if c = CHR ''B'' then NWordB
      else if is_digit c then BackRef (ord_of c - 48)
      else case esc_cls c of Some k \<Rightarrow> Cls False [k] | None \<Rightarrow> Chr (esc_chr c))"

fun scan_class :: "cls list \<Rightarrow> nat \<Rightarrow> string \<Rightarrow> (cls list \<times> nat) option" where
  "scan_class acc n [] = None"
| "scan_class acc n [c] = (if c = CHR '']'' \<and> acc \<noteq> [] then Some (rev acc, Suc n) else None)"
| "scan_class acc n (c # d # s) =
     (if c = CHR '']'' \<and> acc \<noteq> [] then Some (rev acc, Suc n)
      else if c = CHR 0x5C then
        scan_class ((case esc_cls d of Some k \<Rightarrow> k | None \<Rightarrow> CChr (esc_chr d)) # acc) (n + 2) s
      else if d = CHR ''-'' then
        (case s of
           [] \<Rightarrow> None
         | e # s' \<Rightarrow> if e = CHR '']'' then Some (rev (CChr d # CChr c # acc), n + 3)
                    else scan_class (CRange c e # acc) (n + 3) s')
      else scan_class (CChr c # acc) (Suc n) (d # s))"

fun re_digits :: "nat \<Rightarrow> string \<Rightarrow> nat \<times> string" where
  "re_digits n [] = (n, [])"
| "re_digits n (c # s) = (if is_digit c then re_digits (10 * n + (ord_of c - 48)) s else (n, c # s))"

definition brace :: "string \<Rightarrow> (nat \<times> nat option \<times> string) option" where
  "brace s =
     (case re_digits 0 s of
        (m, s1) \<Rightarrow>
          if s1 = s then None
          else case s1 of
                 [] \<Rightarrow> None
               | c # s2 \<Rightarrow>
                   if c = CHR ''}'' then Some (m, Some m, s2)
                   else if c = CHR '','' then
                     (case re_digits 0 s2 of
                        (n, s3) \<Rightarrow>
                          (case s3 of
                             [] \<Rightarrow> None
                           | d # s4 \<Rightarrow> if d = CHR ''}'' then Some (m, if s3 = s2 then None else Some n, s4)
                                      else None))
                   else None)"

definition re_opt :: "bool \<Rightarrow> re \<Rightarrow> re" where
  "re_opt greedy r = (if greedy then Alt r Eps else Alt Eps r)"

primrec upto_times :: "bool \<Rightarrow> re \<Rightarrow> nat \<Rightarrow> re" where
  "upto_times greedy r 0 = Eps"
| "upto_times greedy r (Suc n) = re_opt greedy (Seq r (upto_times greedy r n))"

definition repeat_re :: "bool \<Rightarrow> re \<Rightarrow> nat \<Rightarrow> nat option \<Rightarrow> re" where
  "repeat_re greedy r m n =
     (let tail = (case n of None \<Rightarrow> Star greedy r | Some k \<Rightarrow> upto_times greedy r (k - m))
      in seq_of (replicate m r @ (if tail = Eps then [] else [tail])))"

definition plain_re :: "char \<Rightarrow> re" where
  "plain_re c =
     (if c = CHR ''^'' then Bol else if c = CHR ''$'' then Eol
      else if c = CHR ''.'' then Any else Chr c)"

definition quantifier :: "char \<Rightarrow> string \<Rightarrow> (nat \<times> nat option \<times> nat) option" where
  "quantifier c s =
     (if c = CHR ''*'' then Some (0, None, 0)
      else if c = CHR ''+'' then Some (1, None, 0)
      else if c = CHR ''?'' then Some (0, Some 1, 0)
      else if c = CHR ''{'' then
        (case brace s of None \<Rightarrow> None | Some (m, k, t) \<Rightarrow> Some (m, k, length s - length t))
      else None)"

function (sequential) re_parse :: "frame \<Rightarrow> frame list \<Rightarrow> nat \<Rightarrow> string \<Rightarrow> re option" where
  "re_parse f st n [] = (if st = [] then Some (close_frame f) else None)"
| "re_parse f st n (c # s) =
     (if c = CHR 0x5C then
        (case s of [] \<Rightarrow> None | d # s' \<Rightarrow> re_parse (push_re (esc_re d) f) st n s')
      else if c = CHR ''['' then
        (let neg = prefix ''^'' s; s1 = (if neg then drop 1 s else s)
         in case scan_class [] 0 s1 of
              None \<Rightarrow> None
            | Some (cs, k) \<Rightarrow> re_parse (push_re (Cls neg cs) f) st n (drop k s1))
      else if c = CHR ''('' then
        (if prefix ''?:'' s then re_parse (new_frame FNonCap) (f # st) n (drop 2 s)
         else if prefix ''?='' s then re_parse (new_frame (FLook True)) (f # st) n (drop 2 s)
         else if prefix ''?!'' s then re_parse (new_frame (FLook False)) (f # st) n (drop 2 s)
         else if prefix ''?'' s then None
         else re_parse (new_frame (FGroup n)) (f # st) (Suc n) s)
      else if c = CHR '')'' then
        (case st of [] \<Rightarrow> None | p # st' \<Rightarrow> re_parse (push_re (close_frame f) p) st' n s)
      else if c = CHR ''|'' then
        re_parse (f\<lparr>f_alts := seq_of (rev (f_seq f)) # f_alts f, f_seq := []\<rparr>) st n s
      else
        (case quantifier c s of
           None \<Rightarrow> re_parse (push_re (plain_re c) f) st n s
         | Some (m, k, d) \<Rightarrow>
             (let greedy = (\<not> prefix ''?'' (drop d s)); d' = (if greedy then d else Suc d)
              in case f_seq f of
                   [] \<Rightarrow> None
                 | r # rs \<Rightarrow> re_parse (f\<lparr>f_seq := repeat_re greedy r m k # rs\<rparr>) st n (drop d' s))))"
  by pat_completeness auto
termination
  by (relation "measure (\<lambda>(f, st, n, s). length s)") (auto simp: Let_def split: if_splits)

definition compile :: "string \<Rightarrow> re option" where
  "compile p = re_parse (new_frame FTop) [] 1 p"

section \<open>Substitution\<close>

function (sequential) sub_from :: "re \<Rightarrow> (pymatch \<Rightarrow> string) \<Rightarrow> bool \<Rightarrow> string \<Rightarrow> string \<Rightarrow> string" where
  "sub_from r f adj b [] =
     (case match_at r (b, [], []) of None \<Rightarrow> [] | Some m \<Rightarrow> if adj then [] else f m)"
| "sub_from r f adj b (c # a) =
     (case match_at r (b, c # a, []) of
        None \<Rightarrow> c # sub_from r f False (c # b) a
      | Some m \<Rightarrow>
          (if m_text m = [] then (if adj then [] else f m) @ c # sub_from r f False (c # b) a
           else f m @ sub_from r f True (rev (m_text m) @ b) (drop (length (m_text m)) (c # a))))"
  by pat_completeness auto
termination
  by (relation "measure (\<lambda>(r, f, adj, b, a). length a)") auto

definition re_sub :: "re \<Rightarrow> (pymatch \<Rightarrow> string) \<Rightarrow> string \<Rightarrow> string" where
  "re_sub r f s = sub_from r f False [] s"

section \<open>What a match consists of\<close>

declare ms.simps(7) [simp del] ms.simps(13,14) [simp del]

lemma step1_mem:
  "y \<in> set (step1 P (b, a, g)) \<longleftrightarrow> (\<exists>c a'. P c \<and> a = c # a' \<and> y = (c # b, a', g))"
  by (cases a) auto

lemma ms_Star_set:
  "set (ms (Star gr p) x) = insert x (\<Union>y \<in> set (ms p x).
     if length (mst_rest y) < length (mst_rest x) then set (ms (Star gr p) y) else {y})"
  unfolding ms.simps(7) [of gr p x] by (auto simp add: Let_def split: if_splits)

lemma ms_Star_refl: "x \<in> set (ms (Star gr p) x)"
  by (subst ms_Star_set) simp

lemma ms_Star_induct [consumes 1, case_names start step]:
  assumes "y \<in> set (ms (Star gr p) x)" and "Q x"
    and "\<And>u v. Q u \<Longrightarrow> v \<in> set (ms p u) \<Longrightarrow> Q v"
  shows "Q y"
  using assms(1,2)
proof (induction "length (mst_rest x)" arbitrary: x rule: less_induct)
  case less
  from less.prems(1)[unfolded ms_Star_set [of gr p x]]
  consider "y = x"
    | z where "z \<in> set (ms p x)" "length (mst_rest z) < length (mst_rest x)" "y \<in> set (ms (Star gr p) z)"
    | "y \<in> set (ms p x)"
    by (auto split: if_splits)
  then show ?case
    using less.hyps less.prems(2) assms(3) by cases auto
qed

lemma ms_Look_mem:
  "y \<in> set (ms (Look pos p) (b, a, g)) \<Longrightarrow>
     \<exists>g'. y = (b, a, g') \<and> (g' = g \<or> (\<exists>b1 a1. (b1, a1, g') \<in> set (ms p (b, a, g))))"
  by (cases "ms p (b, a, g)") (auto simp: ms.simps(13) split: if_splits)

lemma ms_BackRef_mem:
  "y \<in> set (ms (BackRef n) (b, a, g)) \<longleftrightarrow>
     (\<exists>i t a'. map_of g n = Some (i, t) \<and> a = t @ a' \<and> y = (rev t @ b, a', g))"
  by (cases "map_of g n") (auto simp: ms.simps(14) prefix_def)

lemmas ms_mem = step1_mem ms_BackRef_mem

lemma ms_consumes:
  "(b', a', g') \<in> set (ms r (b, a, g)) \<Longrightarrow> \<exists>w. a = w @ a' \<and> b' = rev w @ b"
proof (induction r arbitrary: b a g b' a' g')
  case (Seq p q)
  from Seq.prems obtain b1 a1 g1 where 1: "(b1, a1, g1) \<in> set (ms p (b, a, g))"
    and 2: "(b', a', g') \<in> set (ms q (b1, a1, g1))"
    by auto
  from Seq.IH(1)[OF 1] Seq.IH(2)[OF 2] show ?case by auto
next
  case (Star gr p)
  have "\<exists>w. a = w @ fst (snd (b', a', g')) \<and> fst (b', a', g') = rev w @ b"
    using Star.prems
  proof (induction rule: ms_Star_induct)
    case (step u v)
    then show ?case using Star.IH by (cases u; cases v) fastforce
  qed simp
  then show ?case by simp
next
  case (Grp n p)
  then show ?case by fastforce
next
  case (Look pos p)
  then show ?case by (auto dest!: ms_Look_mem)
qed (auto simp: ms_mem split: if_splits)

fun grps :: "re \<Rightarrow> nat list" where
  "grps (Seq p q) = grps p @ grps q"
| "grps (Alt p q) = grps p @ grps q"
| "grps (Star gr p) = grps p"
| "grps (Grp n p) = n # grps p"
| "grps (Look pos p) = grps p"
| "grps _ = []"

lemma ms_groups_frame:
  "(b', a', g') \<in> set (ms r (b, a, g)) \<Longrightarrow> n \<notin> set (grps r) \<Longrightarrow> map_of g' n = map_of g n"
proof (induction r arbitrary: b a g b' a' g')
  case (Seq p q)
  then show ?case by fastforce
next
  case (Star gr p)
  have "map_of (snd (snd (b', a', g'))) n = map_of g n"
    using Star.prems(1)
  proof (induction rule: ms_Star_induct)
    case (step u v)
    then show ?case using Star.IH Star.prems(2) by (cases u; cases v) fastforce
  qed simp
  then show ?case by simp
next
  case (Grp m p)
  then show ?case by fastforce
next
  case (Look pos p)
  then show ?case by (fastforce dest!: ms_Look_mem)
qed (auto simp: ms_mem split: if_splits)

definition wf_groups :: "string \<Rightarrow> groups \<Rightarrow> bool" where
  "wf_groups s g \<longleftrightarrow> (\<forall>(n, i, t) \<in> set g. \<exists>p q. s = p @ t @ q \<and> length p = i)"

lemma wf_groups_capture:
  assumes "wf_groups (rev b @ a) g'" "a = w @ a'" "b' = rev w @ b"
  shows "wf_groups (rev b @ a) (snd (snd (capture n (b, a, g) (b', a', g'))))"
  using assms by (fastforce simp: wf_groups_def)

lemma ms_wf_groups:
  "(b', a', g') \<in> set (ms r (b, a, g)) \<Longrightarrow> wf_groups (rev b @ a) g \<Longrightarrow> wf_groups (rev b @ a) g'"
proof (induction r arbitrary: b a g b' a' g')
  case (Seq p q)
  from Seq.prems(1) obtain b1 a1 g1 where 1: "(b1, a1, g1) \<in> set (ms p (b, a, g))"
    and 2: "(b', a', g') \<in> set (ms q (b1, a1, g1))"
    by auto
  from ms_consumes [OF 1] have "rev b1 @ a1 = rev b @ a" by auto
  with Seq.IH(1)[OF 1 Seq.prems(2)] Seq.IH(2)[OF 2] show ?case by simp
next
  case (Star gr p)
  have "rev (fst (b', a', g')) @ fst (snd (b', a', g')) = rev b @ a \<and>
        wf_groups (rev b @ a) (snd (snd (b', a', g')))"
    using Star.prems(1)
  proof (induction rule: ms_Star_induct)
    case (step u v)
    obtain b1 a1 g1 b2 a2 g2 where uv: "u = (b1, a1, g1)" "v = (b2, a2, g2)"
      by (cases u; cases v)
    from ms_consumes [OF step(2)[unfolded uv]] Star.IH [OF step(2)[unfolded uv]] step(1)
    show ?case by (auto simp: uv)
  qed (use Star.prems in simp)
  then show ?case by simp
next
  case (Grp n p)
  from Grp.prems obtain b1 a1 g1 where 1: "(b1, a1, g1) \<in> set (ms p (b, a, g))"
    and 2: "(b', a', g') = capture n (b, a, g) (b1, a1, g1)"
    by auto
  from ms_consumes [OF 1] wf_groups_capture [OF Grp.IH [OF 1 Grp.prems(2)]] 2 show ?case
    by (metis snd_conv)
next
  case (Look pos p)
  then show ?case by (fastforce dest!: ms_Look_mem)
qed (auto simp: ms_mem split: if_splits)

lemma ms_Star_mem_step:
  assumes r: "\<And>x. ms r x = step1 P x"
  shows "y \<in> set (ms (Star gr r) (b, a, g)) \<longleftrightarrow>
    (\<exists>w a'. a = w @ a' \<and> list_all P w \<and> y = (rev w @ b, a', g))"
proof (induction a arbitrary: b)
  case Nil
  show ?case by (subst ms_Star_set) (auto simp: r mst_rest_def)
next
  case (Cons c a)
  show ?case
    by (subst ms_Star_set) (auto simp: r mst_rest_def Cons.IH Cons_eq_append_conv)
qed

lemma ms_Star_step:
  assumes r: "\<And>x. ms r x = step1 P x"
  shows "ms (Star True r) (b, a, g) =
    map (\<lambda>k. (rev (take k a) @ b, drop k a, g)) (rev [0..<Suc (length (takeWhile P a))])"
proof (induction a arbitrary: b)
  case Nil
  show ?case by (subst ms.simps(7)) (simp add: r mst_rest_def)
next
  case (Cons c a)
  have up: "rev [0..<Suc (Suc n)] = map Suc (rev [0..<Suc n]) @ [0]" for n
    by (simp only: rev_map [symmetric] map_Suc_upt) (simp add: upt_conv_Cons del: upt_Suc)
  show ?case
  proof (cases "P c")
    case True
    then show ?thesis
      by (subst ms.simps(7)) (simp add: r mst_rest_def Cons.IH up del: upt_Suc)
  next
    case False
    then show ?thesis by (subst ms.simps(7)) (simp add: r mst_rest_def)
  qed
qed


lemma match_at_SomeE:
  assumes "match_at r (b, a, []) = Some m"
  obtains b' a' where "(b', a', m_groups m) \<in> set (ms r (b, a, []))" "a = m_text m @ a'"
    "b' = rev (m_text m) @ b" "m_start m = length b" "m_end m = length b + length (m_text m)"
proof -
  from assms obtain y ys where y: "ms r (b, a, []) = y # ys" and m: "m = mk_match (b, a, []) y"
    by (auto simp: match_at_def split: list.splits)
  obtain b' a' g' where y': "y = (b', a', g')" by (cases y)
  with y have mem: "(b', a', g') \<in> set (ms r (b, a, []))" by simp
  from ms_consumes [OF mem] obtain w where "a = w @ a'" "b' = rev w @ b" by blast
  with mem m y' that show thesis by simp
qed

lemma search_from_SomeE:
  assumes "search_from r b a = Some m"
  obtains p a' where "a = p @ a'" "match_at r (rev p @ b, a', []) = Some m"
    "\<And>q a''. a = q @ a'' \<Longrightarrow> length q < length p \<Longrightarrow> match_at r (rev q @ b, a'', []) = None"
  using assms
proof (induction a arbitrary: b thesis)
  case Nil
  then show ?case by auto
next
  case (Cons c a)
  show ?case
  proof (cases "match_at r (b, c # a, [])")
    case None
    with Cons.prems(2) have "search_from r (c # b) a = Some m" by simp
    then obtain p a' where p: "a = p @ a'" "match_at r (rev p @ c # b, a', []) = Some m"
      and min: "\<And>q a''. a = q @ a'' \<Longrightarrow> length q < length p \<Longrightarrow> match_at r (rev q @ c # b, a'', []) = None"
      using Cons.IH by metis
    show ?thesis
    proof (rule Cons.prems(1))
      show "c # a = (c # p) @ a'" "match_at r (rev (c # p) @ b, a', []) = Some m"
        using p by simp_all
      fix q a'' assume q: "c # a = q @ a''" "length q < length (c # p)"
      show "match_at r (rev q @ b, a'', []) = None"
        using q None min by (cases q) auto
    qed
  next
    case (Some m')
    show ?thesis by (rule Cons.prems(1)[of "[]" "c # a"]) (use Some Cons.prems(2) in auto)
  qed
qed

lemma search_from_None:
  "search_from r b a = None \<longleftrightarrow> (\<forall>p a'. a = p @ a' \<longrightarrow> match_at r (rev p @ b, a', []) = None)"
proof (induction a arbitrary: b)
  case (Cons c a)
  have "(\<forall>p a'. c # a = p @ a' \<longrightarrow> Q p a') \<longleftrightarrow> Q [] (c # a) \<and> (\<forall>p a'. a = p @ a' \<longrightarrow> Q (c # p) a')" for Q
  proof (intro iffI conjI allI impI)
    fix p a' assume "Q [] (c # a) \<and> (\<forall>p a'. a = p @ a' \<longrightarrow> Q (c # p) a')" "c # a = p @ a'"
    then show "Q p a'" by (cases p) auto
  qed auto
  from this [of "\<lambda>p a'. match_at r (rev p @ b, a', []) = None"]
  show ?case by (simp add: Cons.IH split: option.splits)
qed simp

lemma match_at_wf_groups:
  assumes "match_at r (b, a, []) = Some m"
  shows "wf_groups (rev b @ a) (m_groups m)"
  using assms
proof (rule match_at_SomeE)
  fix b' a' assume "(b', a', m_groups m) \<in> set (ms r (b, a, []))"
  from ms_wf_groups [OF this] show ?thesis by (simp add: wf_groups_def)
qed

lemma re_match_text:
  assumes "re_match r s = Some m"
  shows "\<exists>q. s = m_text m @ q" "m_start m = 0" "m_end m = length (m_text m)"
    "wf_groups s (m_groups m)"
proof -
  from assms have m: "match_at r ([], s, []) = Some m" by (simp add: re_match_def mst_start_def)
  from m show "\<exists>q. s = m_text m @ q" "m_start m = 0" "m_end m = length (m_text m)"
    by (auto elim: match_at_SomeE)
  from match_at_wf_groups [OF m] show "wf_groups s (m_groups m)" by simp
qed

lemma re_search_text:
  assumes "re_search r s = Some m"
  shows "\<exists>p q. s = p @ m_text m @ q \<and> m_start m = length p \<and> m_end m = length p + length (m_text m)"
    "wf_groups s (m_groups m)"
proof -
  from assms obtain p a where s: "s = p @ a" and m: "match_at r (rev p, a, []) = Some m"
    unfolding re_search_def by (metis search_from_SomeE append_Nil2)
  from m show "\<exists>p q. s = p @ m_text m @ q \<and> m_start m = length p \<and> m_end m = length p + length (m_text m)"
    by (rule match_at_SomeE) (auto simp: s)
  from match_at_wf_groups [OF m] show "wf_groups s (m_groups m)" by (simp add: s)
qed

lemma wf_groups_group:
  assumes "wf_groups s (m_groups m)" "group m n = Some t" "n \<noteq> 0"
  shows "\<exists>p q. s = p @ t @ q"
  using assms map_of_SomeD by (fastforce simp: group_def wf_groups_def)

lemma sub_from_subseq: "subseq (sub_from r (\<lambda>_. []) adj b a) a"
proof (induction r "\<lambda>_ :: pymatch. [] :: string" adj b a rule: sub_from.induct)
  case (2 r adj b c a)
  show ?case
  proof (cases "match_at r (b, c # a, [])")
    case None
    with 2(1) show ?thesis by simp
  next
    case (Some m)
    show ?thesis
    proof (cases "m_text m = []")
      case True
      with Some 2(2)[OF Some True] show ?thesis by simp
    next
      case False
      have "subseq (drop n xs) xs" for n and xs :: string
        by (metis append_take_drop_id list_emb_append2 subseq_order.order_refl)
      with Some False 2(3)[OF Some False] show ?thesis
        by (auto intro: subseq_order.order_trans simp del: drop_Cons' drop.simps)
    qed
  qed
qed (simp split: option.splits)

lemma re_sub_delete_subseq: "subseq (re_sub r (\<lambda>_. []) s) s"
  by (simp add: re_sub_def sub_from_subseq)
section \<open>Match, Search, ReplaceAll and their cache\<close>

definition Match :: "string \<Rightarrow> string \<Rightarrow> pymatch option" where
  "Match pattern s = (case compile (bs pattern) of None \<Rightarrow> None | Some r \<Rightarrow> re_match r s)"

definition Search :: "string \<Rightarrow> string \<Rightarrow> pymatch option" where
  "Search pattern s = (case compile (bs pattern) of None \<Rightarrow> None | Some r \<Rightarrow> re_search r s)"

definition ReplaceAll :: "string \<Rightarrow> string \<Rightarrow> string \<Rightarrow> string" where
  "ReplaceAll pattern rep s =
     (case compile (bs pattern) of None \<Rightarrow> s | Some r \<Rightarrow> re_sub r (\<lambda>_. rep) s)"

definition grp :: "pymatch \<Rightarrow> nat \<Rightarrow> string" where
  "grp m n = (case group m n of Some t \<Rightarrow> t | None \<Rightarrow> [])"

text \<open>
  The three functions keep the compiled form of every pattern in the dictionary
  \<open>_regexp_compile_cache\<close>. \<open>compile_cached\<close> is the lookup they share; the versions
  with suffix \<open>_in\<close> thread the dictionary. A pattern that does not compile raises.
\<close>

type_synonym re_cache = "string \<rightharpoonup> re"

definition compile_cached :: "re_cache \<Rightarrow> string \<Rightarrow> (re_cache \<times> re) res" where
  "compile_cached cache pattern =
     (case cache pattern of
        Some r \<Rightarrow> Inr (cache, r)
      | None \<Rightarrow>
          (case compile (bs pattern) of
             None \<Rightarrow> Inl (ValueError pattern)
           | Some r \<Rightarrow> Inr (cache(pattern \<mapsto> r), r)))"

definition Match_in :: "re_cache \<Rightarrow> string \<Rightarrow> string \<Rightarrow> (re_cache \<times> pymatch option) res" where
  "Match_in cache pattern s =
     res_bind (compile_cached cache pattern) (\<lambda>(cache', r). Inr (cache', re_match r s))"

definition Search_in :: "re_cache \<Rightarrow> string \<Rightarrow> string \<Rightarrow> (re_cache \<times> pymatch option) res" where
  "Search_in cache pattern s =
     res_bind (compile_cached cache pattern) (\<lambda>(cache', r). Inr (cache', re_search r s))"

definition ReplaceAll_in :: "re_cache \<Rightarrow> string \<Rightarrow> string \<Rightarrow> string \<Rightarrow> (re_cache \<times> string) res" where
  "ReplaceAll_in cache pattern rep s =
     res_bind (compile_cached cache pattern) (\<lambda>(cache', r). Inr (cache', re_sub r (\<lambda>_. rep) s))"

text \<open>
  The contract of a compilation cache, and its client: a sequence of calls, each of which
  uses the compiled pattern in its own way. Inside the locale the answers do not depend
  on the state of the cache.
\<close>

fun serve :: "('c \<Rightarrow> string \<Rightarrow> ('c \<times> re) res) \<Rightarrow> 'c \<Rightarrow> (string \<times> (re \<Rightarrow> 'a)) list \<Rightarrow> ('c \<times> 'a list) res" where
  "serve get c [] = Inr (c, [])"
| "serve get c ((p, use) # calls) =
     res_bind (get c p) (\<lambda>(c1, r).
       res_bind (serve get c1 calls) (\<lambda>(c2, as). Inr (c2, use r # as)))"

locale pattern_cache =
  fixes get :: "'c \<Rightarrow> string \<Rightarrow> ('c \<times> re) res"
    and invar :: "'c \<Rightarrow> bool"
  assumes get_compiles:
      "invar c \<Longrightarrow> compile (bs p) = Some r \<Longrightarrow> \<exists>c'. get c p = Inr (c', r) \<and> invar c'"
    and get_rejects: "invar c \<Longrightarrow> compile (bs p) = None \<Longrightarrow> \<exists>e. get c p = Inl e"
begin

lemma serve_as_if_uncached:
  assumes "invar c" "list_all (\<lambda>(p, use). compile (bs p) \<noteq> None) calls"
  shows "\<exists>c'. serve get c calls = Inr (c', map (\<lambda>(p, use). use (the (compile (bs p)))) calls) \<and> invar c'"
  using assms
proof (induction calls arbitrary: c)
  case (Cons call calls)
  obtain p use r where call: "call = (p, use)" "compile (bs p) = Some r"
    using Cons.prems(2) by (cases call) auto
  with get_compiles [OF Cons.prems(1)] obtain c1 where c1: "get c p = Inr (c1, r)" "invar c1"
    by blast
  from Cons.IH [OF c1(2)] Cons.prems(2) obtain c2
    where "serve get c1 calls = Inr (c2, map (\<lambda>(p, use). use (the (compile (bs p)))) calls)" "invar c2"
    by auto
  with call c1 show ?case by simp
qed simp

lemma get_functional:
  assumes "invar c" "get c p = Inr (c1, r)" "invar d" "get d p = Inr (d1, q)"
  shows "r = q"
proof (cases "compile (bs p)")
  case None
  from get_rejects [OF assms(1) None] assms(2) show ?thesis by auto
next
  case (Some x)
  from get_compiles [OF assms(1) Some] get_compiles [OF assms(3) Some] assms(2,4)
  show ?thesis by auto
qed

end

definition cache_ok :: "re_cache \<Rightarrow> bool" where
  "cache_ok cache \<longleftrightarrow> (\<forall>p r. cache p = Some r \<longrightarrow> compile (bs p) = Some r)"

interpretation dict_cache: pattern_cache compile_cached cache_ok
proof unfold_locales
  fix c p r
  assume c: "cache_ok c"
  show "\<exists>c'. compile_cached c p = Inr (c', r) \<and> cache_ok c'" if "compile (bs p) = Some r"
    using c that by (cases "c p") (auto simp: compile_cached_def cache_ok_def)
  show "\<exists>e. compile_cached c p = Inl e" if "compile (bs p) = None"
    using c that by (cases "c p") (auto simp: compile_cached_def cache_ok_def)
qed

lemma cache_ok_empty [simp]: "cache_ok Map.empty"
  by (simp add: cache_ok_def)

lemma cached_calls:
  assumes "cache_ok cache" "compile (bs p) \<noteq> None"
  shows "\<exists>c'. Match_in cache p s = Inr (c', Match p s) \<and> cache_ok c'"
    and "\<exists>c'. Search_in cache p s = Inr (c', Search p s) \<and> cache_ok c'"
    and "\<exists>c'. ReplaceAll_in cache p rep s = Inr (c', ReplaceAll p rep s) \<and> cache_ok c'"
proof -
  from assms(2) obtain r where r: "compile (bs p) = Some r" by blast
  from dict_cache.get_compiles [OF assms(1) r] obtain c' where "compile_cached cache p = Inr (c', r)" "cache_ok c'"
    by blast
  with r show "\<exists>c'. Match_in cache p s = Inr (c', Match p s) \<and> cache_ok c'"
    and "\<exists>c'. Search_in cache p s = Inr (c', Search p s) \<and> cache_ok c'"
    and "\<exists>c'. ReplaceAll_in cache p rep s = Inr (c', ReplaceAll p rep s) \<and> cache_ok c'"
    by (auto simp: Match_in_def Search_in_def ReplaceAll_in_def Match_def Search_def ReplaceAll_def)
qed

section \<open>Matches of the program's functions\<close>

lemma Match_text:
  assumes "Match p s = Some m"
  shows "\<exists>q. s = m_text m @ q" "m_start m = 0" "m_end m = length (m_text m)"
    "wf_groups s (m_groups m)"
  using assms by (auto simp: Match_def split: option.splits dest: re_match_text)

lemma Search_text:
  assumes "Search p s = Some m"
  shows "\<exists>u v. s = u @ m_text m @ v \<and> m_start m = length u" "wf_groups s (m_groups m)"
proof -
  from assms obtain r where r: "re_search r s = Some m" by (auto simp: Search_def split: option.splits)
  from re_search_text [OF r]
  show "\<exists>u v. s = u @ m_text m @ v \<and> m_start m = length u" "wf_groups s (m_groups m)" by blast+
qed

lemma grp_sublist:
  assumes "wf_groups s (m_groups m)" "n \<noteq> 0"
  shows "sublist (grp m n) s"
  using wf_groups_group [OF assms(1) _ assms(2)]
  by (auto simp: grp_def sublist_def split: option.splits)

lemma ReplaceAll_delete_subseq [py_seq]: "subseq (ReplaceAll p [] s) s"
  by (auto simp: ReplaceAll_def re_sub_delete_subseq split: option.splits)

section \<open>Inversion of matches\<close>

text \<open>
  Rewriting \<open>y \<in> set (ms r x)\<close> with the collection \<open>ms_inv\<close> takes a match of a
  concrete tree apart into the pieces of text that its parts have read. \<open>lits\<close>
  abbreviates a run of literal characters in a tree.
\<close>

named_theorems ms_inv \<open>membership in the matches of a tree\<close>

primrec lits :: "string \<Rightarrow> re \<Rightarrow> re" where
  "lits [] r = r"
| "lits (c # w) r = Seq (Chr c) (lits w r)"

lemma ms_Chr_mem [ms_inv]:
  "y \<in> set (ms (Chr c) (b, a, g)) \<longleftrightarrow> (\<exists>a'. a = c # a' \<and> y = (c # b, a', g))"
  by (auto simp: step1_mem)

lemma ms_Any_mem [ms_inv]:
  "y \<in> set (ms Any (b, a, g)) \<longleftrightarrow> (\<exists>c a'. c \<noteq> nl \<and> a = c # a' \<and> y = (c # b, a', g))"
  by (auto simp: step1_mem)

lemma ms_Cls_mem [ms_inv]:
  "y \<in> set (ms (Cls neg cs) (b, a, g)) \<longleftrightarrow> (\<exists>c a'. in_set neg cs c \<and> a = c # a' \<and> y = (c # b, a', g))"
  by (auto simp: step1_mem)

lemma ms_Seq_mem [ms_inv]:
  "y \<in> set (ms (Seq p q) x) \<longleftrightarrow> (\<exists>b a g. (b, a, g) \<in> set (ms p x) \<and> y \<in> set (ms q (b, a, g)))"
  by auto

lemma ms_Alt_mem [ms_inv]: "y \<in> set (ms (Alt p q) x) \<longleftrightarrow> y \<in> set (ms p x) \<or> y \<in> set (ms q x)"
  by auto

lemma ms_Grp_mem [ms_inv]:
  "y \<in> set (ms (Grp n p) (b, a, g)) \<longleftrightarrow> (\<exists>b' a' g'. (b', a', g') \<in> set (ms p (b, a, g)) \<and>
     y = (b', a', (n, length b, take (length a - length a') a) # g'))"
  by (simp add: image_iff Bex_def split_paired_Ex)

lemma ms_at_mem [ms_inv]:
  "y \<in> set (ms Eps x) \<longleftrightarrow> y = x"
  "y \<in> set (ms Bol (b, a, g)) \<longleftrightarrow> b = [] \<and> y = (b, a, g)"
  "y \<in> set (ms Eol (b, a, g)) \<longleftrightarrow> (a = [] \<or> a = [nl]) \<and> y = (b, a, g)"
  "y \<in> set (ms WordB (b, a, g)) \<longleftrightarrow> at_word b \<noteq> at_word a \<and> y = (b, a, g)"
  by auto

lemma ms_Star_Any_mem [ms_inv]:
  "y \<in> set (ms (Star gr Any) (b, a, g)) \<longleftrightarrow>
    (\<exists>w a'. a = w @ a' \<and> nl \<notin> set w \<and> y = (rev w @ b, a', g))"
  by (subst ms_Star_mem_step [where P = "\<lambda>d. d \<noteq> nl"]) (auto simp: list_all_iff)

lemma ms_Star_Cls_mem [ms_inv]:
  "y \<in> set (ms (Star gr (Cls neg cs)) (b, a, g)) \<longleftrightarrow>
    (\<exists>w a'. a = w @ a' \<and> list_all (in_set neg cs) w \<and> y = (rev w @ b, a', g))"
  by (rule ms_Star_mem_step) simp

lemma ms_Star_Chr_mem [ms_inv]:
  "y \<in> set (ms (Star gr (Chr c)) (b, a, g)) \<longleftrightarrow>
    (\<exists>w a'. a = w @ a' \<and> list_all (\<lambda>d. d = c) w \<and> y = (rev w @ b, a', g))"
  by (rule ms_Star_mem_step) simp

lemma ms_lits_mem [ms_inv]:
  "y \<in> set (ms (lits w r) (b, a, g)) \<longleftrightarrow> (\<exists>a'. a = w @ a' \<and> y \<in> set (ms r (rev w @ b, a', g)))"
proof (induction w arbitrary: b a)
  case (Cons c w)
  then show ?case by (simp only: lits.simps ms_Seq_mem ms_Chr_mem) auto
qed simp

lemma Match_memE:
  assumes "Match p s = Some m" "compile (bs p) = Some r"
  obtains a' where "(rev (m_text m), a', m_groups m) \<in> set (ms r ([], s, []))" "s = m_text m @ a'"
  using assms by (auto simp: Match_def re_match_def mst_start_def elim!: match_at_SomeE)

lemma Match_inv:
  "Match p s = Some m \<Longrightarrow> compile (bs p) = Some r \<Longrightarrow>
     \<exists>a'. (rev (m_text m), a', m_groups m) \<in> set (ms r ([], s, []))"
  by (metis Match_memE)

lemma Match_None_iff:
  assumes "compile (bs p) = Some r"
  shows "Match p s = None \<longleftrightarrow> (\<forall>y. y \<notin> set (ms r ([], s, [])))"
  using assms by (auto simp: Match_def re_match_def mst_start_def match_at_def split: list.splits)

lemma Search_memE:
  assumes "Search p s = Some m" "compile (bs p) = Some r"
  obtains u v where "s = u @ m_text m @ v" "m_start m = length u"
    "(rev (m_text m) @ rev u, v, m_groups m) \<in> set (ms r (rev u, m_text m @ v, []))"
proof -
  from assms have "search_from r [] s = Some m" by (simp add: Search_def re_search_def)
  then obtain u a where u: "s = u @ a" "match_at r (rev u, a, []) = Some m"
    by (metis append_Nil2 search_from_SomeE)
  from u(2) show thesis by (rule match_at_SomeE) (use u(1) that in auto)
qed

lemma Search_inv:
  "Search p s = Some m \<Longrightarrow> compile (bs p) = Some r \<Longrightarrow>
     \<exists>u v. s = u @ m_text m @ v \<and>
       (rev (m_text m) @ rev u, v, m_groups m) \<in> set (ms r (rev u, m_text m @ v, []))"
  by (metis Search_memE)

lemma Search_None_iff:
  assumes "compile (bs p) = Some r"
  shows "Search p s = None \<longleftrightarrow> (\<forall>u v y. s = u @ v \<longrightarrow> y \<notin> set (ms r (rev u, v, [])))"
proof -
  have "match_at r x = None \<longleftrightarrow> (\<forall>y. y \<notin> set (ms r x))" for x
    by (auto simp: match_at_def split: list.splits)
  with assms show ?thesis by (simp add: Search_def re_search_def search_from_None)
qed

lemma sub_from_id:
  "(\<And>u v. a = u @ v \<Longrightarrow> match_at r (rev u @ b, v, []) = None) \<Longrightarrow> sub_from r f adj b a = a"
proof (induction a arbitrary: b adj)
  case Nil
  from Nil [of "[]" "[]"] show ?case by simp
next
  case (Cons c a)
  have "match_at r (rev u @ c # b, v, []) = None" if "a = u @ v" for u v
    using Cons.prems [of "c # u" v] that by simp
  with Cons.prems [of "[]" "c # a"] Cons.IH show ?case by simp
qed

lemma match_at_None_iff: "match_at r x = None \<longleftrightarrow> (\<forall>y. y \<notin> set (ms r x))"
  by (auto simp: match_at_def split: list.splits)

lemma re_sub_id:
  "(\<And>u v y. s = u @ v \<Longrightarrow> y \<notin> set (ms r (rev u, v, []))) \<Longrightarrow> re_sub r f s = s"
  unfolding re_sub_def by (rule sub_from_id) (simp add: match_at_None_iff)

text \<open>A pattern that matches only where the literal text \<open>w\<close> occurs.\<close>

definition needs :: "string \<Rightarrow> re \<Rightarrow> bool" where
  "needs w p \<longleftrightarrow> (\<forall>b a g y. y \<in> set (ms p (b, a, g)) \<longrightarrow> contains a w)"

lemma needs_lits: "needs w (lits w q)"
  by (auto simp: needs_def ms_lits_mem contains_iff simp del: ms.simps lits.simps)

lemma needs_Seq2: "needs w q \<Longrightarrow> needs w (Seq p q)"
  unfolding needs_def ms_Seq_mem
proof (intro allI impI, elim exE conjE)
  fix b a g y b' a' g'
  assume q: "\<forall>b a g y. y \<in> set (ms q (b, a, g)) \<longrightarrow> contains a w"
    and 1: "(b', a', g') \<in> set (ms p (b, a, g))" and 2: "y \<in> set (ms q (b', a', g'))"
  from q 2 have "contains a' w" by blast
  with ms_consumes [OF 1] show "contains a w" by (auto simp: contains_append2)
qed

lemma needs_Alt: "needs w p \<Longrightarrow> needs w q \<Longrightarrow> needs w (Alt p q)"
  unfolding needs_def ms_Alt_mem by blast

lemma needs_Grp: "needs w p \<Longrightarrow> needs w (Grp n p)"
  unfolding needs_def ms_Grp_mem by blast

section \<open>Properties\<close>

text \<open>
  C38: With a cache that holds only correct entries, which the empty cache does, the cached
  functions answer as the uncached ones and leave a cache of that kind.
\<close>
theorem cache_transparent:
  assumes "cache_ok cache" "compile (bs p) \<noteq> None"
  shows "(\<exists>c. Match_in cache p s = Inr (c, Match p s) \<and> cache_ok c) \<and>
     (\<exists>c. Search_in cache p s = Inr (c, Search p s) \<and> cache_ok c) \<and>
     (\<exists>c. ReplaceAll_in cache p rep s = Inr (c, ReplaceAll p rep s) \<and> cache_ok c)"
  using cached_calls [OF assms] by blast

theorem cache_transparent_witness:
  "\<exists>c. Match_in Map.empty ''^`s*$'' ''  '' = Inr (c, Match ''^`s*$'' ''  '') \<and> cache_ok c"
proof -
  have "compile (bs ''^`s*$'') \<noteq> None" by code_simp
  from cache_transparent [OF cache_ok_empty this] show ?thesis by blast
qed

lemma ms_SeqI: "z \<in> set (ms p x) \<Longrightarrow> y \<in> set (ms q z) \<Longrightarrow> y \<in> set (ms (Seq p q) x)"
  by auto

end
