(* ===== verification/Cleanse.thy ===== *)
theory Cleanse
  imports PyRegex
begin

text \<open>
  The preparation of a file's lines in \<open>scripts/cpplint.py\<close>: raw strings
  (\<open>CleanseRawStrings\<close>), comments that span lines (\<open>RemoveMultiLineComments\<close>),
  comments and strings within a line (\<open>CleanseComments\<close>, \<open>_CollapseStrings\<close>) and
  the class \<open>CleansedLines\<close> that holds the four versions of the lines. Every loop of
  the source is a function with a proof that it stops; the calls that could raise on a
  missing match are kept as such and shown not to raise. The contract
  \<open>line_cleanser\<close> says that an operation on a line returns and only deletes
  characters; its instances are the operations on single lines.
\<close>

section \<open>Quotes\<close>

definition IsCppString :: "string \<Rightarrow> bool" where
  "IsCppString line =
     (let line = replace_sub [bsl, bsl] ''XX'' line
      in odd (int (count_sub [dq] line) - int (count_sub [bsl, dq] line) - int (count_sub [sq, dq, sq] line)))"

section \<open>Patterns\<close>

text \<open>
  The patterns of the loops below, each with its syntax tree and what a match of it says
  about the line.
\<close>

definition RAW_STRING :: string where
  "RAW_STRING = ''^(.*?)`b(?:R|u8R|uR|UR|LR)\"([^`s``()]*)`((.*)$''"

definition raw_prefix :: re where
  "raw_prefix = Alt (Chr (CHR ''R'')) (Alt (lits ''u8'' (Chr (CHR ''R''))) (Alt (lits ''u'' (Chr (CHR ''R'')))
     (Alt (lits ''U'' (Chr (CHR ''R''))) (lits ''L'' (Chr (CHR ''R''))))))"

lemma raw_prefix_inv:
  "(b', a', g') \<in> set (ms raw_prefix (b, a, g)) \<Longrightarrow> g' = g \<and> (\<exists>w. a = w @ a' \<and> w \<noteq> [])"
  by (auto simp: raw_prefix_def ms_inv simp del: ms.simps)

lemma RAW_STRING_ast:
  "compile (bs RAW_STRING) = Some (Seq Bol (Seq (Grp 1 (Star False Any)) (Seq WordB (Seq raw_prefix
     (Seq (Chr dq) (Seq (Grp 2 (Star True (Cls True [CSpace, CChr bsl, CChr (CHR ''(''), CChr (CHR '')'')])))
       (Seq (Chr (CHR ''('')) (Seq (Grp 3 (Star True Any)) Eol))))))))"
  by code_simp

lemma RAW_STRING_length:
  assumes "Match RAW_STRING s = Some m"
  shows "length (grp m 1) + length (grp m 2) + length (grp m 3) + 2 < length s"
  using Match_inv [OF assms RAW_STRING_ast]
  by (auto simp: ms_inv grp_def group_def simp del: ms.simps dest!: raw_prefix_inv)

definition QUOTE :: string where
  "QUOTE = ''^([^'\"]*)(['\"])(.*)$''"

lemma QUOTE_ast:
  "compile (bs QUOTE) = Some (Seq Bol (Seq (Grp 1 (Star True (Cls True [CChr sq, CChr dq])))
     (Seq (Grp 2 (Cls False [CChr sq, CChr dq])) (Seq (Grp 3 (Star True Any)) Eol))))"
  by code_simp

lemma QUOTE_inv:
  assumes "Match QUOTE s = Some m"
  shows "\<exists>q u. s = grp m 1 @ q # grp m 3 @ u \<and> grp m 2 = [q] \<and> q \<in> {sq, dq} \<and> u \<in> {[], [nl]} \<and>
     nl \<notin> set (grp m 3) \<and> sq \<notin> set (grp m 1) \<and> dq \<notin> set (grp m 1)"
  using Match_inv [OF assms QUOTE_ast]
  by (auto simp: ms_inv grp_def group_def list_all_iff simp del: ms.simps)

definition DIGIT_TAIL :: string where
  "DIGIT_TAIL = ''^((?:'?[0-9a-zA-Z_])*)(.*)$''"

lemma DIGIT_TAIL_ast:
  "compile (bs DIGIT_TAIL) = Some (Seq Bol (Seq (Grp 1 (Star True (Seq (Alt (Seq (Chr sq) Eps) Eps)
      (Cls False [CRange (CHR ''0'') (CHR ''9''), CRange (CHR ''a'') (CHR ''z''),
         CRange (CHR ''A'') (CHR ''Z''), CChr (CHR ''_'')]))))
      (Seq (Grp 2 (Star True Any)) Eol)))"
  by code_simp

lemma DIGIT_TAIL_inv:
  assumes "Match DIGIT_TAIL s = Some m"
  shows "\<exists>u. s = grp m 1 @ grp m 2 @ u \<and> u \<in> {[], [nl]}"
  using Match_inv [OF assms DIGIT_TAIL_ast]
  by (auto simp: ms_Seq_mem ms_Grp_mem ms_at_mem ms_Star_Any_mem grp_def group_def
      simp del: ms.simps dest!: ms_consumes)

definition DIGITS_END :: string where
  "DIGITS_END = ''`b(?:0[bBxX]?|[1-9])[0-9a-fA-F]*$''"

lemma DIGITS_END_nonempty: "Search DIGITS_END s \<noteq> None \<Longrightarrow> s \<noteq> []"
  by (rule notI, erule notE, hypsubst, code_simp)

lemma DIGIT_TAIL_total:
  assumes "nl \<notin> set s"
  shows "Match DIGIT_TAIL s \<noteq> None"
proof -
  have 1: "([], s, [(1, 0, [])]) \<in> set (ms (Grp 1 (Star True p)) ([], s, []))" for p
    unfolding ms_Grp_mem using ms_Star_refl [of "([], s, [])" True p] by force
  have 2: "(rev s, [], [(2, 0, s), (1, 0, [])]) \<in> set (ms (Seq (Grp 2 (Star True Any)) Eol) ([], s, [(1, 0, [])]))"
    using assms by (simp add: ms_Seq_mem ms_Grp_mem ms_Star_Any_mem ms_at_mem del: ms.simps)
  from 1 2 have "(rev s, [], [(2, 0, s), (1, 0, [])]) \<in> set (ms (Seq Bol (Seq (Grp 1 (Star True p))
      (Seq (Grp 2 (Star True Any)) Eol))) ([], s, []))" for p
    unfolding ms_Seq_mem [of _ Bol] ms_Seq_mem [of _ "Grp 1 _"] ms_at_mem by blast
  then show ?thesis unfolding Match_None_iff [OF DIGIT_TAIL_ast] by blast
qed

definition LEADING_SPACE :: string where
  "LEADING_SPACE = ''^(`s*)`S''"

lemma LEADING_SPACE_ast:
  "compile (bs LEADING_SPACE) = Some (Seq Bol (Seq (Grp 1 (Star True (Cls False [CSpace]))) (Cls False [CNSpace])))"
  by code_simp

lemma LEADING_SPACE_total:
  assumes "c \<in> set s" "\<not> is_space c"
  shows "Match LEADING_SPACE s \<noteq> None"
proof -
  from split_list_first_prop [of s "\<lambda>x. \<not> is_space x"] assms
  obtain w d t where s: "s = w @ d # t" "\<not> is_space d" "\<forall>x \<in> set w. is_space x" by blast
  then have "(d # rev w, t, [(1, 0, w)]) \<in> set (ms (Seq Bol (Seq (Grp 1 (Star True (Cls False [CSpace])))
      (Cls False [CNSpace]))) ([], s, []))"
    by (simp add: ms_inv list_all_iff del: ms.simps)
  then show ?thesis unfolding Match_None_iff [OF LEADING_SPACE_ast] by blast
qed

section \<open>Raw strings\<close>

text \<open>
  \<open>raw_loop\<close> is the inner loop, which replaces the raw strings that start on a line; it
  returns the new line and the delimiter of a raw string that is still open.
\<close>

definition LINE_COMMENT :: string where
  "LINE_COMMENT = ''^([^'\"]|'(``.|[^'])*'|\"(``.|[^\"])*\")*//''"

function raw_loop :: "string \<Rightarrow> string \<times> string option" where
  "raw_loop line =
     (case Match RAW_STRING line of
        None \<Rightarrow> (line, None)
      | Some matched \<Rightarrow>
          (if Match LINE_COMMENT (grp matched 1) = None then
             (let delimiter = '')'' @ grp matched 2 @ [dq]
              in case find_sub delimiter (grp matched 3) of
                   Some end \<Rightarrow>
                     raw_loop (grp matched 1 @ [dq, dq] @ drop (end + length delimiter) (grp matched 3))
                 | None \<Rightarrow> (grp matched 1 @ [dq, dq], Some delimiter))
           else (line, None)))"
  by pat_completeness auto
termination
  by (relation "measure length") (auto dest: RAW_STRING_length)

declare raw_loop.simps [simp del]

fun cleanse_raw :: "string option \<Rightarrow> string list \<Rightarrow> string list res" where
  "cleanse_raw delimiter [] = Inr []"
| "cleanse_raw delimiter (line # raw_lines) =
     res_bind
       (case delimiter of
          None \<Rightarrow> Inr (raw_loop line)
        | Some d \<Rightarrow>
            (case find_sub d line of
               None \<Rightarrow> Inr ([dq, dq], Some d)
             | Some end \<Rightarrow>
                 (case Match LEADING_SPACE line of
                    None \<Rightarrow> Inl AttributeError
                  | Some leading_space \<Rightarrow>
                      Inr (raw_loop (grp leading_space 1 @ [dq, dq] @ drop (end + length d) line)))))
       (\<lambda>(line', delimiter'). res_bind (cleanse_raw delimiter' raw_lines) (\<lambda>ls. Inr (line' # ls)))"

definition CleanseRawStrings :: "string list \<Rightarrow> string list res" where
  "CleanseRawStrings raw_lines = cleanse_raw None raw_lines"

section \<open>Comments that span lines\<close>

function FindNextMultiLineCommentStart :: "string list \<Rightarrow> nat \<Rightarrow> nat" where
  "FindNextMultiLineCommentStart lines lineix =
     (if lineix < length lines then
        (if startswith (strip (lines ! lineix)) ''/*'' \<and>
            find_sub ''*/'' (drop 2 (strip (lines ! lineix))) = None
         then lineix
         else FindNextMultiLineCommentStart lines (Suc lineix))
      else length lines)"
  by pat_completeness auto
termination
  by (relation "measure (\<lambda>(lines, lineix). length lines - lineix)") auto

function FindNextMultiLineCommentEnd :: "string list \<Rightarrow> nat \<Rightarrow> nat" where
  "FindNextMultiLineCommentEnd lines lineix =
     (if lineix < length lines then
        (if endswith (strip (lines ! lineix)) ''*/'' then lineix
         else FindNextMultiLineCommentEnd lines (Suc lineix))
      else length lines)"
  by pat_completeness auto
termination
  by (relation "measure (\<lambda>(lines, lineix). length lines - lineix)") auto

declare FindNextMultiLineCommentStart.simps [simp del] FindNextMultiLineCommentEnd.simps [simp del]

definition RemoveMultiLineCommentsFromRange :: "string list \<Rightarrow> nat \<Rightarrow> nat \<Rightarrow> string list" where
  "RemoveMultiLineCommentsFromRange lines begin end =
     fold (\<lambda>i ls. ls[i := ''/**/'']) [begin..<end] lines"

lemma length_RemoveRange [simp]: "length (RemoveMultiLineCommentsFromRange lines b e) = length lines"
proof -
  have "length (fold (\<lambda>i ls. ls[i := ''/**/'']) is ls) = length ls" for "is" and ls :: "string list"
    by (induction "is" arbitrary: ls) auto
  then show ?thesis by (simp add: RemoveMultiLineCommentsFromRange_def)
qed

lemma FindStart_bounds:
  "lineix \<le> length lines \<Longrightarrow> lineix \<le> FindNextMultiLineCommentStart lines lineix \<and>
     FindNextMultiLineCommentStart lines lineix \<le> length lines"
proof (induction lines lineix rule: FindNextMultiLineCommentStart.induct)
  case (1 lines lineix)
  then show ?case by (subst (1 2) FindNextMultiLineCommentStart.simps) fastforce
qed

lemma FindEnd_bounds:
  "lineix \<le> length lines \<Longrightarrow> lineix \<le> FindNextMultiLineCommentEnd lines lineix \<and>
     FindNextMultiLineCommentEnd lines lineix \<le> length lines"
proof (induction lines lineix rule: FindNextMultiLineCommentEnd.induct)
  case (1 lines lineix)
  then show ?case by (subst (1 2) FindNextMultiLineCommentEnd.simps) fastforce
qed

function remove_comments :: "string \<Rightarrow> string list \<Rightarrow> nat \<Rightarrow> string list \<times> report list" where
  "remove_comments filename lines lineix =
     (if lineix < length lines then
        (let lineix_begin = FindNextMultiLineCommentStart lines lineix
         in if lineix_begin \<ge> length lines then (lines, [])
            else
              (let lineix_end = FindNextMultiLineCommentEnd lines lineix_begin
               in if lineix_end \<ge> length lines
                  then (lines, [Report filename (int lineix_begin + 1) ''readability/multiline_comment'' 5
                                 ''Could not find end of multi-line comment''])
                  else remove_comments filename
                         (RemoveMultiLineCommentsFromRange lines lineix_begin (lineix_end + 1))
                         (lineix_end + 1)))
      else (lines, []))"
  by pat_completeness auto
termination
proof (relation "measure (\<lambda>(_, lines, lineix). length lines - lineix)", goal_cases)
  case (2 filename lines lineix x xa)
  with FindStart_bounds [of lineix lines] FindEnd_bounds [of x lines] show ?case by simp
qed simp

declare remove_comments.simps [simp del]

definition RemoveMultiLineComments :: "string \<Rightarrow> string list \<Rightarrow> string list \<times> report list" where
  "RemoveMultiLineComments filename lines = remove_comments filename lines 0"

section \<open>Comments and strings within a line\<close>

definition RE_PATTERN_C_COMMENTS :: string where
  "RE_PATTERN_C_COMMENTS = ''/`*(?:[^*]|`*(?!/))*`*/''"

definition RE_PATTERN_CLEANSE_LINE_C_COMMENTS :: string where
  "RE_PATTERN_CLEANSE_LINE_C_COMMENTS =
     ''(`s*'' @ RE_PATTERN_C_COMMENTS @ ''`s*$|'' @
     RE_PATTERN_C_COMMENTS @ ''`s+|'' @
     ''`s+'' @ RE_PATTERN_C_COMMENTS @ ''(?=`W)|'' @
     RE_PATTERN_C_COMMENTS @ '')''"

definition CleanseComments :: "string \<Rightarrow> string" where
  "CleanseComments line =
     (let line1 =
        (case find_sub ''//'' line of
           None \<Rightarrow> line
         | Some commentpos \<Rightarrow>
             (if \<not> IsCppString (take commentpos line) then rstrip (take commentpos line) else line))
      in ReplaceAll RE_PATTERN_CLEANSE_LINE_C_COMMENTS [] line1)"

definition RE_PATTERN_INCLUDE :: string where
  "RE_PATTERN_INCLUDE = ''^`s*#`s*include`s*([<\"])([^>\"]*)[>\"].*$''"

definition RE_PATTERN_CLEANSE_LINE_ESCAPES :: string where
  "RE_PATTERN_CLEANSE_LINE_ESCAPES = ''``([abfnrtv?\"``']|`d+|x[0-9a-fA-F]+)''"

function collapse_loop :: "string \<Rightarrow> string \<Rightarrow> string res" where
  "collapse_loop collapsed elided =
     (case Match QUOTE elided of
        None \<Rightarrow> Inr (collapsed @ elided)
      | Some m \<Rightarrow>
          (let head = grp m 1; quote = grp m 2; tail = grp m 3
           in if quote = [dq] then
                (case find_sub [dq] tail of
                   Some second_quote \<Rightarrow>
                     collapse_loop (collapsed @ head @ [dq, dq]) (drop (second_quote + 1) tail)
                 | None \<Rightarrow> Inr (collapsed @ elided))
              else if Search DIGITS_END head \<noteq> None then
                (case Match DIGIT_TAIL (sq # tail) of
                   None \<Rightarrow> Inl AttributeError
                 | Some match_literal \<Rightarrow>
                     collapse_loop (collapsed @ head @ replace_sub [sq] [] (grp match_literal 1))
                       (grp match_literal 2))
              else
                (case find_sub [sq] tail of
                   Some second_quote \<Rightarrow>
                     collapse_loop (collapsed @ head @ [sq, sq]) (drop (second_quote + 1) tail)
                 | None \<Rightarrow> Inr (collapsed @ elided))))"
  by pat_completeness auto

lemma QUOTE_length:
  assumes "Match QUOTE s = Some m"
  shows "length (grp m 1) + length (grp m 3) < length s"
  using QUOTE_inv [OF assms] by auto

lemma DIGIT_TAIL_length:
  assumes "Match DIGIT_TAIL s = Some m"
  shows "length (grp m 2) \<le> length s"
proof -
  from DIGIT_TAIL_inv [OF assms] obtain u where "s = grp m 1 @ grp m 2 @ u" by blast
  then have "length s = length (grp m 1) + length (grp m 2) + length u" by (metis length_append add.assoc)
  then show ?thesis by simp
qed

termination collapse_loop
proof (relation "measure (\<lambda>(collapsed, elided). length elided)", goal_cases)
  case (3 collapsed elided m head quote tail ml)
  from DIGITS_END_nonempty 3 have "length (grp m 1) > 0" by blast
  moreover from DIGIT_TAIL_length [OF 3(7)] 3 have "length (grp ml 2) \<le> Suc (length (grp m 3))" by simp
  ultimately have "length (grp ml 2) < length elided" using QUOTE_length [OF 3(1)] by linarith
  then show ?case by simp
qed (auto dest: QUOTE_length)

declare collapse_loop.simps [simp del]

definition CollapseStrings :: "string \<Rightarrow> string res" where
  "CollapseStrings elided =
     (if Match RE_PATTERN_INCLUDE elided \<noteq> None then Inr elided
      else collapse_loop [] (ReplaceAll RE_PATTERN_CLEANSE_LINE_ESCAPES [] elided))"

section \<open>The four versions of a file's lines\<close>

record cleansed_lines =
  cl_elided :: "string list"
  cl_lines :: "string list"
  cl_raw_lines :: "string list"
  cl_num_lines :: nat
  cl_lines_without_raw_strings :: "string list"

fun map_res :: "('a \<Rightarrow> 'b res) \<Rightarrow> 'a list \<Rightarrow> 'b list res" where
  "map_res f [] = Inr []"
| "map_res f (x # xs) = res_bind (f x) (\<lambda>y. res_bind (map_res f xs) (\<lambda>ys. Inr (y # ys)))"

definition elide_line :: "string \<Rightarrow> string res" where
  "elide_line line = res_bind (CollapseStrings line) (\<lambda>e. Inr (CleanseComments e))"

definition CleansedLines :: "string list \<Rightarrow> cleansed_lines res" where
  "CleansedLines ls =
     res_bind (CleanseRawStrings ls) (\<lambda>without_raw.
       res_bind (map_res elide_line without_raw) (\<lambda>els.
         Inr \<lparr>cl_elided = els, cl_lines = map CleanseComments without_raw, cl_raw_lines = ls,
              cl_num_lines = length ls, cl_lines_without_raw_strings = without_raw\<rparr>))"

definition NumLines :: "cleansed_lines \<Rightarrow> nat" where
  "NumLines cl = cl_num_lines cl"

section \<open>The contract of a cleansing operation\<close>

locale line_cleanser =
  fixes f :: "string \<Rightarrow> string res"
  assumes cleanses: "\<exists>l'. f l = Inr l' \<and> subseq l' l"
begin

lemma map_cleanses: "\<exists>ls'. map_res f ls = Inr ls' \<and> list_all2 subseq ls' ls"
proof (induction ls)
  case (Cons l ls)
  from cleanses [of l] Cons.IH show ?case by auto
qed simp

lemma cleansed_bounds:
  assumes "f l = Inr l'"
  shows "length l' \<le> length l" "set l' \<subseteq> set l" "count_list l' c \<le> count_list l c"
proof -
  from cleanses [of l] assms have sub: "subseq l' l" by auto
  then show "length l' \<le> length l" by (rule list_emb_length)
  from sub show "set l' \<subseteq> set l" by (induction rule: list_emb.induct) auto
  from sub show "count_list l' c \<le> count_list l c"
    by (induction rule: list_emb.induct) (auto intro: le_SucI)
qed

lemma cleanses_empty: "f [] = Inr []"
  using cleanses [of "[]"] by auto

end

locale two_cleansers = first: line_cleanser f + second: line_cleanser g
  for f g :: "string \<Rightarrow> string res"

sublocale two_cleansers \<subseteq> both: line_cleanser "\<lambda>l. res_bind (f l) g"
proof
  fix l
  from first.cleanses [of l] obtain l1 where "f l = Inr l1" "subseq l1 l" by blast
  moreover from second.cleanses [of l1] obtain l2 where "g l1 = Inr l2" "subseq l2 l1" by blast
  ultimately show "\<exists>l'. res_bind (f l) g = Inr l' \<and> subseq l' l"
    by (auto intro: subseq_order.order_trans)
qed

lemma CleanseComments_subseq: "subseq (CleanseComments line) line"
proof -
  have "subseq (rstrip (take n line)) line" for n
    by (rule subseq_order.order_trans [OF subseq_rstrip subseq_take_drop(1)])
  then show ?thesis
    unfolding CleanseComments_def Let_def
    by (auto intro: ReplaceAll_delete_subseq subseq_order.order_trans split: option.splits)
qed

lemma quote_pair_subseq:
  assumes "find_sub [q] tail = Some k"
  shows "subseq ([q, q] @ drop (k + 1) tail) (q # tail)"
  using assms by (rule find_sub_single_SomeE) (auto intro: list_emb_append2)

lemma collapse_loop_ok:
  "\<exists>r. collapse_loop collapsed elided = Inr r \<and> subseq r (collapsed @ elided)"
proof (induction collapsed elided rule: collapse_loop.induct)
  case (1 collapsed elided)
  show ?case
  proof (cases "Match QUOTE elided")
    case None
    then show ?thesis by (simp add: collapse_loop.simps)
  next
    case (Some m)
    from QUOTE_inv [OF Some] obtain q u where m: "elided = grp m 1 @ q # grp m 3 @ u" "grp m 2 = [q]"
      "nl \<notin> set (grp m 3)" "q \<in> {sq, dq}" by blast
    have shrink: "subseq ((collapsed @ grp m 1 @ x) @ e) (collapsed @ elided)"
      if "subseq (x @ e) (q # grp m 3)" for x e
    proof -
      have "subseq (q # grp m 3) ((q # grp m 3) @ u)" by (rule prefix_imp_subseq) simp
      with that have "subseq (x @ e) ((q # grp m 3) @ u)" by (rule subseq_order.order_trans)
      then show ?thesis by (subst m(1)) (simp add: subseq_append')
    qed
    have step: "\<exists>r. collapse_loop (collapsed @ grp m 1 @ x) e = Inr r \<and> subseq r (collapsed @ elided)"
      if "\<exists>r. collapse_loop (collapsed @ grp m 1 @ x) e = Inr r \<and> subseq r ((collapsed @ grp m 1 @ x) @ e)"
        and "subseq (x @ e) (q # grp m 3)" for x e
      using that(1) shrink [OF that(2)] by (blast intro: subseq_order.order_trans)
    note unfold = collapse_loop.simps [of collapsed elided] Some m(2)
    show ?thesis
    proof (cases "q = dq")
      case True
      show ?thesis
      proof (cases "find_sub [dq] (grp m 3)")
        case None
        with True show ?thesis by (simp add: unfold)
      next
        case found: (Some k)
        from True m(2) have "grp m 2 = [dq]" by simp
        from step [OF 1(1)[OF Some refl refl refl this found]] quote_pair_subseq [of q "grp m 3" k] True found
        show ?thesis by (simp add: unfold)
      qed
    next
      case quote: False
      then have ne: "grp m 2 \<noteq> [dq]" using m(2) by simp
      show ?thesis
      proof (cases "Search DIGITS_END (grp m 1)")
        case digits: (Some d)
        then have some: "Search DIGITS_END (grp m 1) \<noteq> None" by simp
        have "nl \<notin> set (sq # grp m 3)" using m(3) by (simp add: nl_def sq_def)
        with DIGIT_TAIL_total obtain ml where ml: "Match DIGIT_TAIL (sq # grp m 3) = Some ml" by fastforce
        from DIGIT_TAIL_inv [OF ml] obtain u' where "sq # grp m 3 = grp ml 1 @ grp ml 2 @ u'" by blast
        then have whole: "sq # grp m 3 = (grp ml 1 @ grp ml 2) @ u'" by simp
        have "subseq (replace_sub [sq] [] (grp ml 1) @ grp ml 2) (grp ml 1 @ grp ml 2)"
          by (rule list_emb_append_mono [OF subseq_replace_delete]) simp
        then have "subseq (replace_sub [sq] [] (grp ml 1) @ grp ml 2) (sq # grp m 3)"
          unfolding whole by (rule subseq_order.order_trans) (rule prefix_imp_subseq, simp)
        with m quote have "subseq (replace_sub [sq] [] (grp ml 1) @ grp ml 2) (q # grp m 3)" by auto
        from step [OF 1(2)[OF Some refl refl refl ne some ml] this] digits ml quote
        show ?thesis by (simp add: unfold)
      next
        case nodigits: None
        then have nd: "\<not> Search DIGITS_END (grp m 1) \<noteq> None" by simp
        show ?thesis
        proof (cases "find_sub [sq] (grp m 3)")
          case None
          with quote nodigits show ?thesis by (simp add: unfold)
        next
          case found: (Some k)
          with m quote have "q = sq" by simp
          from step [OF 1(3)[OF Some refl refl refl ne nd found]] quote_pair_subseq [of q "grp m 3" k] \<open>q = sq\<close> found nodigits quote
          show ?thesis by (simp add: unfold)
        qed
      qed
    qed
  qed
qed

lemma CollapseStrings_ok: "\<exists>r. CollapseStrings l = Inr r \<and> subseq r l"
proof (cases "Match RE_PATTERN_INCLUDE l")
  case None
  from collapse_loop_ok [of "[]" "ReplaceAll RE_PATTERN_CLEANSE_LINE_ESCAPES [] l"]
    ReplaceAll_delete_subseq [of RE_PATTERN_CLEANSE_LINE_ESCAPES l] None
  show ?thesis by (auto simp: CollapseStrings_def intro: subseq_order.order_trans)
qed (simp add: CollapseStrings_def)

interpretation strings: line_cleanser CollapseStrings
  by unfold_locales (rule CollapseStrings_ok)

interpretation comments: line_cleanser "\<lambda>l. Inr (CleanseComments l)"
  by unfold_locales (simp add: CleanseComments_subseq)

interpretation elision: two_cleansers CollapseStrings "\<lambda>l. Inr (CleanseComments l)"
  by unfold_locales

section \<open>Raw strings: the loop returns\<close>

lemma raw_loop_delimiter: "raw_loop l = (l', Some d) \<Longrightarrow> CHR '')'' \<in> set d"
proof (induction l rule: raw_loop.induct)
  case (1 l)
  from 1(2) show ?case
    by (subst (asm) raw_loop.simps) (auto simp: Let_def split: option.splits if_splits intro: 1(1))
qed

lemma cleanse_raw_ok:
  "(case delimiter of None \<Rightarrow> True | Some d \<Rightarrow> CHR '')'' \<in> set d) \<Longrightarrow>
     \<exists>ls. cleanse_raw delimiter raws = Inr ls \<and> length ls = length raws"
proof (induction raws arbitrary: delimiter)
  case (Cons l raws)
  have go: "\<exists>ls. res_bind (Inr (raw_loop x)) (\<lambda>(line', delimiter').
      res_bind (cleanse_raw delimiter' raws) (\<lambda>ls. Inr (line' # ls))) = Inr ls \<and> length ls = Suc (length raws)" for x
  proof -
    obtain x' d' where x: "raw_loop x = (x', d')" by fastforce
    then have "case d' of None \<Rightarrow> True | Some d \<Rightarrow> CHR '')'' \<in> set d"
      by (auto dest: raw_loop_delimiter split: option.splits)
    from Cons.IH [OF this] x show ?thesis by auto
  qed
  show ?case
  proof (cases delimiter)
    case None
    with go [of l] show ?thesis by simp
  next
    case (Some d)
    show ?thesis
    proof (cases "find_sub d l")
      case None
      with Some Cons.IH [of "Some d"] Cons.prems show ?thesis by auto
    next
      case found: (Some k)
      then have "CHR '')'' \<in> set l" using Some Cons.prems by (auto elim!: find_sub_SomeE)
      then have "Match LEADING_SPACE l \<noteq> None"
        by (rule LEADING_SPACE_total) (simp add: is_space_def ord_of_def)
      then obtain m where "Match LEADING_SPACE l = Some m" by blast
      with Some found go show ?thesis by simp
    qed
  qed
qed simp

lemma raw_loop_id: "Match RAW_STRING l = None \<Longrightarrow> raw_loop l = (l, None)"
  by (simp add: raw_loop.simps)

lemma cleanse_raw_id:
  "list_all (\<lambda>l. Match RAW_STRING l = None) raws \<Longrightarrow> cleanse_raw None raws = Inr raws"
  by (induction raws) (auto simp: raw_loop_id)

lemma CleansedLines_ok:
  "\<exists>cl. CleansedLines ls = Inr cl \<and> cl_raw_lines cl = ls \<and> cl_num_lines cl = length ls \<and>
     length (cl_lines_without_raw_strings cl) = length ls \<and>
     list_all2 subseq (cl_lines cl) (cl_lines_without_raw_strings cl) \<and>
     list_all2 subseq (cl_elided cl) (cl_lines_without_raw_strings cl)"
proof -
  from cleanse_raw_ok [of None ls] obtain ws where ws: "CleanseRawStrings ls = Inr ws" "length ws = length ls"
    by (auto simp: CleanseRawStrings_def)
  have "elide_line = (\<lambda>l. res_bind (CollapseStrings l) (\<lambda>l. Inr (CleanseComments l)))"
    by (simp add: elide_line_def fun_eq_iff)
  with elision.both.map_cleanses [of ws] obtain es where "map_res elide_line ws = Inr es" "list_all2 subseq es ws"
    by auto
  with ws show ?thesis
    by (auto simp: CleansedLines_def list_all2_map1 list_all2_same CleanseComments_subseq)
qed

section \<open>Comments that span lines\<close>

definition opens_comment :: "string \<Rightarrow> bool" where
  "opens_comment l \<longleftrightarrow> startswith (strip l) ''/*'' \<and> find_sub ''*/'' (drop 2 (strip l)) = None"

definition closes_comment :: "string \<Rightarrow> bool" where
  "closes_comment l \<longleftrightarrow> endswith (strip l) ''*/''"

lemma FindStart_spec:
  "lineix \<le> length lines \<Longrightarrow> FindNextMultiLineCommentStart lines lineix = n \<Longrightarrow>
     (n < length lines \<longrightarrow> opens_comment (lines ! n)) \<and> (\<forall>j. lineix \<le> j \<and> j < n \<longrightarrow> \<not> opens_comment (lines ! j))"
proof (induction lines lineix rule: FindNextMultiLineCommentStart.induct)
  case (1 lines lineix)
  show ?case
  proof (cases "lineix < length lines \<and> \<not> opens_comment (lines ! lineix)")
    case True
    with 1(3) have "FindNextMultiLineCommentStart lines (Suc lineix) = n"
      by (subst (asm) FindNextMultiLineCommentStart.simps) (auto simp: opens_comment_def)
    with 1(1) True show ?thesis by (metis Suc_leI le_neq_implies_less opens_comment_def)
  next
    case False
    with 1(2,3) show ?thesis
      by (subst (asm) FindNextMultiLineCommentStart.simps) (auto simp: opens_comment_def split: if_splits)
  qed
qed

lemma FindEnd_spec:
  "lineix \<le> length lines \<Longrightarrow> FindNextMultiLineCommentEnd lines lineix = n \<Longrightarrow>
     (n < length lines \<longrightarrow> closes_comment (lines ! n)) \<and> (\<forall>j. lineix \<le> j \<and> j < n \<longrightarrow> \<not> closes_comment (lines ! j))"
proof (induction lines lineix rule: FindNextMultiLineCommentEnd.induct)
  case (1 lines lineix)
  show ?case
  proof (cases "lineix < length lines \<and> \<not> closes_comment (lines ! lineix)")
    case True
    with 1(3) have "FindNextMultiLineCommentEnd lines (Suc lineix) = n"
      by (subst (asm) FindNextMultiLineCommentEnd.simps) (auto simp: closes_comment_def)
    with 1(1) True show ?thesis by (metis Suc_leI le_neq_implies_less closes_comment_def)
  next
    case False
    with 1(2,3) show ?thesis
      by (subst (asm) FindNextMultiLineCommentEnd.simps) (auto simp: closes_comment_def split: if_splits)
  qed
qed

lemma nth_RemoveRange:
  "e \<le> length lines \<Longrightarrow> RemoveMultiLineCommentsFromRange lines b e ! j =
     (if b \<le> j \<and> j < e then ''/**/'' else lines ! j)"
  unfolding RemoveMultiLineCommentsFromRange_def
proof (induction e)
  case (Suc e)
  have len: "length (fold (\<lambda>i ls. ls[i := ''/**/'']) [b..<e] lines) = length lines"
    using length_RemoveRange [of lines b e] by (simp add: RemoveMultiLineCommentsFromRange_def)
  with Suc show ?case by (auto simp: nth_list_update less_Suc_eq)
qed simp

lemma blank_comment_not_opens: "\<not> opens_comment ''/**/''"
  by code_simp

lemma remove_comments_silent:
  "lineix \<le> length lines \<Longrightarrow> remove_comments f lines lineix = (lines', []) \<Longrightarrow>
     (\<forall>j < lineix. \<not> opens_comment (lines ! j)) \<Longrightarrow> j < length lines' \<Longrightarrow> \<not> opens_comment (lines' ! j)"
proof (induction f lines lineix arbitrary: lines' rule: remove_comments.induct)
  case (1 f lines lineix)
  define b where "b = FindNextMultiLineCommentStart lines lineix"
  define e where "e = FindNextMultiLineCommentEnd lines b"
  have before: "\<not> opens_comment (lines ! i)" if "i < b" for i
    using FindStart_spec [OF 1(2) b_def [symmetric]] 1(4) that by (metis not_le)
  show ?case
  proof (cases "lineix < length lines \<and> b < length lines")
    case True
    then have e: "e < length lines" and rec: "remove_comments f (RemoveMultiLineCommentsFromRange lines b (e + 1)) (e + 1) = (lines', [])"
      using 1(3) by (subst (asm) remove_comments.simps, simp add: Let_def b_def [symmetric] e_def [symmetric] split: if_splits)+
    have "\<not> opens_comment (RemoveMultiLineCommentsFromRange lines b (e + 1) ! i)" if "i < e + 1" for i
      using e that before by (subst nth_RemoveRange) (auto simp: blank_comment_not_opens)
    with 1(1)[OF _ b_def _ e_def _ _ rec] True e 1(5) show ?thesis by auto
  next
    case False
    with 1(3) have "lines' = lines"
      by (subst (asm) remove_comments.simps) (auto simp: Let_def b_def [symmetric] e_def [symmetric] split: if_splits)
    moreover have "length lines \<le> b"
      using False FindStart_bounds [OF 1(2)] 1(2) by (auto simp: b_def)
    ultimately show ?thesis using before 1(5) by simp
  qed
qed

lemma remove_comments_none:
  assumes "\<forall>j < length lines. \<not> opens_comment (lines ! j)"
  shows "remove_comments f lines 0 = (lines, [])"
proof -
  have "FindNextMultiLineCommentStart lines 0 = length lines"
    using FindStart_spec [of 0 lines, OF _ refl] FindStart_bounds [of 0 lines] assms
    by (metis le0 le_neq_implies_less)
  then show ?thesis by (subst remove_comments.simps) simp
qed

text \<open>
  A reference for the removal, by recursion on the lines and without indices into them: a
  line that opens no comment is kept; the lines of a comment, from its first line to the
  first line that ends it, become empty comments; a comment that no line ends is kept with
  all that follows it, and the index of its first line is returned.
\<close>

fun comment_end :: "string list \<Rightarrow> nat option" where
  "comment_end [] = None"
| "comment_end (l # ls) = (if closes_comment l then Some 0 else map_option Suc (comment_end ls))"

function strip_comments :: "nat \<Rightarrow> string list \<Rightarrow> string list \<times> nat option" where
  "strip_comments n [] = ([], None)"
| "strip_comments n (l # ls) =
     (if opens_comment l
      then (case comment_end (l # ls) of
              None \<Rightarrow> (l # ls, Some n)
            | Some k \<Rightarrow> apfst (append (replicate (Suc k) ''/**/'')) (strip_comments (n + Suc k) (drop k ls)))
      else apfst (Cons l) (strip_comments (Suc n) ls))"
  by pat_completeness auto
termination
  by (relation "measure (length \<circ> snd)") auto

lemma comment_end_FindEnd:
  "FindNextMultiLineCommentEnd (pre @ ls) (length pre) =
     length pre + (case comment_end ls of None \<Rightarrow> length ls | Some k \<Rightarrow> k)"
proof (induction ls arbitrary: pre)
  case (Cons l ls)
  from Cons.IH [of "pre @ [l]"] show ?case
    by (subst FindNextMultiLineCommentEnd.simps) (auto simp: closes_comment_def split: option.splits)
qed (simp add: FindNextMultiLineCommentEnd.simps)

lemma comment_end_less: "comment_end ls = Some k \<Longrightarrow> k < length ls"
  by (induction ls arbitrary: k) (auto split: if_splits)

lemma RemoveRange_replicate:
  assumes "k \<le> length ls"
  shows "RemoveMultiLineCommentsFromRange (pre @ ls) (length pre) (length pre + k) =
    pre @ replicate k ''/**/'' @ drop k ls"
  unfolding RemoveMultiLineCommentsFromRange_def using assms
proof (induction k)
  case (Suc k)
  have "drop k ls = ls ! k # drop (Suc k) ls" using Suc.prems by (simp add: Cons_nth_drop_Suc)
  with Suc show ?case by (simp add: list_update_append replicate_app_Cons_same)
qed simp

lemma remove_comments_skip:
  assumes "n < length lines" "\<not> opens_comment (lines ! n)"
  shows "remove_comments f lines n = remove_comments f lines (Suc n)"
proof -
  have find: "FindNextMultiLineCommentStart lines n = FindNextMultiLineCommentStart lines (Suc n)"
    using assms by (subst FindNextMultiLineCommentStart.simps) (auto simp: opens_comment_def)
  show ?thesis
  proof (cases "Suc n < length lines")
    case True
    with assms find show ?thesis by (subst (1 2) remove_comments.simps) simp
  next
    case False
    then have "FindNextMultiLineCommentStart lines (Suc n) = length lines"
      by (subst FindNextMultiLineCommentStart.simps) simp
    with False find assms(1) show ?thesis by (subst (1 2) remove_comments.simps) simp
  qed
qed

lemma strip_comments_length: "length (fst (strip_comments n ls)) = length ls"
proof (induction n ls rule: strip_comments.induct)
  case (2 n l ls)
  then show ?case using comment_end_less [of "l # ls"]
    by (auto simp del: comment_end.simps split: option.split)
qed simp

definition unclosed_report :: "string \<Rightarrow> nat option \<Rightarrow> report list" where
  "unclosed_report f u = (case u of None \<Rightarrow> []
     | Some b \<Rightarrow> [Report f (int b + 1) ''readability/multiline_comment'' 5
                   ''Could not find end of multi-line comment''])"

lemma remove_comments_strip:
  "remove_comments f (pre @ ls) (length pre) =
     (pre @ fst (strip_comments (length pre) ls), unclosed_report f (snd (strip_comments (length pre) ls)))"
proof (induction "length pre" ls arbitrary: pre rule: strip_comments.induct)
  case 1
  show ?case by (subst remove_comments.simps) (simp add: unclosed_report_def)
next
  case (2 l ls)
  show ?case
  proof (cases "opens_comment l")
    case False
    with remove_comments_skip [of "length pre" "pre @ l # ls" f] 2(2)[OF False, of "pre @ [l]"]
    show ?thesis by simp
  next
    case True
    then have start: "FindNextMultiLineCommentStart (pre @ l # ls) (length pre) = length pre"
      by (subst FindNextMultiLineCommentStart.simps) (auto simp: opens_comment_def)
    show ?thesis
    proof (cases "comment_end (l # ls)")
      case None
      with True start comment_end_FindEnd [of pre "l # ls"] show ?thesis
        by (subst remove_comments.simps) (simp add: unclosed_report_def)
    next
      case (Some k)
      let ?pre = "pre @ replicate (Suc k) ''/**/''"
      from Some comment_end_less have k: "k < length (l # ls)" by blast
      have "remove_comments f (pre @ l # ls) (length pre) =
          remove_comments f (pre @ replicate (Suc k) ''/**/'' @ drop (Suc k) (l # ls)) (length pre + k + 1)"
        using Some start comment_end_FindEnd [of pre "l # ls"] RemoveRange_replicate [of "Suc k" "l # ls" pre] k
        by (subst remove_comments.simps) (simp del: comment_end.simps)
      with 2(1)[OF True Some, of ?pre] True Some show ?thesis by (simp del: comment_end.simps)
    qed
  qed
qed

section \<open>Comments within a line\<close>

definition c_comments_re :: re where
  "c_comments_re =
    (let body = Star True (Alt (Cls True [CChr (CHR ''*'')]) (Seq (Chr (CHR ''*'')) (Look False (Chr (CHR ''/'')))));
         sp = Cls False [CSpace]
     in Grp 1 (Alt (Seq (Star True sp) (lits ''/*'' (Seq body (lits ''*/'' (Seq (Star True sp) Eol)))))
         (Alt (lits ''/*'' (Seq body (lits ''*/'' (Seq sp (Star True sp)))))
         (Alt (Seq (Seq sp (Star True sp)) (lits ''/*'' (Seq body (lits ''*/'' (Look True (Cls False [CNWord]))))))
            (lits ''/*'' (Seq body (lits ''*'' (Chr (CHR ''/'')))))))))"

lemma C_COMMENTS_ast: "compile (bs RE_PATTERN_CLEANSE_LINE_C_COMMENTS) = Some c_comments_re"
  by code_simp

lemma c_comments_opener: "needs ''/*'' c_comments_re"
  unfolding c_comments_re_def Let_def
  by (intro needs_Grp needs_Alt needs_lits needs_Seq2)

lemma C_COMMENTS_id:
  assumes "\<not> contains s ''/*''"
  shows "ReplaceAll RE_PATTERN_CLEANSE_LINE_C_COMMENTS rep s = s"
  unfolding ReplaceAll_def C_COMMENTS_ast option.case
proof (rule re_sub_id)
  fix u v y
  assume s: "s = u @ v"
  show "y \<notin> set (ms c_comments_re (rev u, v, []))"
  proof
    assume "y \<in> set (ms c_comments_re (rev u, v, []))"
    from this c_comments_opener s have "contains s ''/*''"
      unfolding needs_def by (metis contains_append2)
    with assms show False ..
  qed
qed

lemma CleanseComments_id:
  assumes "\<not> contains l ''//''" "\<not> contains l ''/*''"
  shows "CleanseComments l = l"
proof -
  from assms(1) have "find_sub ''//'' l = None" by (simp add: contains_def)
  then show ?thesis by (simp add: CleanseComments_def C_COMMENTS_id [OF assms(2)])
qed

lemma not_IsCppString:
  assumes "dq \<notin> set l"
  shows "\<not> IsCppString l"
proof -
  have "dq \<notin> set (replace_sub [bsl, bsl] ''XX'' l)"
    using set_replace_sub [of "[bsl, bsl]" "''XX''" l] assms by (auto simp: dq_def)
  then show ?thesis by (simp add: IsCppString_def count_sub_zero [of dq])
qed

lemma CleanseComments_line_comment:
  assumes "dq \<notin> set code" "CHR ''/'' \<notin> set code"
  shows "CleanseComments (code @ ''//'' @ c) = rstrip code"
proof -
  have "find_sub ''//'' (code @ ''//'' @ c) = Some (length code)"
    using assms(2) by (induction code) (auto simp: prefix_def)
  moreover have "\<not> contains (rstrip code) ''/*''"
    using assms(2) set_mono_prefix [OF rstrip_prefix [of code]] by (auto simp: contains_iff)
  ultimately show ?thesis
    using not_IsCppString [OF assms(1)] by (simp add: CleanseComments_def C_COMMENTS_id)
qed

section \<open>Properties\<close>

text \<open>
  C14: Cleansing the lines of a file always succeeds: none of the match objects that the
  code dereferences without a test is missing. Every version has the file's number of
  lines, and the two versions without comments are, line by line, subsequences of the
  version without raw strings.
\<close>
theorem cleansed_lines_total:
  "\<exists>cl. CleansedLines ls = Inr cl \<and> cl_raw_lines cl = ls \<and> NumLines cl = length ls \<and>
     length (cl_lines_without_raw_strings cl) = length ls \<and>
     list_all2 subseq (cl_lines cl) (cl_lines_without_raw_strings cl) \<and>
     list_all2 subseq (cl_elided cl) (cl_lines_without_raw_strings cl)"
  using CleansedLines_ok [of ls] by (simp add: NumLines_def)

text \<open>
  C32: The removal of the comments that span lines agrees with the reference, which reads the
  lines once: from a line that opens a comment to the first line that ends it (which may be
  the same line) all lines become empty comments, the other lines are kept, and a comment
  that no line ends is kept with the lines after it and is the only report. The report
  carries the index of the opening line plus one; in a file, where a marker line is put
  before the first, that is the number of the line after the opening one.
\<close>
theorem multi_line_comments_stripped:
  "RemoveMultiLineComments f ls =
     (fst (strip_comments 0 ls),
      case snd (strip_comments 0 ls) of
        None \<Rightarrow> []
      | Some b \<Rightarrow> [Report f (int b + 1) ''readability/multiline_comment'' 5
                    ''Could not find end of multi-line comment''])"
  using remove_comments_strip [of f "[]" ls] by (simp add: RemoveMultiLineComments_def unclosed_report_def)



text \<open>
  A line comment after code without slashes and double quotes is removed with the
  white space before it.
\<close>
theorem line_comment_removed:
  assumes "dq \<notin> set l" "CHR ''/'' \<notin> set l"
  shows "CleanseComments (l @ ''//'' @ c) = rstrip l"
  by (rule CleanseComments_line_comment [OF assms])

theorem line_comment_removed_witness: "CleanseComments ''int a;  // first /* x'' = ''int a;''"
proof -
  have "CleanseComments (''int a;  '' @ ''//'' @ '' first /* x'') = rstrip ''int a;  ''"
    by (rule line_comment_removed) (simp_all add: dq_def)
  moreover have "rstrip ''int a;  '' = ''int a;''" by code_simp
  ultimately show ?thesis by simp
qed

text \<open>
  A line that consists of the three characters slash, star, slash is taken to open and to
  close a comment, and the lines of the comment are kept.
\<close>

lemma slash_star_slash:
  "RemoveMultiLineComments ''a.cc'' [''/*/'', '' text'', '' */''] = ([''/**/'', '' text'', '' */''], [])"
  by code_simp

end
