(* ===== verification/Expressions.thy ===== *)
theory Expressions
  imports Cleanse
begin

text \<open>
  Matching of brackets over the elided lines of a file (\<open>scripts/cpplint.py\<close>:
  \<open>FindEndOfExpressionInLine\<close>, \<open>CloseExpression\<close> and their backward twins).
  A stack is a list whose head is its top. The body of a scanning loop is a step
  function: it continues with a new stack and a number of characters to advance, or
  returns. Positions are natural numbers, and an index outside a line or a file raises.

  The lemmas show that what is found is in range and closes the bracket it started from,
  that balanced text over any number of lines is closed where it should be, and that
  scanning back from there returns to the start.
\<close>

section \<open>Forward\<close>

datatype scan = Go "char list" nat | Stop int

definition OPERATOR :: string where "OPERATOR = ''`boperator`s*$''"

definition closes :: "char \<Rightarrow> char \<Rightarrow> bool" where
  "closes c d \<longleftrightarrow>
     c = CHR ''('' \<and> d = CHR '')'' \<or> c = CHR ''['' \<and> d = CHR '']'' \<or> c = CHR ''{'' \<and> d = CHR ''}''"

definition end_step :: "string \<Rightarrow> nat \<Rightarrow> char list \<Rightarrow> scan" where
  "end_step line i stack =
     (let char = line ! i
      in if char \<in> set ''([{'' then Go (char # stack) 1
         else if char = CHR ''<'' then
           (if i > 0 \<and> line ! (i - 1) = CHR ''<'' then
              (if stack \<noteq> [] \<and> hd stack = CHR ''<''
               then (if tl stack = [] then Stop (-1) else Go (tl stack) 1)
               else Go stack 1)
            else if i > 0 \<and> Search OPERATOR (take i line) \<noteq> None then Go stack 1
            else Go (CHR ''<'' # stack) 1)
         else if char \<in> set '')]}'' then
           (let stack = dropWhile ((=) (CHR ''<'')) stack
            in if stack = [] then Stop (-1)
               else if closes (hd stack) char
               then (if tl stack = [] then Stop (int i + 1) else Go (tl stack) 1)
               else Stop (-1))
         else if char = CHR ''>'' then
           (if i > 0 \<and> (line ! (i - 1) = CHR ''-'' \<or> Search OPERATOR (take (i - 1) line) \<noteq> None)
            then Go stack 1
            else if stack \<noteq> [] \<and> hd stack = CHR ''<''
            then (if tl stack = [] then Stop (int i + 1) else Go (tl stack) 1)
            else Go stack 1)
         else if char = CHR '';'' then
           (let stack = dropWhile ((=) (CHR ''<'')) stack
            in if stack = [] then Stop (-1) else Go stack 1)
         else Go stack 1)"

function FindEndOfExpressionInLine :: "string \<Rightarrow> nat \<Rightarrow> char list \<Rightarrow> int \<times> char list option" where
  "FindEndOfExpressionInLine line startpos stack =
     (if startpos < length line
      then (case end_step line startpos stack of
              Stop p \<Rightarrow> (p, None)
            | Go stack' _ \<Rightarrow> FindEndOfExpressionInLine line (Suc startpos) stack')
      else (-1, Some stack))"
  by pat_completeness auto
termination
  by (relation "measure (\<lambda>(line, i, _). length line - i)") auto

declare FindEndOfExpressionInLine.simps [simp del]

text \<open>
  The lines after the first: \<open>k\<close> lines are left, the current one is \<open>line\<close>. The result is
  the line, the line number and the column, where column -1 stands for no close.
\<close>

fun close_rest :: "string list \<Rightarrow> nat \<Rightarrow> string \<Rightarrow> nat \<Rightarrow> char list option \<Rightarrow> string \<times> nat \<times> int" where
  "close_rest [] num_lines line linenum stack = (line, num_lines, -1)"
| "close_rest (next # later) num_lines line linenum stack =
     (case stack of
        None \<Rightarrow> (line, num_lines, -1)
      | Some [] \<Rightarrow> (line, num_lines, -1)
      | Some st \<Rightarrow>
          (let (end_pos, stack') = FindEndOfExpressionInLine next 0 st
           in if end_pos > -1 then (next, Suc linenum, end_pos)
              else close_rest later num_lines next (Suc linenum) stack'))"

definition CloseExpression :: "cleansed_lines \<Rightarrow> nat \<Rightarrow> nat \<Rightarrow> (string \<times> nat \<times> int) res" where
  "CloseExpression clean_lines linenum pos =
     res_bind (py_nth (cl_elided clean_lines) (int linenum)) (\<lambda>line.
       res_bind (py_nth line (int pos)) (\<lambda>c.
         if c \<notin> set ''({[<'' \<or> Match ''<[<=]'' (drop pos line) \<noteq> None
         then Inr (line, NumLines clean_lines, -1)
         else (let (end_pos, stack) = FindEndOfExpressionInLine line pos []
               in if end_pos > -1 then Inr (line, linenum, end_pos)
                  else Inr (close_rest (take (NumLines clean_lines - 1 - linenum) (drop (Suc linenum) (cl_elided clean_lines)))
                              (NumLines clean_lines) line linenum stack))))"

section \<open>Backward\<close>

definition start_step :: "string \<Rightarrow> nat \<Rightarrow> char list \<Rightarrow> scan" where
  "start_step line i stack =
     (let char = line ! i
      in if char \<in> set '')]}'' then Go (char # stack) 1
         else if char = CHR ''>'' then
           (if i > 0 \<and> (line ! (i - 1) = CHR ''-'' \<or> Match ''`s>=`s'' (drop (i - 1) line) \<noteq> None
                        \<or> Search OPERATOR (take i line) \<noteq> None)
            then Go stack 2
            else Go (CHR ''>'' # stack) 1)
         else if char = CHR ''<'' then
           (if i > 0 \<and> line ! (i - 1) = CHR ''<'' then Go stack 2
            else if stack \<noteq> [] \<and> hd stack = CHR ''>''
            then (if tl stack = [] then Stop (int i) else Go (tl stack) 1)
            else Go stack 1)
         else if char \<in> set ''([{'' then
           (let stack = dropWhile ((=) (CHR ''>'')) stack
            in if stack = [] then Stop (-1)
               else if closes char (hd stack)
               then (if tl stack = [] then Stop (int i) else Go (tl stack) 1)
               else Stop (-1))
         else if char = CHR '';'' then
           (let stack = dropWhile ((=) (CHR ''>'')) stack
            in if stack = [] then Stop (-1) else Go stack 1)
         else Go stack 1)"

text \<open>The argument \<open>n\<close> is the position plus one, the number of characters still to scan.\<close>

function FindStartOfExpressionInLine :: "string \<Rightarrow> nat \<Rightarrow> char list \<Rightarrow> int \<times> char list option" where
  "FindStartOfExpressionInLine line n stack =
     (if n = 0 then (-1, Some stack)
      else (case start_step line (n - 1) stack of
              Stop p \<Rightarrow> (p, None)
            | Go stack' k \<Rightarrow> FindStartOfExpressionInLine line (n - max 1 k) stack'))"
  by pat_completeness auto
termination
  by (relation "measure (\<lambda>(_, n, _). n)") auto

declare FindStartOfExpressionInLine.simps [simp del]

text \<open>The lines before the first one scanned, nearest first.\<close>

fun reverse_rest :: "string list \<Rightarrow> string \<Rightarrow> char list option \<Rightarrow> string \<times> nat \<times> int" where
  "reverse_rest [] line stack = (line, 0, -1)"
| "reverse_rest (prev # earlier) line stack =
     (case stack of
        None \<Rightarrow> (line, 0, -1)
      | Some [] \<Rightarrow> (line, 0, -1)
      | Some st \<Rightarrow>
          (let (start_pos, stack') = FindStartOfExpressionInLine prev (length prev) st
           in if start_pos > -1 then (prev, length earlier, start_pos)
              else reverse_rest earlier prev stack'))"

definition ReverseCloseExpression :: "cleansed_lines \<Rightarrow> nat \<Rightarrow> nat \<Rightarrow> (string \<times> nat \<times> int) res" where
  "ReverseCloseExpression clean_lines linenum pos =
     res_bind (py_nth (cl_elided clean_lines) (int linenum)) (\<lambda>line.
       res_bind (py_nth line (int pos)) (\<lambda>c.
         if c \<notin> set '')}]>'' then Inr (line, 0, -1)
         else (let (start_pos, stack) = FindStartOfExpressionInLine line (Suc pos) []
               in if start_pos > -1 then Inr (line, linenum, start_pos)
                  else Inr (reverse_rest (rev (take linenum (cl_elided clean_lines))) line stack))))"

section \<open>What is found closes the bracket\<close>

definition matches :: "char \<Rightarrow> char \<Rightarrow> bool" where
  "matches c d \<longleftrightarrow> closes c d \<or> c = CHR ''<'' \<and> d = CHR ''>''"

lemma last_dropWhile: "dropWhile P s \<noteq> [] \<Longrightarrow> last (dropWhile P s) = last s"
  by (induction s) auto

lemma end_step_keeps:
  assumes "stack \<noteq> []"
  shows "case end_step line i stack of
      Go stack' k \<Rightarrow> stack' \<noteq> [] \<and> last stack' = last stack \<and> k = 1
    | Stop p \<Rightarrow> p = -1 \<or> p = int i + 1 \<and> matches (last stack) (line ! i)"
proof -
  have single: "last stack = hd s" if "dropWhile P stack = s" "s \<noteq> []" "tl s = []" for P s
    using that last_dropWhile [of P stack] by (cases s) auto
  have top: "last stack = hd stack" if "tl stack = []" using assms that by (cases stack) auto
  have tails: "last (tl s) = last s" if "tl s \<noteq> []" for s :: "char list" using that by (cases s) auto
  let ?c = "line ! i" and ?d = "dropWhile ((=) (CHR ''<'')) stack"
  consider "?c \<in> set ''([{''" | "?c = CHR ''<''" | "?c \<in> set '')]}''" | "?c = CHR ''>''"
    | "?c \<notin> set ''([{''" "?c \<noteq> CHR ''<''" "?c \<notin> set '')]}''" "?c \<noteq> CHR ''>''" by blast
  then show ?thesis
  proof cases
    case 1
    then show ?thesis using assms by (simp add: end_step_def)
  next
    case 2
    then show ?thesis using assms by (simp add: end_step_def Let_def tails)
  next
    case 3
    then have c: "?c \<notin> set ''([{''" "?c \<noteq> CHR ''<''" by auto
    have "closes (last stack) ?c" if "?d \<noteq> []" "tl ?d = []" "closes (hd ?d) ?c"
      using single [OF refl that(1,2)] that(3) by simp
    then show ?thesis
      using 3 c assms by (simp add: end_step_def Let_def last_dropWhile tails matches_def)
  next
    case 4
    then show ?thesis using assms by (auto simp add: end_step_def Let_def tails top matches_def)
  next
    case 5
    then show ?thesis using assms by (simp add: end_step_def Let_def last_dropWhile)
  qed
qed

lemma FindEnd_sound:
  assumes "stack \<noteq> []" "i \<le> length line" "FindEndOfExpressionInLine line i stack = (p, s)"
  shows "p = -1 \<and> (\<forall>st. s = Some st \<longrightarrow> st \<noteq> [] \<and> last st = last stack) \<or>
    int i + 1 \<le> p \<and> p \<le> int (length line) \<and> matches (last stack) (line ! (nat p - 1))"
  using assms
proof (induction line i stack rule: FindEndOfExpressionInLine.induct)
  case (1 line i stack)
  show ?case
  proof (cases "i < length line")
    case True
    note keeps = end_step_keeps [OF 1(2), where line = line and i = i]
    show ?thesis
    proof (cases "end_step line i stack")
      case (Go stack' k)
      with True 1(4) have rec: "FindEndOfExpressionInLine line (Suc i) stack' = (p, s)"
        by (subst (asm) FindEndOfExpressionInLine.simps) simp
      from Go keeps have "stack' \<noteq> []" "last stack' = last stack" by auto
      with 1(1)[OF True Go _ _ rec] True show ?thesis by auto
    next
      case (Stop q)
      with True 1(4) have "q = p" "s = None" by (subst (asm) FindEndOfExpressionInLine.simps, simp)+
      with Stop keeps True show ?thesis by (auto simp: nat_add_distrib)
    qed
  next
    case False
    with 1 show ?thesis by (subst (asm) FindEndOfExpressionInLine.simps) auto
  qed
qed

lemma close_rest_sound:
  assumes "close_rest ls num line n stack = (l, m, p)" "p \<noteq> -1"
    "\<And>st. stack = Some st \<Longrightarrow> st \<noteq> [] \<and> last st = c"
  shows "n < m \<and> m \<le> n + length ls \<and> l = ls ! (m - Suc n) \<and> 1 \<le> p \<and> p \<le> int (length l) \<and> matches c (l ! (nat p - 1))"
  using assms
proof (induction ls num line n stack rule: close_rest.induct)
  case (2 nxt later num line n stack)
  from 2(2,3) obtain st where st: "stack = Some st" "st \<noteq> []"
    by (auto split: option.splits list.splits)
  with 2(4) have last: "last st = c" by blast
  obtain q s where find: "FindEndOfExpressionInLine nxt 0 st = (q, s)" by fastforce
  note sound = FindEnd_sound [OF st(2) _ find]
  from st obtain t ts where tts: "st = t # ts" by (cases st) auto
  show ?case
  proof (cases "q > -1")
    case True
    with 2(2) st tts find have "l = nxt" "m = Suc n" "p = q" by simp_all
    with sound True last show ?thesis by auto
  next
    case False
    with 2(2) st tts find have rec: "close_rest later num nxt (Suc n) s = (l, m, p)" by simp
    have keep: "s = Some st' \<Longrightarrow> st' \<noteq> [] \<and> last st' = c" for st'
      using sound False last by auto
    have IH: "Suc n < m \<and> m \<le> Suc n + length later \<and> l = later ! (m - Suc (Suc n)) \<and> 1 \<le> p \<and>
      p \<le> int (length l) \<and> matches c (l ! (nat p - 1))"
      by (rule 2(1)[OF _ _ _ _ _ rec 2(3) keep]) (use st tts find False in auto)
    then have "l = (nxt # later) ! (m - Suc n)"
      by (metis Suc_diff_Suc nth_Cons_Suc)
    with IH show ?thesis by auto
  qed
qed simp

definition starts_bracket :: "string \<Rightarrow> nat \<Rightarrow> bool" where
  "starts_bracket line pos \<longleftrightarrow>
     line ! pos \<in> set ''({['' \<or>
     line ! pos = CHR ''<'' \<and>
       (pos = 0 \<or> line ! (pos - 1) \<noteq> CHR ''<'' \<and> Search OPERATOR (take pos line) = None)"

lemma FindEnd_first:
  assumes "starts_bracket line pos" "pos < length line"
  shows "FindEndOfExpressionInLine line pos [] = FindEndOfExpressionInLine line (Suc pos) [line ! pos]"
proof -
  have "end_step line pos [] = Go [line ! pos] 1"
  proof (cases "line ! pos = CHR ''<''")
    case True
    then show ?thesis using assms(1) by (auto simp: starts_bracket_def end_step_def)
  next
    case False
    with assms(1) have "line ! pos \<in> set ''([{''" by (auto simp: starts_bracket_def)
    then show ?thesis by (simp only: end_step_def Let_def if_True)
  qed
  with assms(2) show ?thesis by (subst FindEndOfExpressionInLine.simps) simp
qed

lemma CloseExpression_sound:
  assumes "CloseExpression cl n pos = Inr (l, m, p)" "p \<noteq> -1"
    "n < length (cl_elided cl)" "pos < length (cl_elided cl ! n)"
    "starts_bracket (cl_elided cl ! n) pos" "cl_num_lines cl = length (cl_elided cl)"
  shows "n \<le> m \<and> m < length (cl_elided cl) \<and> l = cl_elided cl ! m \<and> 1 \<le> p \<and> p \<le> int (length l) \<and>
    (m = n \<longrightarrow> int pos + 1 < p) \<and> matches (cl_elided cl ! n ! pos) (l ! (nat p - 1))"
proof -
  let ?line = "cl_elided cl ! n" and ?later = "take (cl_num_lines cl - 1 - n) (drop (Suc n) (cl_elided cl))"
  obtain q s where find: "FindEndOfExpressionInLine ?line (Suc pos) [?line ! pos] = (q, s)" by fastforce
  note find' = find [folded FindEnd_first [OF assms(5,4)]]
  from FindEnd_sound [OF _ _ find] assms(4)
  have sound: "q = -1 \<and> (\<forall>st. s = Some st \<longrightarrow> st \<noteq> [] \<and> last st = ?line ! pos) \<or>
    int pos + 2 \<le> q \<and> q \<le> int (length ?line) \<and> matches (?line ! pos) (?line ! (nat q - 1))"
    by auto
  have res: "(if q > -1 then (?line, n, q) else close_rest ?later (cl_num_lines cl) ?line n s) = (l, m, p)"
    using assms(1-4) find' by (auto simp: CloseExpression_def NumLines_def split: if_splits)
  show ?thesis
  proof (cases "q > -1")
    case True
    with res have "l = ?line" "m = n" "p = q" by auto
    with sound True assms(3) show ?thesis by auto
  next
    case False
    with res have "close_rest ?later (cl_num_lines cl) ?line n s = (l, m, p)" by simp
    from close_rest_sound [OF this assms(2), of "?line ! pos"] sound False
    have rest: "n < m" "m \<le> n + length ?later" "l = ?later ! (m - Suc n)" "1 \<le> p" "p \<le> int (length l)"
      "matches (?line ! pos) (l ! (nat p - 1))" by auto
    moreover from rest assms(3,6) have "m < length (cl_elided cl)" by auto
    moreover from rest this assms(6) have "l = cl_elided cl ! m" by (auto simp: nth_append)
    ultimately show ?thesis by auto
  qed
qed

section \<open>Balanced text\<close>

definition brackets :: string where "brackets = ''()[]{}<>''"

inductive balanced :: "(char \<Rightarrow> char \<Rightarrow> bool) \<Rightarrow> string \<Rightarrow> bool" for pair where
  empty: "balanced pair []"
| other: "c \<notin> set brackets \<Longrightarrow> balanced pair w \<Longrightarrow> balanced pair (c # w)"
| nest: "pair c d \<Longrightarrow> balanced pair u \<Longrightarrow> balanced pair v \<Longrightarrow> balanced pair (c # u @ d # v)"

lemma balanced_append: "balanced pair u \<Longrightarrow> balanced pair v \<Longrightarrow> balanced pair (u @ v)"
  by (induction rule: balanced.induct) (auto intro: balanced.intros)

lemma balanced_rev: "balanced pair w \<Longrightarrow> balanced (\<lambda>c d. pair d c) (rev w)"
proof (induction rule: balanced.induct)
  case (other c w)
  then show ?case by (auto intro!: balanced_append balanced.intros)
next
  case (nest c d u v)
  have "balanced (\<lambda>c d. pair d c) (d # rev u @ c # [])"
    using nest by (intro balanced.nest balanced.empty) auto
  with nest show ?case by (auto dest: balanced_append)
qed (simp add: balanced.empty)

text \<open>
  The scan of text without angle brackets as a fold over the stack: no result means that
  the scan has stopped. The two scanners are instances of one contract.
\<close>

fun plain :: "(char \<Rightarrow> bool) \<Rightarrow> (char \<Rightarrow> char \<Rightarrow> bool) \<Rightarrow> string \<Rightarrow> char list \<Rightarrow> char list option" where
  "plain opens pair [] s = Some s"
| "plain opens pair (c # w) s =
     (if opens c then plain opens pair w (c # s)
      else if c \<in> set brackets
      then (if s \<noteq> [] \<and> tl s \<noteq> [] \<and> pair (hd s) c then plain opens pair w (tl s) else None)
      else plain opens pair w s)"

lemma plain_append:
  "plain opens pair (u @ v) s = (case plain opens pair u s of None \<Rightarrow> None | Some s' \<Rightarrow> plain opens pair v s')"
  by (induction u arbitrary: s) auto

locale bracket_pairs =
  fixes opens :: "char \<Rightarrow> bool"
    and pair :: "char \<Rightarrow> char \<Rightarrow> bool"
  assumes pair_opens: "pair c d \<Longrightarrow> opens c \<and> \<not> opens d \<and> d \<in> set brackets"
    and opens_bracket: "opens c \<Longrightarrow> c \<in> set brackets"
begin

lemma plain_balanced: "balanced pair w \<Longrightarrow> s \<noteq> [] \<Longrightarrow> plain opens pair w s = Some s"
  by (induction arbitrary: s rule: balanced.induct)
    (use pair_opens opens_bracket in \<open>auto simp: plain_append\<close>)

lemma plain_stack: "plain opens pair w s = Some s' \<Longrightarrow> s \<noteq> [] \<Longrightarrow> s' \<noteq> []"
  by (induction w arbitrary: s) (auto split: if_splits)

lemma plain_opens: "plain opens pair w s = Some s' \<Longrightarrow> list_all opens s \<Longrightarrow> list_all opens s'"
proof (induction w arbitrary: s)
  case (Cons c w)
  have "list_all opens (tl s)" using Cons.prems(2) by (cases s) auto
  with Cons show ?case by (auto split: if_splits)
qed simp

end

abbreviation opens_fwd :: "char \<Rightarrow> bool" where "opens_fwd c \<equiv> c \<in> set ''([{''"
abbreviation opens_bwd :: "char \<Rightarrow> bool" where "opens_bwd c \<equiv> c \<in> set '')]}''"

interpretation fwd: bracket_pairs opens_fwd closes
  by unfold_locales (auto simp: closes_def brackets_def)

interpretation bwd: bracket_pairs opens_bwd "\<lambda>c d. closes d c"
  by unfold_locales (auto simp: closes_def brackets_def)

abbreviation no_angles :: "string \<Rightarrow> bool" where
  "no_angles w \<equiv> CHR ''<'' \<notin> set w \<and> CHR ''>'' \<notin> set w"

lemma dropWhile_opens: "list_all P s \<Longrightarrow> \<not> P c \<Longrightarrow> dropWhile ((=) c) s = s"
  by (cases s) auto

lemma bracket_cases:
  assumes "no_angles [c]"
  obtains "opens_fwd c" | "opens_bwd c" | "c \<notin> set brackets"
proof -
  have "opens_fwd c \<or> opens_bwd c \<or> c \<notin> set brackets" using assms by (auto simp: brackets_def)
  with that show ?thesis by blast
qed

lemma end_step_plain:
  assumes "s \<noteq> []" "list_all opens_fwd s" "plain opens_fwd closes [line ! i] s = Some s'" "no_angles [line ! i]"
  shows "end_step line i s = Go s' 1"
proof -
  note drop = dropWhile_opens [OF assms(2), of "CHR ''<''"]
  from bracket_cases [OF assms(4)] show ?thesis
  proof cases
    case 1
    with assms(3) show ?thesis by (auto simp: end_step_def)
  next
    case 2
    with assms(3) have "closes (hd s) (line ! i)" "tl s \<noteq> []" "s' = tl s"
      by (auto simp: brackets_def split: if_splits)
    moreover have "\<not> opens_fwd (line ! i)" "line ! i \<noteq> CHR ''<''" using 2 by auto
    ultimately show ?thesis using 2 drop assms(1) by (simp add: end_step_def)
  next
    case 3
    then have "\<not> opens_fwd (line ! i)" "\<not> opens_bwd (line ! i)" "line ! i \<noteq> CHR ''<''" "line ! i \<noteq> CHR ''>''"
      by (auto simp: brackets_def)
    with 3 assms(1,3) drop show ?thesis by (simp add: end_step_def)
  qed
qed

lemma FindEnd_plain:
  assumes "line = u @ w @ v" "s \<noteq> []" "list_all opens_fwd s" "plain opens_fwd closes w s = Some s'" "no_angles w"
  shows "FindEndOfExpressionInLine line (length u) s = FindEndOfExpressionInLine line (length u + length w) s'"
  using assms
proof (induction w arbitrary: u s)
  case (Cons c w)
  from Cons.prems(4) plain_append [of opens_fwd closes "[c]" w s]
  obtain s1 where s1: "plain opens_fwd closes [c] s = Some s1" "plain opens_fwd closes w s1 = Some s'"
    by (auto split: option.splits)
  have c: "line ! length u = c" "length u < length line" using Cons.prems(1) by auto
  have "end_step line (length u) s = Go s1 1"
    by (rule end_step_plain) (use Cons.prems s1 c in auto)
  with c have "FindEndOfExpressionInLine line (length u) s = FindEndOfExpressionInLine line (length (u @ [c])) s1"
    by (subst FindEndOfExpressionInLine.simps) simp
  also have "\<dots> = FindEndOfExpressionInLine line (length (u @ [c]) + length w) s'"
    by (rule Cons.IH)
      (use Cons.prems s1 fwd.plain_stack [OF s1(1)] fwd.plain_opens [OF s1(1)] in auto)
  finally show ?case by simp
qed simp

lemma FindEnd_line:
  assumes "s \<noteq> []" "list_all opens_fwd s" "plain opens_fwd closes w s = Some s'" "no_angles w"
  shows "FindEndOfExpressionInLine (u @ w) (length u) s = (-1, Some s')"
  using FindEnd_plain [of "u @ w" u w "[]" s s'] assms
  by (simp add: FindEndOfExpressionInLine.simps [of _ "length u + length w"])

lemma FindEnd_here:
  assumes "s \<noteq> []" "list_all opens_fwd s" "plain opens_fwd closes w s = Some [c]" "no_angles w" "closes c d"
  shows "FindEndOfExpressionInLine (u @ w @ d # v) (length u) s = (int (length u + length w) + 1, None)"
proof -
  have "end_step (u @ w @ d # v) (length u + length w) [c] = Stop (int (length u + length w) + 1)"
  proof -
    have "(u @ w @ d # v) ! (length u + length w) = d" by (simp add: nth_append)
    moreover have "opens_bwd d" "\<not> opens_fwd d" "d \<noteq> CHR ''<''" "c \<noteq> CHR ''<''"
      using assms(5) by (auto simp: closes_def)
    ultimately show ?thesis using assms(5) by (simp add: end_step_def)
  qed
  with FindEnd_plain [of "u @ w @ d # v" u w "d # v" s "[c]"] assms show ?thesis
    by (simp add: FindEndOfExpressionInLine.simps [of _ "length u + length w"])
qed

lemma close_rest_plain:
  assumes "s \<noteq> []" "list_all opens_fwd s" "plain opens_fwd closes (concat xs @ y) s = Some [c]"
    "no_angles (concat xs @ y)" "closes c d"
  shows "close_rest (xs @ (y @ d # v) # later) num line n (Some s) =
    (y @ d # v, n + length xs + 1, int (length y) + 1)"
  using assms
proof (induction xs arbitrary: s line n)
  case Nil
  from Nil.prems FindEnd_here [of s y c d "[]" v] show ?case by (cases s) auto
next
  case (Cons x xs)
  from Cons.prems(3) plain_append [of opens_fwd closes x "concat xs @ y" s]
  obtain s1 where s1: "plain opens_fwd closes x s = Some s1" "plain opens_fwd closes (concat xs @ y) s1 = Some [c]"
    by (auto split: option.splits)
  have x: "FindEndOfExpressionInLine x 0 s = (-1, Some s1)"
    using FindEnd_line [of s x s1 "[]"] Cons.prems s1 by auto
  have "close_rest (xs @ (y @ d # v) # later) num x (Suc n) (Some s1) =
    (y @ d # v, Suc n + length xs + 1, int (length y) + 1)"
    by (rule Cons.IH)
      (use Cons.prems s1 fwd.plain_stack [OF s1(1)] fwd.plain_opens [OF s1(1)] in auto)
  with x Cons.prems(1) show ?case by (cases s) auto
qed

section \<open>Balanced text, backward\<close>

abbreviation opened_by :: "char \<Rightarrow> char \<Rightarrow> bool" where "opened_by d c \<equiv> closes c d"

lemma start_step_plain:
  assumes "s \<noteq> []" "list_all opens_bwd s" "plain opens_bwd opened_by [line ! i] s = Some s'" "no_angles [line ! i]"
  shows "start_step line i s = Go s' 1"
proof -
  note drop = dropWhile_opens [OF assms(2), of "CHR ''>''"]
  from bracket_cases [OF assms(4)] show ?thesis
  proof cases
    case 2
    with assms(3) show ?thesis by (auto simp: start_step_def)
  next
    case 1
    with assms(3) have "closes (line ! i) (hd s)" "tl s \<noteq> []" "s' = tl s"
      by (auto simp: brackets_def split: if_splits)
    moreover have "\<not> opens_bwd (line ! i)" "line ! i \<noteq> CHR ''<''" "line ! i \<noteq> CHR ''>''" using 1 by auto
    ultimately show ?thesis using 1 drop assms(1) by (simp add: start_step_def)
  next
    case 3
    then have "\<not> opens_fwd (line ! i)" "\<not> opens_bwd (line ! i)" "line ! i \<noteq> CHR ''<''" "line ! i \<noteq> CHR ''>''"
      by (auto simp: brackets_def)
    with 3 assms(1,3) drop show ?thesis by (simp add: start_step_def)
  qed
qed

lemma FindStart_plain:
  assumes "line = u @ w @ v" "s \<noteq> []" "list_all opens_bwd s" "plain opens_bwd opened_by (rev w) s = Some s'" "no_angles w"
  shows "FindStartOfExpressionInLine line (length u + length w) s = FindStartOfExpressionInLine line (length u) s'"
  using assms
proof (induction w arbitrary: v s rule: rev_induct)
  case (snoc c w)
  from snoc.prems(4) plain_append [of opens_bwd opened_by "[c]" "rev w" s]
  obtain s1 where s1: "plain opens_bwd opened_by [c] s = Some s1" "plain opens_bwd opened_by (rev w) s1 = Some s'"
    by (auto split: option.splits)
  have c: "line ! (length u + length w) = c" using snoc.prems(1) by (simp add: nth_append)
  have "start_step line (length u + length w) s = Go s1 1"
    by (rule start_step_plain) (use snoc.prems s1 c in auto)
  then have "FindStartOfExpressionInLine line (length u + length (w @ [c])) s =
    FindStartOfExpressionInLine line (length u + length w) s1"
    by (subst FindStartOfExpressionInLine.simps) simp
  also have "\<dots> = FindStartOfExpressionInLine line (length u) s'"
    by (rule snoc.IH [of "c # v"])
      (use snoc.prems s1 bwd.plain_stack [OF s1(1)] bwd.plain_opens [OF s1(1)] in auto)
  finally show ?case .
qed simp

lemma FindStart_line:
  assumes "s \<noteq> []" "list_all opens_bwd s" "plain opens_bwd opened_by (rev w) s = Some s'" "no_angles w"
  shows "FindStartOfExpressionInLine (w @ v) (length w) s = (-1, Some s')"
  using FindStart_plain [of "w @ v" "[]" w v s s'] assms
  by (simp add: FindStartOfExpressionInLine.simps [of _ 0])

lemma FindStart_here:
  assumes "s \<noteq> []" "list_all opens_bwd s" "plain opens_bwd opened_by (rev w) s = Some [d]" "no_angles w" "closes c d"
  shows "FindStartOfExpressionInLine (u @ c # w @ v) (Suc (length u + length w)) s = (int (length u), None)"
proof -
  have "start_step (u @ c # w @ v) (length u) [d] = Stop (int (length u))"
  proof -
    have "opens_fwd c" "\<not> opens_bwd c" "c \<noteq> CHR ''<''" "c \<noteq> CHR ''>''" "d \<noteq> CHR ''>''"
      using assms(5) by (auto simp: closes_def)
    then show ?thesis using assms(5) by (simp add: start_step_def)
  qed
  then have "FindStartOfExpressionInLine (u @ c # w @ v) (Suc (length u)) [d] = (int (length u), None)"
    by (subst FindStartOfExpressionInLine.simps) simp
  with FindStart_plain [of "u @ c # w @ v" "u @ [c]" w v s "[d]"] assms show ?thesis by simp
qed

lemma reverse_rest_plain:
  assumes "s \<noteq> []" "list_all opens_bwd s" "plain opens_bwd opened_by (concat (map rev xs) @ rev u) s = Some [d]"
    "no_angles (concat xs @ u)" "closes c d"
  shows "reverse_rest (xs @ (p @ c # u) # earlier) line (Some s) = (p @ c # u, length earlier, int (length p))"
  using assms
proof (induction xs arbitrary: s line)
  case Nil
  from Nil.prems FindStart_here [of s u d c p "[]"] show ?case by (cases s) auto
next
  case (Cons x xs)
  from Cons.prems(3) plain_append [of opens_bwd opened_by "rev x" "concat (map rev xs) @ rev u" s]
  obtain s1 where s1: "plain opens_bwd opened_by (rev x) s = Some s1"
    "plain opens_bwd opened_by (concat (map rev xs) @ rev u) s1 = Some [d]"
    by (auto split: option.splits)
  have x: "FindStartOfExpressionInLine x (length x) s = (-1, Some s1)"
    using FindStart_line [of s x s1 "[]"] Cons.prems s1 by auto
  have "reverse_rest (xs @ (p @ c # u) # earlier) x (Some s1) = (p @ c # u, length earlier, int (length p))"
    by (rule Cons.IH)
      (use Cons.prems s1 bwd.plain_stack [OF s1(1)] bwd.plain_opens [OF s1(1)] in auto)
  with x Cons.prems(1) show ?case by (cases s) auto
qed

section \<open>Closing and reopening balanced text\<close>

lemma balanced_no_angles: "balanced closes w \<Longrightarrow> no_angles w"
  by (induction rule: balanced.induct) (auto simp: brackets_def closes_def)

lemma no_shift: "c \<noteq> CHR ''<'' \<Longrightarrow> Match ''<[<=]'' (c # w) = None"
proof -
  assume c: "c \<noteq> CHR ''<''"
  have "compile (bs ''<[<=]'') = Some (Seq (Chr (CHR ''<'')) (Cls False [CChr (CHR ''<''), CChr (CHR ''='')]))"
    by code_simp
  with c show ?thesis
    by (simp add: Match_None_iff step1_mem del: in_set.simps)
qed

lemma CloseExpression_line:
  assumes "n < length (cl_elided cl)" "cl_elided cl ! n = p @ c # w @ d # v" "closes c d" "balanced closes w"
  shows "CloseExpression cl n (length p) = Inr (p @ c # w @ d # v, n, int (length p + length w) + 2)"
proof -
  have c: "opens_fwd c" "c \<noteq> CHR ''<''" using assms(3) by (auto simp: closes_def)
  have "FindEndOfExpressionInLine (p @ c # w @ d # v) (length p) [] = (int (length p + length w) + 2, None)"
    using FindEnd_here [of "[c]" w c d "p @ [c]" v] fwd.plain_balanced [OF assms(4), of "[c]"]
      balanced_no_angles [OF assms(4)] assms(3) c
    by (subst FindEnd_first) (auto simp: starts_bracket_def)
  with assms(1,2) c no_shift [OF c(2)] show ?thesis by (auto simp: CloseExpression_def)
qed

lemma CloseExpression_lines:
  assumes "cl_elided cl = before @ (p @ c # u) # xs @ (y @ d # v) # after" "cl_num_lines cl = length (cl_elided cl)"
    "closes c d" "balanced closes (u @ concat xs @ y)"
  shows "CloseExpression cl (length before) (length p) =
    Inr (y @ d # v, length before + length xs + 1, int (length y) + 1)"
proof -
  have c: "opens_fwd c" "c \<noteq> CHR ''<''" using assms(3) by (auto simp: closes_def)
  note angles = balanced_no_angles [OF assms(4)]
  from fwd.plain_balanced [OF assms(4), of "[c]"] plain_append [of opens_fwd closes u "concat xs @ y" "[c]"]
  obtain s where s: "plain opens_fwd closes u [c] = Some s" "plain opens_fwd closes (concat xs @ y) s = Some [c]"
    by (auto split: option.splits)
  have s': "s \<noteq> []" "list_all opens_fwd s" using fwd.plain_stack [OF s(1)] fwd.plain_opens [OF s(1)] c by auto
  have first: "FindEndOfExpressionInLine (p @ c # u) (length p) [] = (-1, Some s)"
    using FindEnd_line [of "[c]" u s "p @ [c]"] s(1) c angles
    by (subst FindEnd_first) (auto simp: starts_bracket_def)
  have rest: "close_rest (xs @ (y @ d # v) # after) (cl_num_lines cl) (p @ c # u) (length before) (Some s) =
    (y @ d # v, length before + length xs + 1, int (length y) + 1)"
    by (rule close_rest_plain) (use s s' angles assms(3) in auto)
  show ?thesis
    using first rest assms(1,2) c no_shift [OF c(2)]
    by (auto simp: CloseExpression_def NumLines_def)
qed

lemma ReverseCloseExpression_line:
  assumes "n < length (cl_elided cl)" "cl_elided cl ! n = p @ c # w @ d # v" "closes c d" "balanced closes w"
  shows "ReverseCloseExpression cl n (length p + length w + 1) = Inr (p @ c # w @ d # v, n, int (length p))"
proof -
  have d: "opens_bwd d" using assms(3) by (auto simp: closes_def)
  have nth: "(p @ c # w @ d # v) ! Suc (length p + length w) = d" by (simp add: nth_append)
  have "FindStartOfExpressionInLine (p @ c # w @ d # v) (Suc (length p + length w)) [d] = (int (length p), None)"
    by (rule FindStart_here) (use bwd.plain_balanced [OF balanced_rev [OF assms(4)], of "[d]"]
      balanced_no_angles [OF assms(4)] assms(3) d in auto)
  moreover have "start_step (p @ c # w @ d # v) (Suc (length p + length w)) [] = Go [d] 1"
    using d nth by (simp add: start_step_def)
  ultimately have "FindStartOfExpressionInLine (p @ c # w @ d # v) (Suc (Suc (length p + length w))) [] = (int (length p), None)"
    by (subst FindStartOfExpressionInLine.simps) simp
  moreover have "py_nth (p @ c # w @ d # v) (int (length p + length w + 1)) = Inr d"
    using py_nth_in_range [of "Suc (length p + length w)" "p @ c # w @ d # v"] nth by simp
  ultimately show ?thesis using assms(1,2) d
    by (auto simp: ReverseCloseExpression_def simp del: of_nat_add of_nat_Suc)
qed

lemma ReverseCloseExpression_lines:
  assumes "cl_elided cl = before @ (p @ c # u) # xs @ (y @ d # v) # after"
    "closes c d" "balanced closes (u @ concat xs @ y)"
  shows "ReverseCloseExpression cl (length before + length xs + 1) (length y) =
    Inr (p @ c # u, length before, int (length p))"
proof -
  have d: "opens_bwd d" using assms(2) by (auto simp: closes_def)
  note angles = balanced_no_angles [OF assms(3)]
  have rev: "rev (u @ concat xs @ y) = rev y @ concat (map rev (rev xs)) @ rev u"
    by (simp add: rev_concat rev_map)
  from bwd.plain_balanced [OF balanced_rev [OF assms(3)], of "[d]", unfolded rev]
    plain_append [of opens_bwd opened_by "rev y" "concat (map rev (rev xs)) @ rev u" "[d]"]
  obtain s where s: "plain opens_bwd opened_by (rev y) [d] = Some s"
    "plain opens_bwd opened_by (concat (map rev (rev xs)) @ rev u) s = Some [d]"
    by (auto split: option.splits)
  have s': "s \<noteq> []" "list_all opens_bwd s" using bwd.plain_stack [OF s(1)] bwd.plain_opens [OF s(1)] d by auto
  have "start_step (y @ d # v) (length y) [] = Go [d] 1" using d by (simp add: start_step_def)
  then have first: "FindStartOfExpressionInLine (y @ d # v) (Suc (length y)) [] = (-1, Some s)"
    using FindStart_line [of "[d]" y s "d # v"] s(1) d angles
    by (subst FindStartOfExpressionInLine.simps) auto
  have rest: "reverse_rest (rev xs @ (p @ c # u) # rev before) (y @ d # v) (Some s) = (p @ c # u, length (rev before), int (length p))"
    by (rule reverse_rest_plain) (use s s' angles assms(2) in auto)
  have nth: "cl_elided cl ! (length before + length xs + 1) = y @ d # v"
    and take: "take (length before + length xs + 1) (cl_elided cl) = before @ (p @ c # u) # xs"
    and len: "length before + length xs + 1 < length (cl_elided cl)"
    by (simp_all add: assms(1) nth_append)
  have "py_nth (cl_elided cl) (int (length before + length xs + 1)) = Inr (y @ d # v)"
    using py_nth_in_range [OF len] nth by simp
  then show ?thesis
    using first rest take d by (auto simp: ReverseCloseExpression_def simp del: of_nat_add of_nat_Suc)
qed

section \<open>Properties\<close>

text \<open>
  C19: Let the scan start at an opening bracket, where a \<open><\<close> counts as one only when it is
  neither the operator of \<open>operator<\<close> nor the second character of \<open><<\<close>. A close that is found
  then lies at or after the start, inside the file and inside its line, and the character
  before it is the closing counterpart of the opening one. The condition on the start is
  needed: on the \<open><\<close> of an operator the scan skips it and answers for the next bracket
  (\<open>close_expression_operator\<close>), although the docstring promises the close of the
  bracket at the start.
\<close>
theorem close_expression_sound:
  assumes "CloseExpression cl n pos = Inr (l, m, p)" "p \<noteq> -1"
    "n < length (cl_elided cl)" "pos < length (cl_elided cl ! n)"
    "starts_bracket (cl_elided cl ! n) pos" "cl_num_lines cl = length (cl_elided cl)"
  shows "n \<le> m \<and> m < length (cl_elided cl) \<and> l = cl_elided cl ! m \<and> 1 \<le> p \<and> p \<le> int (length l) \<and>
    (m = n \<longrightarrow> int pos + 1 < p) \<and> matches (cl_elided cl ! n ! pos) (l ! (nat p - 1))"
  by (rule CloseExpression_sound [OF assms])

definition demo_lines :: cleansed_lines where
  "demo_lines = (let ls = [''f(a[1],'', ''  {g()},'', ''  vector<int>(2));'']
     in \<lparr>cl_elided = ls, cl_lines = ls, cl_raw_lines = ls, cl_num_lines = 3, cl_lines_without_raw_strings = ls\<rparr>)"

theorem close_expression_sound_witness:
  "CloseExpression demo_lines 2 8 = Inr (''  vector<int>(2));'', 2, 13) \<and>
   matches (CHR ''<'') (CHR ''>'')"
proof -
  have call: "CloseExpression demo_lines 2 8 = Inr (''  vector<int>(2));'', 2, 13)" by code_simp
  have "starts_bracket (cl_elided demo_lines ! 2) 8" "cl_num_lines demo_lines = length (cl_elided demo_lines)"
    "2 < length (cl_elided demo_lines)" "8 < length (cl_elided demo_lines ! 2)" by code_simp+
  have "(13 :: int) \<noteq> -1" by simp
  from close_expression_sound [OF call this \<open>2 < _\<close> \<open>8 < _\<close> \<open>starts_bracket _ _\<close> \<open>cl_num_lines _ = _\<close>]
  have "matches (cl_elided demo_lines ! 2 ! 8) (''  vector<int>(2));'' ! (nat 13 - 1))"
    by blast
  moreover have "cl_elided demo_lines ! 2 ! 8 = CHR ''<''" "''  vector<int>(2));'' ! (nat 13 - 1) = CHR ''>''"
    by code_simp+
  ultimately show ?thesis using call by simp
qed

text \<open>
  C8: An opening bracket, balanced text over any number of lines and the closing bracket:
  closing from the first returns the position past the last, and closing backwards from
  the last returns the position of the first.
\<close>
theorem close_expression_roundtrip:
  assumes "cl_elided cl = before @ (p @ c # u) # xs @ (y @ d # v) # after" "cl_num_lines cl = length (cl_elided cl)"
    "closes c d" "balanced closes (u @ concat xs @ y)"
  shows "CloseExpression cl (length before) (length p) =
      Inr (y @ d # v, length before + length xs + 1, int (length y) + 1) \<and>
    ReverseCloseExpression cl (length before + length xs + 1) (length y) =
      Inr (p @ c # u, length before, int (length p))"
  using CloseExpression_lines [OF assms] ReverseCloseExpression_lines [OF assms(1,3,4)] by blast

definition demo_call :: cleansed_lines where
  "demo_call = (let ls = [''x = f(a'', ''  g[1]'', '');'']
     in \<lparr>cl_elided = ls, cl_lines = ls, cl_raw_lines = ls, cl_num_lines = 3, cl_lines_without_raw_strings = ls\<rparr>)"

theorem close_expression_roundtrip_witness:
  "CloseExpression demo_call 0 5 = Inr ('');'', 2, 1) \<and> ReverseCloseExpression demo_call 2 0 = Inr (''x = f(a'', 0, 5)"
proof -
  have "balanced closes (''a'' @ concat [''  g[1]''] @ [])"
  proof -
    have "balanced closes (CHR ''['' # ''1'' @ CHR '']'' # [])"
      by (intro balanced.nest balanced.other balanced.empty) (auto simp: closes_def brackets_def)
    then have "balanced closes (''a  g'' @ CHR ''['' # ''1'' @ CHR '']'' # [])"
      by (auto intro!: balanced.other simp: brackets_def)
    then show ?thesis by simp
  qed
  from close_expression_roundtrip [of demo_call "[]" "''x = f''" "CHR ''(''" "''a''" "[''  g[1]'']" "[]" "CHR '')''" "'';''" "[]", OF _ _ _ this]
  show ?thesis by (simp add: demo_call_def closes_def Let_def eval_nat_numeral)
qed

text \<open>
  On a single line, closing from an opening bracket before balanced text returns the
  position past its closing bracket, and closing backwards from there returns to it.
\<close>
theorem close_expression_same_line:
  assumes "n < length (cl_elided cl)" "cl_elided cl ! n = p @ c # w @ d # v" "closes c d" "balanced closes w"
  shows "CloseExpression cl n (length p) = Inr (p @ c # w @ d # v, n, int (length p + length w) + 2) \<and>
    ReverseCloseExpression cl n (length p + length w + 1) = Inr (p @ c # w @ d # v, n, int (length p))"
  using CloseExpression_line [OF assms] ReverseCloseExpression_line [OF assms] by blast

theorem close_expression_same_line_witness:
  "CloseExpression demo_lines 0 3 = Inr (''f(a[1],'', 0, 6)"
proof -
  have "balanced closes ''1''" by (auto intro!: balanced.intros simp: brackets_def)
  moreover have "cl_elided demo_lines ! 0 = ''f(a'' @ CHR ''['' # ''1'' @ CHR '']'' # '',''"
    "0 < length (cl_elided demo_lines)" by (simp_all add: demo_lines_def Let_def)
  ultimately show ?thesis
    using close_expression_same_line [of 0 demo_lines "''f(a''" "CHR ''[''" "''1''" "CHR '']''" "'',''"]
    by (simp add: closes_def eval_nat_numeral)
qed

text \<open>
  A template bracket that the scanner takes for an operator is not put on the stack, and
  the scan goes on with an empty one: from the bracket of \<open>operator<\<close> the close of the
  parameter list is returned.
\<close>

lemma close_expression_operator:
  "CloseExpression (demo_lines\<lparr>cl_elided := [''bool operator<(int a) {'']\<rparr>) 0 13 =
     Inr (''bool operator<(int a) {'', 0, 21)"
  by code_simp

end
