(* ===== verification/Nesting.thy ===== *)
theory Nesting
  imports Expressions
begin

text \<open>
  The nesting of blocks (\<open>scripts/cpplint.py\<close>: the block information classes,
  \<open>_PreprocessorInfo\<close> and \<open>NestingState\<close>).

  A block object is a record whose \<open>kind\<close> holds what its class adds. Objects have an
  identity: \<open>bid\<close> numbers them in the order of their allocation, and a deep copy of a
  stack allocates new ones, because the program compares the saved top of the stack with
  an element of the stack by identity. A stack is a list whose head is its top. The saved
  top is the block as it was when it was saved: of it the program reads only the class and
  the identity, which no assignment changes.

  An operation that reports returns its reports in order; an index outside the file raises.
\<close>

section \<open>Blocks\<close>

datatype asm_state = NO_ASM | INSIDE_ASM | END_ASM | BLOCK_ASM

definition MATCH_ASM :: string where
  "MATCH_ASM = ''^`s*(?:asm|_asm|__asm|__asm__)(?:`s+(volatile|__volatile__))?`s*[{(]''"

record class_info =
  c_name :: string
  is_derived :: bool
  access :: string
  is_struct :: bool
  class_indent :: nat
  last_line :: nat

datatype block_kind = BlockInfo | ExternCInfo | ClassInfo class_info | NamespaceInfo string

record block =
  bid :: nat
  starting_linenum :: nat
  seen_open_brace :: bool
  open_parentheses :: int
  inline_asm :: asm_state
  check_namespace_indentation :: bool
  kind :: block_kind

definition new_block :: "nat \<Rightarrow> nat \<Rightarrow> bool \<Rightarrow> block" where
  "new_block i linenum seen =
     \<lparr>bid = i, starting_linenum = linenum, seen_open_brace = seen, open_parentheses = 0,
      inline_asm = NO_ASM, check_namespace_indentation = False, kind = BlockInfo\<rparr>"

definition new_extern_c :: "nat \<Rightarrow> nat \<Rightarrow> block" where
  "new_extern_c i linenum = (new_block i linenum True)\<lparr>kind := ExternCInfo\<rparr>"

definition GetIndentLevel :: "string \<Rightarrow> nat" where
  "GetIndentLevel line =
     (case Match ''^( *)`S'' line of None \<Rightarrow> 0 | Some indent \<Rightarrow> length (grp indent 1))"

text \<open>The scan for the end of a class: the index of the first line where the braces balance.\<close>

fun class_end :: "string list \<Rightarrow> nat \<Rightarrow> int \<Rightarrow> nat" where
  "class_end [] i depth = 0"
| "class_end (line # later) i depth =
     (let depth = depth + (int (count_sub ''{'' line) - int (count_sub ''}'' line))
      in if depth = 0 then i else class_end later (Suc i) depth)"

definition new_class :: "nat \<Rightarrow> string \<Rightarrow> string \<Rightarrow> cleansed_lines \<Rightarrow> nat \<Rightarrow> block res" where
  "new_class i name class_or_struct clean_lines linenum =
     res_bind (py_nth (cl_raw_lines clean_lines) (int linenum)) (\<lambda>raw.
       (let st = (class_or_struct = ''struct'')
        in Inr ((new_block i linenum False)
             \<lparr>check_namespace_indentation := True,
              kind := ClassInfo \<lparr>c_name = name, is_derived = False,
                access = (if st then ''public'' else ''private''), is_struct = st,
                class_indent = GetIndentLevel raw,
                last_line = class_end (take (NumLines clean_lines - linenum) (drop linenum (cl_elided clean_lines)))
                              linenum 0\<rparr>\<rparr>)))"

definition new_namespace :: "nat \<Rightarrow> string \<Rightarrow> nat \<Rightarrow> block" where
  "new_namespace i name linenum =
     (new_block i linenum False)\<lparr>check_namespace_indentation := True, kind := NamespaceInfo name\<rparr>"

definition CheckBegin :: "cleansed_lines \<Rightarrow> nat \<Rightarrow> block \<Rightarrow> block res" where
  "CheckBegin clean_lines linenum b =
     (case kind b of
        ClassInfo c \<Rightarrow>
          res_bind (py_nth (cl_elided clean_lines) (int linenum)) (\<lambda>line.
            Inr (if Search ''(^|[^:]):($|[^:])'' line \<noteq> None
                 then b\<lparr>kind := ClassInfo (c\<lparr>is_derived := True\<rparr>)\<rparr> else b))
      | _ \<Rightarrow> Inr b)"

definition class_label :: "class_info \<Rightarrow> string" where
  "class_label c = (if is_struct c then ''struct '' @ c_name c else ''class '' @ c_name c)"

text \<open>The lines from the one before the closing brace down to the one after the class head.\<close>

fun check_disallow :: "string \<Rightarrow> string \<Rightarrow> (nat \<times> string) list \<Rightarrow> bool \<Rightarrow> report list" where
  "check_disallow filename name [] seen_last = []"
| "check_disallow filename name ((i, line) # ls) seen_last =
     (case Search (''`b(DISALLOW_COPY_AND_ASSIGN|DISALLOW_IMPLICIT_CONSTRUCTORS)`('' @ name @ ''`)'') line of
        Some m \<Rightarrow>
          (if seen_last
           then [Report filename (int i) ''readability/constructors'' 3
                   (grp m 1 @ '' should be the last thing in the class'')]
           else [])
      | None \<Rightarrow> check_disallow filename name ls (if Match ''^`s*$'' line = None then True else seen_last))"

definition ClassInfo_CheckEnd ::
  "string \<Rightarrow> cleansed_lines \<Rightarrow> nat \<Rightarrow> nat \<Rightarrow> class_info \<Rightarrow> report list res" where
  "ClassInfo_CheckEnd filename clean_lines linenum starting c =
     res_bind (py_nth (cl_elided clean_lines) (int linenum)) (\<lambda>line.
       (let body = rev (map (\<lambda>i. (i, cl_elided clean_lines ! i)) [Suc starting..<linenum]);
            macro = check_disallow filename (c_name c) body False
        in Inr (macro @
             (case Match ''^( *)`}'' line of
                None \<Rightarrow> []
              | Some indent \<Rightarrow>
                  (if length (grp indent 1) \<noteq> class_indent c
                   then [Report filename (int linenum) ''whitespace/indent'' 3
                           (''Closing brace should be aligned with beginning of '' @ class_label c)]
                   else [])))))"

definition re_escape :: "string \<Rightarrow> string" where
  "re_escape s =
     concat (map (\<lambda>c. if is_word c \<and> c \<noteq> CHR ''_'' then [c] else [CHR 0x60, c]) s)"

definition NamespaceInfo_CheckEnd ::
  "string \<Rightarrow> cleansed_lines \<Rightarrow> nat \<Rightarrow> nat \<Rightarrow> string \<Rightarrow> report list res" where
  "NamespaceInfo_CheckEnd filename clean_lines linenum starting name =
     res_bind (py_nth (cl_raw_lines clean_lines) (int linenum)) (\<lambda>line.
       (let err = (\<lambda>msg. [Report filename (int linenum) ''readability/namespace'' 5 msg])
        in Inr
          (if int linenum - int starting < 10 \<and> Match ''^`s*};*`s*(//|/`*).*`bnamespace`b'' line = None then []
           else if name \<noteq> [] then
             (if Match (''^`s*};*`s*(//|/`*).*`bnamespace`s+'' @ re_escape name @ ''[`*/`.``'' @ ''`s]*$'') line = None
              then err (''Namespace should be terminated with \"// namespace '' @ name @ [dq])
              else [])
           else if Match ''^`s*};*`s*(//|/`*).*`bnamespace[`*/`.```s]*$'' line = None then
             (if Match ''^`s*}.*`b(namespace anonymous|anonymous namespace)`b'' line \<noteq> None
              then err ''Anonymous namespace should be terminated with \"// namespace\" or \"// anonymous namespace\"''
              else err ''Anonymous namespace should be terminated with \"// namespace\"'')
           else [])))"

definition CheckEnd :: "string \<Rightarrow> cleansed_lines \<Rightarrow> nat \<Rightarrow> block \<Rightarrow> report list res" where
  "CheckEnd filename clean_lines linenum b =
     (case kind b of
        ClassInfo c \<Rightarrow> ClassInfo_CheckEnd filename clean_lines linenum (starting_linenum b) c
      | NamespaceInfo name \<Rightarrow> NamespaceInfo_CheckEnd filename clean_lines linenum (starting_linenum b) name
      | _ \<Rightarrow> Inr [])"

definition IsBlockInfo :: "block \<Rightarrow> bool" where
  "IsBlockInfo b \<longleftrightarrow> kind b = BlockInfo"

section \<open>The state\<close>

record pp_info =
  stack_before_if :: "block list"
  stack_before_else :: "block list"
  seen_else :: bool

record nesting_state =
  stack :: "block list"
  previous_stack_top :: "block option"
  pp_stack :: "pp_info list"
  next_bid :: nat

definition NestingState :: nesting_state where
  "NestingState = \<lparr>stack = [], previous_stack_top = None, pp_stack = [], next_bid = 0\<rparr>"

definition SeenOpenBrace :: "nesting_state \<Rightarrow> bool" where
  "SeenOpenBrace st \<longleftrightarrow> stack st = [] \<or> seen_open_brace (hd (stack st))"

definition InNamespaceBody :: "nesting_state \<Rightarrow> bool" where
  "InNamespaceBody st \<longleftrightarrow> (case stack st of [] \<Rightarrow> False | b # _ \<Rightarrow> (case kind b of NamespaceInfo _ \<Rightarrow> True | _ \<Rightarrow> False))"

definition InExternC :: "nesting_state \<Rightarrow> bool" where
  "InExternC st \<longleftrightarrow> (case stack st of [] \<Rightarrow> False | b # _ \<Rightarrow> kind b = ExternCInfo)"

definition InClassDeclaration :: "nesting_state \<Rightarrow> bool" where
  "InClassDeclaration st \<longleftrightarrow> (case stack st of [] \<Rightarrow> False | b # _ \<Rightarrow> (case kind b of ClassInfo _ \<Rightarrow> True | _ \<Rightarrow> False))"

definition InAsmBlock :: "nesting_state \<Rightarrow> bool" where
  "InAsmBlock st \<longleftrightarrow> (case stack st of [] \<Rightarrow> False | b # _ \<Rightarrow> inline_asm b \<noteq> NO_ASM)"

section \<open>Preprocessor directives\<close>

text \<open>A deep copy of a stack: equal blocks with new identities, and the next free identity.\<close>

fun deepcopy :: "nat \<Rightarrow> block list \<Rightarrow> block list \<times> nat" where
  "deepcopy i [] = ([], i)"
| "deepcopy i (b # later) = (let (cs, j) = deepcopy (Suc i) later in (b\<lparr>bid := i\<rparr> # cs, j))"

definition PP_IF :: string where "PP_IF = ''^`s*#`s*(if|ifdef|ifndef)`b''"
definition PP_ELSE :: string where "PP_ELSE = ''^`s*#`s*(else|elif)`b''"
definition PP_ENDIF :: string where "PP_ENDIF = ''^`s*#`s*endif`b''"

definition UpdatePreprocessor :: "string \<Rightarrow> nesting_state \<Rightarrow> nesting_state" where
  "UpdatePreprocessor line st =
     (if Match PP_IF line \<noteq> None then
        (let (saved, i) = deepcopy (next_bid st) (stack st)
         in st\<lparr>pp_stack := \<lparr>stack_before_if = saved, stack_before_else = [], seen_else = False\<rparr> # pp_stack st,
               next_bid := i\<rparr>)
      else if Match PP_ELSE line \<noteq> None then
        (case pp_stack st of
           [] \<Rightarrow> st
         | p # ps \<Rightarrow>
             (let (p1, i) =
                    (if \<not> seen_else p
                     then (let (saved, i) = deepcopy (next_bid st) (stack st)
                           in (p\<lparr>seen_else := True, stack_before_else := saved\<rparr>, i))
                     else (p, next_bid st));
                  (restored, j) = deepcopy i (stack_before_if p1)
              in st\<lparr>pp_stack := p1 # ps, stack := restored, next_bid := j\<rparr>))
      else if Match PP_ENDIF line \<noteq> None then
        (case pp_stack st of
           [] \<Rightarrow> st
         | p # ps \<Rightarrow>
             (let st1 = (if seen_else p then st\<lparr>stack := stack_before_else p\<rparr> else st)
              in st1\<lparr>pp_stack := ps\<rparr>))
      else st)"

section \<open>Template argument lists\<close>

lemma FindEndOfTemplate_bounds:
  "FindEndOfExpressionInLine line i s = (p, s') \<Longrightarrow> p = -1 \<or> int i + 1 \<le> p \<and> p \<le> int (length line)"
proof (induction line i s rule: FindEndOfExpressionInLine.induct)
  case (1 line i s)
  have stop: "p = -1 \<or> p = int i + 1" if "end_step line i s = Stop p" for p
    using that by (auto simp: end_step_def Let_def simp del: list.set split: if_splits)
  show ?case
  proof (cases "i < length line")
    case True
    show ?thesis
    proof (cases "end_step line i s")
      case (Go s1 k)
      with True 1(2) have "FindEndOfExpressionInLine line (Suc i) s1 = (p, s')"
        by (subst (asm) FindEndOfExpressionInLine.simps) simp
      from 1(1)[OF True Go this] show ?thesis by auto
    next
      case (Stop q)
      with True 1(2) have "q = p" by (subst (asm) FindEndOfExpressionInLine.simps) simp
      with stop [OF Stop] True show ?thesis by auto
    qed
  next
    case False
    with 1(2) show ?thesis by (subst (asm) FindEndOfExpressionInLine.simps) simp
  qed
qed

lemma close_rest_bounds:
  "close_rest ls num line n s = (l, m, p) \<Longrightarrow> p = -1 \<or> n < m \<and> m \<le> n + length ls"
  by (induction ls num line n s rule: close_rest.induct)
    (fastforce simp: Let_def split: option.splits list.splits if_splits prod.splits)+

lemma CloseExpression_bounds:
  assumes "CloseExpression cl n pos = Inr (l, m, p)" "\<not> p < 0" "n < cl_num_lines cl"
  shows "n < m \<and> m < cl_num_lines cl \<or> m = n \<and> int pos < p"
proof -
  obtain q s where find: "FindEndOfExpressionInLine (cl_elided cl ! n) pos [] = (q, s)" by fastforce
  have "n < length (cl_elided cl)" using assms(1) by (auto simp: CloseExpression_def py_nth_def split: if_splits)
  with assms(1) have "(l, m, p) = (cl_elided cl ! n, cl_num_lines cl, -1) \<or> (l, m, p) = (cl_elided cl ! n, n, q) \<or>
    close_rest (take (cl_num_lines cl - 1 - n) (drop (Suc n) (cl_elided cl))) (cl_num_lines cl) (cl_elided cl ! n) n s = (l, m, p)"
    using find by (auto simp: CloseExpression_def NumLines_def split: if_splits)
  with FindEndOfTemplate_bounds [OF find] assms(2,3) show ?thesis
    by (auto dest!: close_rest_bounds)
qed

definition TEMPLATE_TOKEN :: string where
  "TEMPLATE_TOKEN = ''^[^{};=`[`]`.<>]*(.)''"

lemma TEMPLATE_TOKEN_inv:
  assumes "Match TEMPLATE_TOKEN s = Some m"
  shows "m_text m \<noteq> [] \<and> length (m_text m) \<le> length s \<and> last (m_text m) = hd (grp m 1)"
proof -
  have "compile (bs TEMPLATE_TOKEN) = Some (Seq Bol (Seq (Star True (Cls True [CChr (CHR ''{''), CChr (CHR ''}''),
      CChr (CHR '';''), CChr (CHR ''=''), CChr (CHR ''[''), CChr (CHR '']''), CChr (CHR ''.''), CChr (CHR ''<''),
      CChr (CHR ''>'')])) (Grp 1 Any)))" by code_simp
  from Match_inv [OF assms this] show ?thesis
    by (auto simp: ms_inv grp_def group_def simp del: ms.simps)
qed

function InTemplateArgumentList :: "cleansed_lines \<Rightarrow> nat \<Rightarrow> nat \<Rightarrow> bool res" where
  "InTemplateArgumentList clean_lines linenum pos =
     (if linenum < NumLines clean_lines then
        (case py_nth (cl_elided clean_lines) (int linenum) of
           Inl e \<Rightarrow> Inl e
         | Inr line \<Rightarrow>
             (case Match TEMPLATE_TOKEN (drop pos line) of
                None \<Rightarrow> InTemplateArgumentList clean_lines (Suc linenum) 0
              | Some m \<Rightarrow>
                  (if grp m 1 \<in> {''{'', ''}'', '';''} then Inr False
                   else if grp m 1 \<in> {''>'', ''='', ''['', '']'', ''.''} then Inr True
                   else if grp m 1 \<noteq> ''<'' then
                     (if pos + length (m_text m) + 1 \<ge> length line
                      then InTemplateArgumentList clean_lines (Suc linenum) 0
                      else InTemplateArgumentList clean_lines linenum (pos + length (m_text m) + 1))
                   else
                     (case CloseExpression clean_lines linenum (pos + length (m_text m) - 1) of
                        Inl e \<Rightarrow> Inl e
                      | Inr (_, end_line, end_pos) \<Rightarrow>
                          (if end_pos < 0 then Inr False
                           else InTemplateArgumentList clean_lines end_line (nat end_pos))))))
      else Inr False)"
  by pat_completeness auto

termination InTemplateArgumentList
proof (relation "measures [\<lambda>(cl, n, pos). cl_num_lines cl - n, \<lambda>(cl, n, pos). length (cl_elided cl ! n) - pos]",
    goal_cases)
  case (5 cl n pos line m r x y end_line end_pos)
  then have n: "n < cl_num_lines cl" "cl_elided cl ! n = line"
    by (auto simp: NumLines_def py_nth_def split: if_splits)
  from TEMPLATE_TOKEN_inv [OF 5(3)] have m: "1 \<le> length (m_text m)" "pos + length (m_text m) \<le> length line"
    by (cases "m_text m"; auto simp: Suc_le_eq)+
  from 5 have "CloseExpression cl n (pos + length (m_text m) - 1) = Inr (x, end_line, end_pos)" by simp
  from CloseExpression_bounds [OF this 5(10) n(1)] m n 5(10) show ?case by auto
qed (auto simp: NumLines_def py_nth_def split: if_splits)

declare InTemplateArgumentList.simps [simp del]

section \<open>Updating with a line\<close>

text \<open>The innermost block is changed in place: its parentheses and its assembly state.\<close>

definition update_asm :: "string \<Rightarrow> int \<Rightarrow> block \<Rightarrow> block" where
  "update_asm line depth_change b =
     (if inline_asm b \<in> {NO_ASM, END_ASM} then
        (if depth_change \<noteq> 0 \<and> open_parentheses b = 1 \<and> Match MATCH_ASM line \<noteq> None
         then b\<lparr>inline_asm := INSIDE_ASM\<rparr> else b\<lparr>inline_asm := NO_ASM\<rparr>)
      else if inline_asm b = INSIDE_ASM \<and> open_parentheses b = 0
      then b\<lparr>inline_asm := END_ASM\<rparr>
      else b)"

definition count_parentheses :: "string \<Rightarrow> nesting_state \<Rightarrow> nesting_state" where
  "count_parentheses line st =
     (case stack st of
        [] \<Rightarrow> st
      | b # later \<Rightarrow>
          (let depth_change = int (count_sub ''('' line) - int (count_sub '')'' line);
               b1 = b\<lparr>open_parentheses := open_parentheses b + depth_change\<rparr>
           in st\<lparr>stack := update_asm line depth_change b1 # later\<rparr>))"

definition push :: "block \<Rightarrow> nesting_state \<Rightarrow> nesting_state" where
  "push b st = st\<lparr>stack := b # stack st, next_bid := Suc (next_bid st)\<rparr>"

definition NAMESPACE :: string where
  "NAMESPACE = ''^`s*namespace`b`s*([:`w]+)?(.*)$''"

lemma NAMESPACE_length:
  assumes "Match NAMESPACE s = Some m"
  shows "length (grp m 2) < length s"
proof -
  have "compile (bs NAMESPACE) = Some (Seq Bol (Seq (Star True (Cls False [CSpace])) (lits ''namespace'' (Seq WordB
      (Seq (Star True (Cls False [CSpace])) (Seq (Alt (Seq (Grp 1 (Seq (Cls False [CChr (CHR '':''), CWord])
        (Star True (Cls False [CChr (CHR '':''), CWord])))) Eps) Eps) (Seq (Grp 2 (Star True Any)) Eol)))))))"
    by code_simp
  from Match_inv [OF assms this] show ?thesis
    by (auto simp: ms_inv grp_def group_def simp del: ms.simps lits.simps)
qed

function namespaces :: "nat \<Rightarrow> string \<Rightarrow> nesting_state \<Rightarrow> nesting_state \<times> string" where
  "namespaces linenum line st =
     (case Match NAMESPACE line of
        None \<Rightarrow> (st, line)
      | Some m \<Rightarrow>
          (let ns = new_namespace (next_bid st) (grp m 1) linenum; line1 = grp m 2
           in case find_sub ''{'' line1 of
                None \<Rightarrow> namespaces linenum line1 (push ns st)
              | Some k \<Rightarrow>
                  namespaces linenum (drop (k + 1) line1) (push (ns\<lparr>seen_open_brace := True\<rparr>) st)))"
  by pat_completeness auto
termination
  by (relation "measure (\<lambda>(_, line, _). length line)") (auto dest: NAMESPACE_length)

declare namespaces.simps [simp del]

definition CLASS_DECL :: string where
  "CLASS_DECL = ''^(`s*(?:template`s*<[`w`s<>,:]*>`s*)?(class|struct)`s+(?:[A-Z_]+`s+)*(`w+(?:::`w+)*))(.*)$''"

definition class_declaration ::
  "cleansed_lines \<Rightarrow> nat \<Rightarrow> string \<Rightarrow> nesting_state \<Rightarrow> (nesting_state \<times> string) res" where
  "class_declaration clean_lines linenum line st =
     (case Match CLASS_DECL line of
        None \<Rightarrow> Inr (st, line)
      | Some m \<Rightarrow>
          (if stack st = [] \<or> open_parentheses (hd (stack st)) = 0 then
             res_bind (InTemplateArgumentList clean_lines linenum (length (grp m 1))) (\<lambda>template.
               if template then Inr (st, line)
               else res_bind (new_class (next_bid st) (grp m 3) (grp m 2) clean_lines linenum) (\<lambda>c.
                      Inr (push c st, grp m 4)))
           else Inr (st, line)))"

definition check_begin :: "cleansed_lines \<Rightarrow> nat \<Rightarrow> nesting_state \<Rightarrow> nesting_state res" where
  "check_begin clean_lines linenum st =
     (if SeenOpenBrace st then Inr st
      else res_bind (CheckBegin clean_lines linenum (hd (stack st))) (\<lambda>b.
             Inr (st\<lparr>stack := b # tl (stack st)\<rparr>)))"

definition ACCESS :: string where
  "ACCESS = ''^(.*)`b(public|private|protected|signals)(`s+(?:slots`s*)?)?:(?:[^:]|$)''"

definition update_access :: "string \<Rightarrow> nat \<Rightarrow> string \<Rightarrow> nesting_state \<Rightarrow> nesting_state \<times> report list" where
  "update_access filename linenum line st =
     (case stack st of
        [] \<Rightarrow> (st, [])
      | b # later \<Rightarrow>
          (case kind b of
             ClassInfo c \<Rightarrow>
               (case Match ACCESS line of
                  None \<Rightarrow> (st, [])
                | Some m \<Rightarrow>
                    (st\<lparr>stack := b\<lparr>kind := ClassInfo (c\<lparr>access := grp m 2\<rparr>)\<rparr> # later\<rparr>,
                     if length (grp m 1) \<noteq> class_indent c + 1 \<and> Match ''^`s*$'' (grp m 1) \<noteq> None
                     then [Report filename (int linenum) ''whitespace/indent'' 3
                             (grp m 2 @ grp m 3 @ '': should be indented +1 space inside '' @ class_label c)]
                     else []))
           | _ \<Rightarrow> (st, [])))"

definition BRACE :: string where
  "BRACE = ''^[^{;)}]*([{;)}])(.*)$''"

abbreviation brace_cls :: "cls list" where
  "brace_cls \<equiv> [CChr (CHR ''{''), CChr (CHR '';''), CChr (CHR '')''), CChr (CHR ''}'')]"

lemma in_brace_cls: "in_set neg brace_cls c \<longleftrightarrow> (c \<in> set ''{;)}'') \<noteq> neg"
  by auto

lemma BRACE_inv:
  assumes "Match BRACE s = Some m"
  shows "\<exists>w c. (s = w @ c # grp m 2 \<or> s = w @ c # grp m 2 @ [nl]) \<and> grp m 1 = [c] \<and> c \<in> set ''{;)}'' \<and>
    list_all (\<lambda>d. d \<notin> set ''{;)}'') w \<and> nl \<notin> set (grp m 2)"
proof -
  have "compile (bs BRACE) = Some (Seq Bol (Seq (Star True (Cls True brace_cls))
      (Seq (Grp 1 (Cls False brace_cls)) (Seq (Grp 2 (Star True Any)) Eol))))" by code_simp
  from Match_inv [OF assms this]
  have "\<exists>w c. (s = w @ c # grp m 2 \<or> s = w @ c # grp m 2 @ [nl]) \<and> grp m 1 = [c] \<and>
    in_set False brace_cls c \<and> list_all (in_set True brace_cls) w \<and> nl \<notin> set (grp m 2)"
    by (auto simp: ms_inv grp_def group_def simp del: ms.simps in_set.simps)
  then show ?thesis unfolding in_brace_cls by simp
qed

lemma BRACE_length: "Match BRACE s = Some m \<Longrightarrow> length (grp m 2) < length s"
  by (drule BRACE_inv) auto

definition open_brace :: "nat \<Rightarrow> string \<Rightarrow> nesting_state \<Rightarrow> nesting_state" where
  "open_brace linenum line st =
     (if \<not> SeenOpenBrace st
      then st\<lparr>stack := (hd (stack st))\<lparr>seen_open_brace := True\<rparr> # tl (stack st)\<rparr>
      else if Match ''^extern`s*\"[^\"]*\"`s*`{'' line \<noteq> None
      then push (new_extern_c (next_bid st) linenum) st
      else (let b = new_block (next_bid st) linenum True
            in push (if Match MATCH_ASM line \<noteq> None then b\<lparr>inline_asm := BLOCK_ASM\<rparr> else b) st))"

definition pop_incomplete :: "nesting_state \<Rightarrow> nesting_state" where
  "pop_incomplete st = (if \<not> SeenOpenBrace st then st\<lparr>stack := tl (stack st)\<rparr> else st)"

definition close_brace ::
  "string \<Rightarrow> cleansed_lines \<Rightarrow> nat \<Rightarrow> nesting_state \<Rightarrow> (nesting_state \<times> report list) res" where
  "close_brace filename clean_lines linenum st =
     (case stack st of
        [] \<Rightarrow> Inr (st, [])
      | b # later \<Rightarrow>
          res_bind (CheckEnd filename clean_lines linenum b) (\<lambda>rs. Inr (st\<lparr>stack := later\<rparr>, rs)))"

definition brace_token ::
  "string \<Rightarrow> cleansed_lines \<Rightarrow> nat \<Rightarrow> string \<Rightarrow> string \<Rightarrow> nesting_state \<Rightarrow> (nesting_state \<times> report list) res" where
  "brace_token filename clean_lines linenum token line st =
     (if token = ''{'' then Inr (open_brace linenum line st, [])
      else if token = '';'' \<or> token = '')'' then Inr (pop_incomplete st, [])
      else close_brace filename clean_lines linenum st)"

function braces ::
  "string \<Rightarrow> cleansed_lines \<Rightarrow> nat \<Rightarrow> string \<Rightarrow> nesting_state \<Rightarrow> (nesting_state \<times> report list) res" where
  "braces filename clean_lines linenum line st =
     (case Match BRACE line of
        None \<Rightarrow> Inr (st, [])
      | Some m \<Rightarrow>
          (case brace_token filename clean_lines linenum (grp m 1) line st of
             Inl e \<Rightarrow> Inl e
           | Inr (st1, rs) \<Rightarrow>
               res_bind (braces filename clean_lines linenum (grp m 2) st1) (\<lambda>(st2, qs). Inr (st2, rs @ qs))))"
  by pat_completeness auto
termination
  by (relation "measure (\<lambda>(_, _, _, line, _). length line)") (auto dest: BRACE_length)

declare braces.simps [simp del]

definition save_top :: "nesting_state \<Rightarrow> nesting_state" where
  "save_top st = st\<lparr>previous_stack_top := (case stack st of [] \<Rightarrow> None | b # _ \<Rightarrow> Some b)\<rparr>"

definition Update ::
  "string \<Rightarrow> cleansed_lines \<Rightarrow> nat \<Rightarrow> nesting_state \<Rightarrow> (nesting_state \<times> report list) res" where
  "Update filename clean_lines linenum st =
     res_bind (py_nth (cl_elided clean_lines) (int linenum)) (\<lambda>line.
       (let st1 = count_parentheses line (UpdatePreprocessor line (save_top st));
            (st2, line2) = namespaces linenum line st1
        in res_bind (class_declaration clean_lines linenum line2 st2) (\<lambda>(st3, line3).
             res_bind (check_begin clean_lines linenum st3) (\<lambda>st4.
               (let (st5, rs) = update_access filename linenum line3 st4
                in res_bind (braces filename clean_lines linenum line3 st5) (\<lambda>(st6, qs).
                     Inr (st6, rs @ qs)))))))"

definition is_class :: "block \<Rightarrow> bool" where
  "is_class b \<longleftrightarrow> (case kind b of ClassInfo _ \<Rightarrow> True | _ \<Rightarrow> False)"

definition InnermostClass :: "nesting_state \<Rightarrow> block option" where
  "InnermostClass st = find is_class (stack st)"

definition CheckCompletedBlocks :: "string \<Rightarrow> nesting_state \<Rightarrow> report list" where
  "CheckCompletedBlocks filename st =
     concat (map (\<lambda>b. case kind b of
         ClassInfo c \<Rightarrow> [Report filename (int (starting_linenum b)) ''build/class'' 5
                          (''Failed to find complete declaration of class '' @ c_name c)]
       | NamespaceInfo name \<Rightarrow> [Report filename (int (starting_linenum b)) ''build/namespaces'' 5
                                  (''Failed to find complete declaration of namespace '' @ name)]
       | _ \<Rightarrow> [])
     (rev (stack st)))"

section \<open>Identities\<close>

text \<open>
  The program changes blocks in place through the stack, and the saved stacks of open
  conditionals hold deep copies. The model keeps blocks as values; this is right as long as no
  object is reachable from two places, since then a change through one reference is seen
  through no other. \<open>identities\<close> lists the objects of the stack and of all saved stacks: each
  of them occurs once, and the next free identity is above all of them. \<open>assign\<close> is the change
  in place as the program makes it, seen through every reference. (\<open>previous_stack_top\<close> does
  refer to an object of the stack; it is only asked for its class and its identity.)
\<close>

definition saved_ids :: "pp_info \<Rightarrow> nat list" where
  "saved_ids p = map bid (stack_before_if p) @ map bid (stack_before_else p)"

definition identities :: "nesting_state \<Rightarrow> nat list" where
  "identities st = map bid (stack st) @ concat (map saved_ids (pp_stack st))"

definition ids_ok :: "nat \<Rightarrow> nat list \<Rightarrow> bool" where
  "ids_ok n xs \<longleftrightarrow> distinct xs \<and> (\<forall>i \<in> set xs. i < n)"

definition nest_ok :: "nesting_state \<Rightarrow> bool" where
  "nest_ok st \<longleftrightarrow> ids_ok (next_bid st) (identities st)"

definition assign :: "nat \<Rightarrow> (block \<Rightarrow> block) \<Rightarrow> nesting_state \<Rightarrow> nesting_state" where
  "assign i change st =
     (let blocks = map (\<lambda>b. if bid b = i then change b else b)
      in st\<lparr>stack := blocks (stack st),
             pp_stack := map (\<lambda>p. p\<lparr>stack_before_if := blocks (stack_before_if p), stack_before_else := blocks (stack_before_else p)\<rparr>) (pp_stack st)\<rparr>)"

definition change_top :: "(block \<Rightarrow> block) \<Rightarrow> nesting_state \<Rightarrow> nesting_state" where
  "change_top change st = (case stack st of [] \<Rightarrow> st | b # later \<Rightarrow> st\<lparr>stack := change b # later\<rparr>)"

lemma ids_insert: "ids_ok n (xs @ ys) \<Longrightarrow> n \<le> j \<Longrightarrow> ids_ok j (xs @ [n..<j] @ ys)"
  unfolding ids_ok_def by (auto simp: ball_Un simp flip: not_le intro: order.strict_trans2)

lemma ids_remove: "ids_ok n (xs @ ys @ zs) \<Longrightarrow> ids_ok n (xs @ zs)"
  by (auto simp: ids_ok_def)

lemma assign_top:
  assumes "nest_ok st" "stack st = b # later"
  shows "assign (bid b) change st = change_top change st"
proof -
  have other: "map (\<lambda>c. if bid c = bid b then change c else c) bs = bs" if "bid b \<notin> bid ` set bs" for bs
    by (rule map_idI) (use that in \<open>auto simp: image_iff\<close>)
  from assms have new: "bid b \<notin> bid ` set later" "\<forall>p \<in> set (pp_stack st). bid b \<notin> set (saved_ids p)"
    by (auto simp: nest_ok_def identities_def ids_ok_def)
  then have "map (\<lambda>p. p\<lparr>stack_before_if := map (\<lambda>c. if bid c = bid b then change c else c) (stack_before_if p),
      stack_before_else := map (\<lambda>c. if bid c = bid b then change c else c) (stack_before_else p)\<rparr>) (pp_stack st) = pp_stack st"
    by (intro map_idI) (auto simp: saved_ids_def other)
  with new(1) assms(2) other show ?thesis by (simp add: assign_def change_top_def)
qed

lemma deepcopy_bids: "deepcopy i s = (cs, j) \<Longrightarrow> map bid cs = [i..<j] \<and> j = i + length s"
proof (induction s arbitrary: i cs j)
  case (Cons b s)
  obtain cs' j' where rec: "deepcopy (Suc i) s = (cs', j')" by fastforce
  from Cons.IH [OF rec] Cons.prems rec show ?case by (auto simp: upt_conv_Cons)
qed simp

definition erase :: "block \<Rightarrow> block" where "erase b = b\<lparr>bid := 0\<rparr>"

lemma deepcopy_erase: "deepcopy i s = (cs, j) \<Longrightarrow> map erase cs = map erase s"
  by (induction s arbitrary: i cs j) (auto simp: erase_def split: prod.splits)

lemma UpdatePreprocessor_ok:
  assumes "nest_ok st"
  shows "nest_ok (UpdatePreprocessor line st)"
proof -
  let ?n = "next_bid st" and ?S = "map bid (stack st)"
  obtain cs i where copy: "deepcopy ?n (stack st) = (cs, i)" by fastforce
  then have ids: "map bid cs = [?n..<i]" "?n \<le> i" using deepcopy_bids [OF copy] by auto
  show ?thesis
  proof (cases "Match PP_IF line \<noteq> None \<or> pp_stack st = []")
    case True
    from assms have "ids_ok ?n (?S @ concat (map saved_ids (pp_stack st)))" by (simp add: nest_ok_def identities_def)
    from ids_insert [OF this ids(2)] assms copy True show ?thesis
      by (auto simp: UpdatePreprocessor_def nest_ok_def identities_def saved_ids_def ids(1))
  next
    case False
    then obtain p ps where pp: "pp_stack st = p # ps" by (cases "pp_stack st") auto
    let ?B = "map bid (stack_before_if p)" and ?E = "map bid (stack_before_else p)" and ?R = "concat (map saved_ids ps)"
    from assms have all: "ids_ok ?n (?S @ ?B @ ?E @ ?R)" by (simp add: nest_ok_def identities_def saved_ids_def pp)
    note kept = ids_remove [of ?n "[]" ?S, simplified, OF all]
    obtain r1 k1 where r1: "deepcopy i (stack_before_if p) = (r1, k1)" by fastforce
    obtain r2 k2 where r2: "deepcopy ?n (stack_before_if p) = (r2, k2)" by fastforce
    have ids1: "map bid r1 = [i..<k1]" "i \<le> k1" and ids2: "map bid r2 = [?n..<k2]" "?n \<le> k2"
      using deepcopy_bids [OF r1] deepcopy_bids [OF r2] by auto
    have "nest_ok (st\<lparr>pp_stack := p\<lparr>seen_else := True, stack_before_else := cs\<rparr> # ps, stack := r1, next_bid := k1\<rparr>)"
      using ids_insert [of i "[]", simplified, OF ids_insert [OF ids_remove [OF kept] ids(2)] ids1(2)]
      by (simp add: nest_ok_def identities_def saved_ids_def ids(1) ids1(1))
    moreover have "nest_ok (st\<lparr>pp_stack := p # ps, stack := r2, next_bid := k2\<rparr>)"
      using ids_insert [of ?n "[]", simplified, OF kept ids2(2)] by (simp add: nest_ok_def identities_def saved_ids_def ids2(1))
    moreover have "nest_ok (st\<lparr>stack := stack_before_else p, pp_stack := ps\<rparr>)"
      using ids_remove [of ?n "[]" ?B, simplified, OF kept] by (simp add: nest_ok_def identities_def)
    moreover have "nest_ok (st\<lparr>pp_stack := ps\<rparr>)"
      using ids_remove [of ?n ?S "?B @ ?E" ?R] all by (simp add: nest_ok_def identities_def)
    ultimately show ?thesis using assms False pp copy r1 r2 by (simp add: UpdatePreprocessor_def)
  qed
qed

lemma push_ok:
  assumes "nest_ok st" "bid b = next_bid st"
  shows "nest_ok (push b st)"
  using ids_insert [of "next_bid st" "[]" "identities st" "Suc (next_bid st)"] assms
  by (simp add: nest_ok_def identities_def push_def)

lemma same_ids_ok: "nest_ok st \<Longrightarrow> map bid s = map bid (stack st) \<Longrightarrow> nest_ok (st\<lparr>stack := s\<rparr>)"
  by (simp add: nest_ok_def identities_def)

lemma pop_ok: "nest_ok st \<Longrightarrow> nest_ok (st\<lparr>stack := tl (stack st)\<rparr>)"
  by (cases "stack st") (auto simp: nest_ok_def identities_def ids_ok_def)

lemma new_bid [simp]:
  "bid (new_block i n b) = i" "bid (new_extern_c i n) = i" "bid (new_namespace i nm n) = i"
  by (simp_all add: new_block_def new_extern_c_def new_namespace_def)

lemma new_class_bid: "new_class i nm k cl n = Inr b \<Longrightarrow> bid b = i"
  by (auto simp: new_class_def Let_def)

lemma save_top_ok [simp]: "nest_ok (save_top st) = nest_ok st"
  by (simp add: save_top_def nest_ok_def identities_def)

lemma update_asm_bid [simp]: "bid (update_asm l d b) = bid b"
  by (simp add: update_asm_def)

lemma count_parentheses_ok: "nest_ok st \<Longrightarrow> nest_ok (count_parentheses l st)"
  by (auto simp: count_parentheses_def Let_def intro!: same_ids_ok split: list.splits)

lemma namespaces_ok: "nest_ok st \<Longrightarrow> namespaces n l st = (st', l') \<Longrightarrow> nest_ok st'"
proof (induction n l st rule: namespaces.induct)
  case (1 n l st)
  show ?case
  proof (cases "Match NAMESPACE l")
    case None
    with 1(3,4) show ?thesis by (subst (asm) namespaces.simps) simp
  next
    case (Some m)
    show ?thesis
    proof (cases "find_sub ''{'' (grp m 2)")
      case None
      have "nest_ok (push (new_namespace (next_bid st) (grp m 1) n) st)" by (simp add: push_ok 1(3))
      from 1(1)[OF Some refl refl None this] 1(4) Some None show ?thesis
        by (subst (asm) (2) namespaces.simps) simp
    next
      case found: (Some k)
      have "nest_ok (push (new_namespace (next_bid st) (grp m 1) n\<lparr>seen_open_brace := True\<rparr>) st)"
        by (simp add: push_ok 1(3))
      from 1(2)[OF Some refl refl found this] 1(4) Some found show ?thesis
        by (subst (asm) (2) namespaces.simps) simp
    qed
  qed
qed

lemma class_declaration_ok:
  "nest_ok st \<Longrightarrow> class_declaration cl n l st = Inr (st', l') \<Longrightarrow> nest_ok st'"
  by (auto simp: class_declaration_def push_ok new_class_bid split: option.splits if_splits)

lemma check_begin_ok: "nest_ok st \<Longrightarrow> check_begin cl n st = Inr st' \<Longrightarrow> nest_ok st'"
  by (cases "stack st")
    (auto simp: check_begin_def CheckBegin_def SeenOpenBrace_def intro!: same_ids_ok split: if_splits block_kind.splits)

lemma update_access_ok: "nest_ok st \<Longrightarrow> nest_ok (fst (update_access f n l st))"
  by (auto simp: update_access_def intro!: same_ids_ok split: list.splits block_kind.splits option.splits)

lemma brace_token_ok:
  "nest_ok st \<Longrightarrow> brace_token f cl n t l st = Inr (st', rs) \<Longrightarrow> nest_ok st'"
  by (cases "stack st")
    (auto simp: brace_token_def open_brace_def pop_incomplete_def close_brace_def SeenOpenBrace_def Let_def
      push_ok pop_ok same_ids_ok split: if_splits dest: pop_ok)

lemma braces_ok: "nest_ok st \<Longrightarrow> braces f cl n l st = Inr (st', rs) \<Longrightarrow> nest_ok st'"
proof (induction f cl n l st arbitrary: st' rs rule: braces.induct)
  case (1 f cl n l st)
  show ?case
  proof (cases "Match BRACE l")
    case None
    with 1(2,3) show ?thesis by (subst (asm) braces.simps) simp
  next
    case (Some m)
    with 1(3) obtain st1 r1 r2 where tok: "brace_token f cl n (grp m 1) l st = Inr (st1, r1)"
      and rec: "braces f cl n (grp m 2) st1 = Inr (st', r2)"
      by (subst (asm) braces.simps) (auto split: sum.splits)
    from 1(1)[OF Some tok refl brace_token_ok [OF 1(2) tok] rec] show ?thesis .
  qed
qed

lemma UpdateE:
  assumes "Update f cl n st = Inr (st', rs)"
  obtains st2 l2 st3 l3 st4 rs2 where "n < length (cl_elided cl)"
    "namespaces n (cl_elided cl ! n) (count_parentheses (cl_elided cl ! n)
       (UpdatePreprocessor (cl_elided cl ! n) (save_top st))) = (st2, l2)"
    "class_declaration cl n l2 st2 = Inr (st3, l3)" "check_begin cl n st3 = Inr st4"
    "braces f cl n l3 (fst (update_access f n l3 st4)) = Inr (st', rs2)"
    "rs = snd (update_access f n l3 st4) @ rs2"
proof -
  from assms have n: "n < length (cl_elided cl)"
    by (auto simp: Update_def py_nth_def split: if_splits)
  obtain st2 l2 where ns: "namespaces n (cl_elided cl ! n) (count_parentheses (cl_elided cl ! n)
       (UpdatePreprocessor (cl_elided cl ! n) (save_top st))) = (st2, l2)" by fastforce
  from assms n ns obtain st3 l3 st4 where st: "class_declaration cl n l2 st2 = Inr (st3, l3)" "check_begin cl n st3 = Inr st4"
    by (auto simp: Update_def Let_def)
  obtain st5 rs1 where acc: "update_access f n l3 st4 = (st5, rs1)" by fastforce
  from assms n ns st acc obtain rs2 where "braces f cl n l3 st5 = Inr (st', rs2)" "rs = rs1 @ rs2"
    by (auto simp: Update_def Let_def)
  with that [OF n ns st] acc show ?thesis by simp
qed

lemma Update_ok:
  assumes "nest_ok st" "Update f cl n st = Inr (st', rs)"
  shows "nest_ok st'"
  using assms(2)
proof (rule UpdateE)
  fix st2 l2 st3 l3 st4 rs2
  assume ns: "namespaces n (cl_elided cl ! n) (count_parentheses (cl_elided cl ! n)
       (UpdatePreprocessor (cl_elided cl ! n) (save_top st))) = (st2, l2)"
    and c: "class_declaration cl n l2 st2 = Inr (st3, l3)" and b: "check_begin cl n st3 = Inr st4"
    and br: "braces f cl n l3 (fst (update_access f n l3 st4)) = Inr (st', rs2)"
  have "nest_ok st2"
    by (rule namespaces_ok [OF _ ns]) (simp add: assms(1) UpdatePreprocessor_ok count_parentheses_ok)
  from braces_ok [OF update_access_ok [OF check_begin_ok [OF class_declaration_ok [OF this c] b]] br]
  show "nest_ok st'" .
qed

section \<open>Conditional compilation\<close>

text \<open>Only the directives change the stack of saved states.\<close>

lemma push_pp [simp]: "pp_stack (push b st) = pp_stack st"
  by (simp add: push_def)

lemma namespaces_pp: "namespaces n l st = (st', l') \<Longrightarrow> pp_stack st' = pp_stack st"
proof (induction n l st rule: namespaces.induct)
  case (1 n l st)
  show ?case
  proof (cases "Match NAMESPACE l")
    case None
    with 1(3) show ?thesis by (subst (asm) namespaces.simps) simp
  next
    case (Some m)
    show ?thesis
    proof (cases "find_sub ''{'' (grp m 2)")
      case None
      from 1(1)[OF Some refl refl None] 1(3) Some None show ?thesis
        by (subst (asm) (2) namespaces.simps) simp
    next
      case found: (Some k)
      from 1(2)[OF Some refl refl found] 1(3) Some found show ?thesis
        by (subst (asm) (2) namespaces.simps) simp
    qed
  qed
qed

lemma step_pp:
  "pp_stack (count_parentheses l st) = pp_stack st"
  "class_declaration cl n l st = Inr (st', l') \<Longrightarrow> pp_stack st' = pp_stack st"
  "check_begin cl n st = Inr st' \<Longrightarrow> pp_stack st' = pp_stack st"
  "pp_stack (fst (update_access f n l st)) = pp_stack st"
  "brace_token f cl n t l st = Inr (st', rs) \<Longrightarrow> pp_stack st' = pp_stack st"
  by (auto simp: count_parentheses_def class_declaration_def check_begin_def update_access_def Let_def
      brace_token_def open_brace_def pop_incomplete_def close_brace_def
      split: list.splits option.splits if_splits block_kind.splits)

lemma braces_pp: "braces f cl n l st = Inr (st', rs) \<Longrightarrow> pp_stack st' = pp_stack st"
proof (induction f cl n l st arbitrary: st' rs rule: braces.induct)
  case (1 f cl n l st)
  show ?case
  proof (cases "Match BRACE l")
    case None
    with 1(2) show ?thesis by (subst (asm) braces.simps) simp
  next
    case (Some m)
    with 1(2) obtain st1 r1 r2 where tok: "brace_token f cl n (grp m 1) l st = Inr (st1, r1)"
      and rec: "braces f cl n (grp m 2) st1 = Inr (st', r2)"
      by (subst (asm) braces.simps) (auto split: sum.splits)
    from 1(1)[OF Some tok refl rec] step_pp(5)[OF tok] show ?thesis by simp
  qed
qed

lemma save_top_fields [simp]:
  "stack (save_top st) = stack st" "pp_stack (save_top st) = pp_stack st" "next_bid (save_top st) = next_bid st"
  by (simp_all add: save_top_def)

lemma Update_pp:
  assumes "Update f cl n st = Inr (st', rs)"
  shows "pp_stack st' = pp_stack (UpdatePreprocessor (cl_elided cl ! n) (save_top st))"
  using assms
  by (rule UpdateE) (simp add: step_pp(1) namespaces_pp step_pp(2,3,4) braces_pp)

definition directive :: "string \<Rightarrow> bool" where
  "directive l \<longleftrightarrow> Match PP_IF l \<noteq> None \<or> Match PP_ELSE l \<noteq> None \<or> Match PP_ENDIF l \<noteq> None"

lemma UpdatePreprocessor_other: "\<not> directive l \<Longrightarrow> UpdatePreprocessor l st = st"
  by (simp add: UpdatePreprocessor_def directive_def)

fun Updates :: "string \<Rightarrow> cleansed_lines \<Rightarrow> nat list \<Rightarrow> nesting_state \<Rightarrow> (nesting_state \<times> report list) res" where
  "Updates filename clean_lines [] st = Inr (st, [])"
| "Updates filename clean_lines (n # ns) st =
     res_bind (Update filename clean_lines n st) (\<lambda>(st1, rs).
       res_bind (Updates filename clean_lines ns st1) (\<lambda>(st2, qs). Inr (st2, rs @ qs)))"

lemma Updates_pp:
  "Updates f cl ns st = Inr (st', rs) \<Longrightarrow> list_all (\<lambda>n. \<not> directive (cl_elided cl ! n)) ns \<Longrightarrow>
     pp_stack st' = pp_stack st"
proof (induction ns arbitrary: st rs)
  case (Cons n ns)
  then obtain st1 r1 r2 where 1: "Update f cl n st = Inr (st1, r1)" "Updates f cl ns st1 = Inr (st', r2)"
    by auto
  from Cons.IH [OF 1(2)] Update_pp [OF 1(1)] Cons.prems(2) show ?case
    by (simp add: UpdatePreprocessor_other)
qed simp

lemma Updates_ok: "nest_ok st \<Longrightarrow> Updates f cl ns st = Inr (st', rs) \<Longrightarrow> nest_ok st'"
  by (induction ns arbitrary: st rs) (auto dest: Update_ok)

text \<open>The three directives exclude one another.\<close>

lemma PP_first_word:
  assumes "Match p l = Some m" "compile (bs p) = Some (Seq Bol (Seq (Star True (Cls False [CSpace]))
    (Seq (Chr (CHR ''#'')) (Seq (Star True (Cls False [CSpace])) (lits w r)))))"
    "w = c # w'" "\<not> is_space c"
  shows "\<exists>u v t. l = u @ CHR ''#'' # v @ c # t \<and> list_all is_space u \<and> list_all is_space v"
  using Match_inv [OF assms(1,2)] assms(3,4)
  by (auto simp: ms_inv list_all_iff simp del: ms.simps lits.simps)

lemma pp_if_push:
  assumes "Match PP_IF l \<noteq> None"
  shows "\<exists>saved. pp_stack (UpdatePreprocessor l st) =
    \<lparr>stack_before_if = saved, stack_before_else = [], seen_else = False\<rparr> # pp_stack st \<and>
    map erase saved = map erase (stack st)"
  using assms deepcopy_erase by (auto simp: UpdatePreprocessor_def split: prod.splits)

lemma pp_else_first:
  assumes "Match PP_IF l = None" "Match PP_ELSE l \<noteq> None" "pp_stack st = p # ps" "\<not> seen_else p"
  shows "\<exists>saved. pp_stack (UpdatePreprocessor l st) = p\<lparr>seen_else := True, stack_before_else := saved\<rparr> # ps \<and>
    map erase saved = map erase (stack st) \<and> map erase (stack (UpdatePreprocessor l st)) = map erase (stack_before_if p)"
  using assms deepcopy_erase by (auto simp: UpdatePreprocessor_def split: prod.splits)

lemma pp_else_again:
  assumes "Match PP_IF l = None" "Match PP_ELSE l \<noteq> None" "pp_stack st = p # ps" "seen_else p"
  shows "pp_stack (UpdatePreprocessor l st) = p # ps \<and> map erase (stack (UpdatePreprocessor l st)) = map erase (stack_before_if p)"
  using assms deepcopy_erase by (auto simp: UpdatePreprocessor_def split: prod.splits)

lemma pp_endif:
  assumes "Match PP_IF l = None" "Match PP_ELSE l = None" "Match PP_ENDIF l \<noteq> None" "pp_stack st = p # ps"
  shows "pp_stack (UpdatePreprocessor l st) = ps \<and>
    stack (UpdatePreprocessor l st) = (if seen_else p then stack_before_else p else stack st)"
  using assms by (auto simp: UpdatePreprocessor_def)

text \<open>
  A conditional group after its \<open>#if\<close>: the branches, each a list of lines without directives,
  with the \<open>#else\<close> and \<open>#elif\<close> lines that start the further ones.
\<close>

fun else_branches :: "string \<Rightarrow> cleansed_lines \<Rightarrow> (nat \<times> nat list) list \<Rightarrow> nesting_state \<Rightarrow> (nesting_state \<times> report list) res" where
  "else_branches filename clean_lines [] st = Inr (st, [])"
| "else_branches filename clean_lines ((e, ns) # es) st =
     res_bind (Updates filename clean_lines (e # ns) st) (\<lambda>(st1, rs).
       res_bind (else_branches filename clean_lines es st1) (\<lambda>(st2, qs). Inr (st2, rs @ qs)))"

definition else_line :: "cleansed_lines \<Rightarrow> nat \<Rightarrow> bool" where
  "else_line cl e \<longleftrightarrow> Match PP_IF (cl_elided cl ! e) = None \<and> Match PP_ELSE (cl_elided cl ! e) \<noteq> None"

lemma else_branches_pp:
  assumes "else_branches f cl es st = Inr (st', rs)"
    "list_all (\<lambda>(e, ns). else_line cl e \<and> list_all (\<lambda>n. \<not> directive (cl_elided cl ! n)) ns) es"
    "pp_stack st = p # ps" "seen_else p"
  shows "pp_stack st' = p # ps"
  using assms(1-3)
proof (induction es arbitrary: st rs)
  case (Cons en es)
  obtain e ns where en: "en = (e, ns)" by fastforce
  with Cons.prems(1) obtain s1 s2 r1 r2 r3 where 1: "Update f cl e st = Inr (s1, r1)"
    and 2: "Updates f cl ns s1 = Inr (s2, r2)" and 3: "else_branches f cl es s2 = Inr (st', r3)" by auto
  have "pp_stack s1 = p # ps"
    using Update_pp [OF 1] pp_else_again [of "cl_elided cl ! e" "save_top st" p ps] Cons.prems(2,3) en assms(4)
    by (simp add: else_line_def)
  with Updates_pp [OF 2] Cons.prems(2) en have "pp_stack s2 = p # ps" by simp
  with Cons.IH [OF 3] Cons.prems(2) show ?case by simp
qed simp

lemma conditional_group:
  assumes st_if: "Update f cl a st = Inr (s1, r1)" and a: "Match PP_IF (cl_elided cl ! a) \<noteq> None"
    and st_A: "Updates f cl A s1 = Inr (s2, r2)" and A: "list_all (\<lambda>n. \<not> directive (cl_elided cl ! n)) A"
    and st_E: "else_branches f cl es s2 = Inr (s3, r3)"
    and E: "list_all (\<lambda>(e, ns). else_line cl e \<and> list_all (\<lambda>n. \<not> directive (cl_elided cl ! n)) ns) es"
    and l: "Match PP_IF l = None" "Match PP_ELSE l = None" "Match PP_ENDIF l \<noteq> None"
  shows "pp_stack (UpdatePreprocessor l s3) = pp_stack st \<and>
    map erase (stack (UpdatePreprocessor l s3)) = map erase (stack s2)"
proof -
  from Update_pp [OF st_if] pp_if_push [OF a, of "save_top st"] Updates_pp [OF st_A A]
  obtain saved where s2: "pp_stack s2 = \<lparr>stack_before_if = saved, stack_before_else = [], seen_else = False\<rparr> # pp_stack st"
    by auto
  show ?thesis
  proof (cases es)
    case Nil
    with st_E s2 pp_endif [OF l, of s2] show ?thesis by auto
  next
    case (Cons en es')
    obtain e ns where en: "en = (e, ns)" by fastforce
    with Cons st_E obtain s4 s5 q1 q2 q3 where 1: "Update f cl e s2 = Inr (s4, q1)"
      and 2: "Updates f cl ns s4 = Inr (s5, q2)" and 3: "else_branches f cl es' s5 = Inr (s3, q3)" by auto
    from Cons E en have e: "else_line cl e" "list_all (\<lambda>n. \<not> directive (cl_elided cl ! n)) ns"
      "list_all (\<lambda>(e, ns). else_line cl e \<and> list_all (\<lambda>n. \<not> directive (cl_elided cl ! n)) ns) es'" by auto
    from Update_pp [OF 1] pp_else_first [of "cl_elided cl ! e" "save_top s2" _ "pp_stack st"] s2 e(1)
    obtain kept where "pp_stack s4 = \<lparr>stack_before_if = saved, stack_before_else = kept, seen_else = True\<rparr> # pp_stack st"
      and kept: "map erase kept = map erase (stack s2)" by (auto simp: else_line_def)
    with Updates_pp [OF 2 e(2)] else_branches_pp [OF 3 e(3)]
    have "pp_stack s3 = \<lparr>stack_before_if = saved, stack_before_else = kept, seen_else = True\<rparr> # pp_stack st"
      by simp
    with pp_endif [OF l, of s3] kept show ?thesis by simp
  qed
qed

section \<open>No exception\<close>

definition lines_ok :: "cleansed_lines \<Rightarrow> bool" where
  "lines_ok cl \<longleftrightarrow> length (cl_elided cl) = cl_num_lines cl \<and> length (cl_raw_lines cl) = cl_num_lines cl"

lemma CleansedLines_lines_ok: "CleansedLines ls = Inr cl \<Longrightarrow> lines_ok cl"
  using CleansedLines_ok [of ls] by (auto simp: lines_ok_def dest: list_all2_lengthD)

lemma CloseExpression_total:
  "n < length (cl_elided cl) \<Longrightarrow> pos < length (cl_elided cl ! n) \<Longrightarrow> returns (CloseExpression cl n pos)"
  unfolding CloseExpression_def by (intro returns_bind returns_py_nth) (auto split: prod.splits)

lemma InTemplateArgumentList_total:
  "lines_ok cl \<Longrightarrow> \<exists>b. InTemplateArgumentList cl n pos = Inr b"
proof (induction cl n pos rule: InTemplateArgumentList.induct)
  case (1 cl n pos)
  show ?case
  proof (cases "n < NumLines cl")
    case True
    with 1(5) have line: "py_nth (cl_elided cl) (int n) = Inr (cl_elided cl ! n)" "n < length (cl_elided cl)"
      by (auto simp: lines_ok_def NumLines_def)
    show ?thesis
    proof (cases "Match TEMPLATE_TOKEN (drop pos (cl_elided cl ! n))")
      case None
      from 1(1)[OF True line(1) None 1(5)] True line None show ?thesis
        by (subst InTemplateArgumentList.simps) simp
    next
      case (Some m)
      note IH = 1(2,3)[OF True line(1) Some] 1(4)[OF True line(1) Some]
      from TEMPLATE_TOKEN_inv [OF Some] have m: "pos + length (m_text m) - 1 < length (cl_elided cl ! n)"
        by (cases "m_text m") auto
      obtain l e p where close: "CloseExpression cl n (pos + length (m_text m) - 1) = Inr (l, e, p)"
        using CloseExpression_total [OF line(2) m] by (auto elim: returnsE)
      show ?thesis
        using IH 1(5) True line Some close
        by (subst InTemplateArgumentList.simps)
          (auto simp del: One_nat_def)
    qed
  next
    case False
    then have "InTemplateArgumentList cl n pos = Inr False" by (subst InTemplateArgumentList.simps) simp
    then show ?thesis ..
  qed
qed

lemma class_declaration_total:
  assumes "lines_ok cl" "n < cl_num_lines cl"
  shows "returns (class_declaration cl n l st)"
proof -
  have "returns (new_class i nm k cl n)" for i nm k
    unfolding new_class_def using assms by (intro returns_bind returns_py_nth) (auto simp: lines_ok_def Let_def)
  moreover have "returns (InTemplateArgumentList cl n pos)" for pos
    using InTemplateArgumentList_total [OF assms(1)] by (simp add: returns_def)
  ultimately show ?thesis
    unfolding class_declaration_def by (auto split: option.splits intro!: returns_bind)
qed

lemma CheckEnd_total:
  "lines_ok cl \<Longrightarrow> n < cl_num_lines cl \<Longrightarrow> returns (CheckEnd f cl n b)"
  unfolding CheckEnd_def ClassInfo_CheckEnd_def NamespaceInfo_CheckEnd_def
  by (auto simp: lines_ok_def Let_def split: block_kind.splits)

lemma brace_token_total:
  "lines_ok cl \<Longrightarrow> n < cl_num_lines cl \<Longrightarrow> returns (brace_token f cl n t l st)"
  by (auto simp: brace_token_def close_brace_def split: list.splits intro!: returns_bind CheckEnd_total)

lemma braces_total:
  "lines_ok cl \<Longrightarrow> n < cl_num_lines cl \<Longrightarrow> \<exists>r. braces f cl n l st = Inr r"
proof (induction f cl n l st rule: braces.induct)
  case (1 f cl n l st)
  show ?case
  proof (cases "Match BRACE l")
    case None
    then show ?thesis by (subst braces.simps) simp
  next
    case (Some m)
    obtain st1 rs where tok: "brace_token f cl n (grp m 1) l st = Inr (st1, rs)"
      using brace_token_total [OF 1(2,3), of f "grp m 1" l st] by (auto simp: returns_def)
    from 1(1)[OF Some tok refl 1(2,3)] Some tok show ?thesis
      by (subst braces.simps) auto
  qed
qed

lemma Update_total:
  assumes "lines_ok cl" "n < cl_num_lines cl"
  shows "\<exists>st' rs. Update f cl n st = Inr (st', rs)"
proof -
  have n: "n < length (cl_elided cl)" using assms by (simp add: lines_ok_def)
  obtain st2 l2 where ns: "namespaces n (cl_elided cl ! n) (count_parentheses (cl_elided cl ! n)
       (UpdatePreprocessor (cl_elided cl ! n) (save_top st))) = (st2, l2)" by fastforce
  obtain st3 l3 where c: "class_declaration cl n l2 st2 = Inr (st3, l3)"
    using class_declaration_total [OF assms, of l2 st2] by (auto simp: returns_def)
  have "returns (check_begin cl n st3)"
    using n unfolding check_begin_def CheckBegin_def
    by (auto intro!: returns_bind split: block_kind.splits)
  then obtain st4 where b: "check_begin cl n st3 = Inr st4" by (auto simp: returns_def)
  obtain st5 rs1 where acc: "update_access f n l3 st4 = (st5, rs1)" by fastforce
  obtain st6 rs2 where "braces f cl n l3 st5 = Inr (st6, rs2)"
    using braces_total [OF assms] by fastforce
  with n ns c b acc show ?thesis by (simp add: Update_def)
qed

lemma Updates_total:
  "lines_ok cl \<Longrightarrow> list_all (\<lambda>n. n < cl_num_lines cl) ns \<Longrightarrow> \<exists>st' rs. Updates f cl ns st = Inr (st', rs)"
proof (induction ns arbitrary: st)
  case (Cons n ns)
  obtain st1 rs where 1: "Update f cl n st = Inr (st1, rs)"
    using Update_total [OF Cons.prems(1)] Cons.prems(2) by fastforce
  from Cons.IH [OF Cons.prems(1), of st1] Cons.prems(2) 1 show ?case by auto
qed simp

section \<open>Depth\<close>

text \<open>The reference: a counter that goes up at an opening brace and down at a closing one, not below zero.\<close>

definition depth_step :: "nat \<Rightarrow> char \<Rightarrow> nat" where
  "depth_step d c = (if c = CHR ''{'' then Suc d else if c = CHR ''}'' then d - 1 else d)"

lemma depth_plain: "list_all (\<lambda>c. c \<notin> set ''{;)}'') w \<Longrightarrow> foldl depth_step d w = d"
  by (induction w) (auto simp: depth_step_def)

lemma BRACE_None:
  assumes "Match BRACE s = None" "nl \<notin> set s"
  shows "list_all (\<lambda>c. c \<notin> set ''{;)}'') s"
proof (rule ccontr)
  assume "\<not> ?thesis"
  then obtain w c t where s: "s = w @ c # t" "c \<in> set ''{;)}''" "list_all (\<lambda>c. c \<notin> set ''{;)}'') w"
    using split_list_first_prop [of s "\<lambda>c. c \<in> set ''{;)}''"] by (auto simp: list_all_iff)
  have ast: "compile (bs BRACE) = Some (Seq Bol (Seq (Star True (Cls True brace_cls))
      (Seq (Grp 1 (Cls False brace_cls)) (Seq (Grp 2 (Star True Any)) Eol))))" by code_simp
  have 1: "(rev w, c # t, []) \<in> set (ms (Star True (Cls True brace_cls)) ([], s, []))"
    using s by (auto simp: ms_Star_Cls_mem in_brace_cls list_all_iff simp del: in_set.simps)
  have 2: "(c # rev w, t, [(1, length w, [c])]) \<in> set (ms (Grp 1 (Cls False brace_cls)) (rev w, c # t, []))"
    using s(2) by (auto simp: ms_Grp_mem ms_Cls_mem in_brace_cls simp del: in_set.simps ms.simps)
  have 3: "(rev t @ c # rev w, [], (2, Suc (length w), t) # [(1, length w, [c])]) \<in>
      set (ms (Grp 2 (Star True Any)) (c # rev w, t, [(1, length w, [c])]))"
    using s(1) assms(2) by (auto simp: ms_Grp_mem ms_Star_Any_mem simp del: ms.simps)
  have "(rev t @ c # rev w, [], (2, Suc (length w), t) # [(1, length w, [c])]) \<in>
      set (ms (Seq Bol (Seq (Star True (Cls True brace_cls))
      (Seq (Grp 1 (Cls False brace_cls)) (Seq (Grp 2 (Star True Any)) Eol)))) ([], s, []))"
    by (rule ms_SeqI [OF _ ms_SeqI [OF 1 ms_SeqI [OF 2 ms_SeqI [OF 3]]]]) (simp_all add: ms_at_mem del: ms.simps)
  with assms(1) Match_None_iff [OF ast] show False by blast
qed

abbreviation all_seen :: "nesting_state \<Rightarrow> bool" where
  "all_seen st \<equiv> list_all seen_open_brace (stack st)"

lemma all_seen_SeenOpenBrace: "all_seen st \<Longrightarrow> SeenOpenBrace st"
  by (cases "stack st") (auto simp: SeenOpenBrace_def)

lemma brace_token_depth:
  assumes "brace_token f cl n [c] l st = Inr (st', rs)" "all_seen st" "c \<in> set ''{;)}''"
  shows "all_seen st' \<and> length (stack st') = depth_step (length (stack st)) c"
proof -
  note seen = all_seen_SeenOpenBrace [OF assms(2)]
  show ?thesis
  proof (cases "c = CHR ''{''")
    case True
    have "seen_open_brace (if P then new_block i n True\<lparr>inline_asm := BLOCK_ASM\<rparr> else new_block i n True)"
      "seen_open_brace (new_extern_c i n)" for i P
      by (simp_all add: new_block_def new_extern_c_def)
    moreover from True assms(1) have "st' = open_brace n l st" by (simp add: brace_token_def)
    ultimately show ?thesis
      using True assms(2) seen by (simp add: open_brace_def depth_step_def push_def Let_def)
  next
    case False
    show ?thesis
    proof (cases "c = CHR ''}''")
      case True
      with assms(1) have "close_brace f cl n st = Inr (st', rs)" by (simp add: brace_token_def)
      with True assms(2) show ?thesis
        by (cases "stack st") (auto simp: close_brace_def depth_step_def)
    next
      case no: False
      with False assms(1,3) seen have "st' = st" by (auto simp: brace_token_def pop_incomplete_def)
      with False no assms(2) show ?thesis by (simp add: depth_step_def)
    qed
  qed
qed

lemma braces_depth:
  "braces f cl n l st = Inr (st', rs) \<Longrightarrow> all_seen st \<Longrightarrow> nl \<notin> set l \<Longrightarrow>
     all_seen st' \<and> length (stack st') = foldl depth_step (length (stack st)) l"
proof (induction f cl n l st arbitrary: st' rs rule: braces.induct)
  case (1 f cl n l st)
  show ?case
  proof (cases "Match BRACE l")
    case None
    with 1(2) have "st' = st" by (subst (asm) braces.simps) simp
    with 1(3) depth_plain [OF BRACE_None [OF None 1(4)]] show ?thesis by simp
  next
    case (Some m)
    with 1(2) obtain st1 r1 r2 where tok: "brace_token f cl n (grp m 1) l st = Inr (st1, r1)"
      and rec: "braces f cl n (grp m 2) st1 = Inr (st', r2)"
      by (subst (asm) braces.simps) (auto split: sum.splits)
    from BRACE_inv [OF Some] 1(4) obtain w c where l: "l = w @ c # grp m 2" "grp m 1 = [c]" "c \<in> set ''{;)}''"
      "list_all (\<lambda>d. d \<notin> set ''{;)}'') w" by auto
    from brace_token_depth [OF _ 1(3) l(3)] tok l(2)
    have st1: "all_seen st1" "length (stack st1) = depth_step (length (stack st)) c" by auto
    have "nl \<notin> set (grp m 2)" using l(1) 1(4) by (metis UnCI list.set_intros(2) set_append)
    from 1(1)[OF Some tok refl rec st1(1) this] st1(2) depth_plain [OF l(4)]
    show ?thesis by (subst l(1)) simp
  qed
qed

section \<open>Properties\<close>

text \<open>
  C5: Cleansing a file and updating the nesting state with each of its lines in turn raises
  no exception, whatever the file holds. In the state it ends in no object is on the stack or on
  the saved stacks twice, and so a change in place of the innermost block changes the top
  of the stack and no saved stack.
\<close>
theorem nesting_run:
  "\<exists>cl st rs. CleansedLines ls = Inr cl \<and> Updates f cl [0..<length ls] NestingState = Inr (st, rs) \<and>
     distinct (map bid (stack st) @ concat (map (\<lambda>p. map bid (stack_before_if p) @ map bid (stack_before_else p)) (pp_stack st))) \<and>
     (case stack st of [] \<Rightarrow> True | b # _ \<Rightarrow> assign (bid b) change st = change_top change st)"
proof -
  from CleansedLines_ok [of ls] obtain cl where cl: "CleansedLines ls = Inr cl" "cl_num_lines cl = length ls" by blast
  from Updates_total [OF CleansedLines_lines_ok [OF cl(1)], of "[0..<length ls]" f NestingState] cl(2)
  obtain st rs where run: "Updates f cl [0..<length ls] NestingState = Inr (st, rs)"
    by (auto simp: list_all_iff)
  have "nest_ok NestingState" by (simp add: nest_ok_def identities_def ids_ok_def NestingState_def)
  from Updates_ok [OF this run] have ok: "nest_ok st" .
  then have "distinct (map bid (stack st) @ concat (map (\<lambda>p. map bid (stack_before_if p) @ map bid (stack_before_else p)) (pp_stack st)))"
    by (simp add: nest_ok_def identities_def ids_ok_def saved_ids_def [abs_def])
  moreover have "case stack st of [] \<Rightarrow> True | b # _ \<Rightarrow> assign (bid b) change st = change_top change st"
    using assign_top [OF ok] by (simp split: list.split)
  ultimately show ?thesis using cl(1) run by blast
qed

text \<open>
  C7: In a conditional group without nested directives the lines of the \<open>#else\<close> and \<open>#elif\<close>
  branches do not affect the nesting: after the \<open>#endif\<close> the stack of saved states is that
  before the \<open>#if\<close>, and the nesting stack is the one at the end of the first branch.
\<close>
theorem conditional_nesting:
  assumes "Update f cl a st = Inr (s1, r1)" "Match PP_IF (cl_elided cl ! a) \<noteq> None"
    "Updates f cl A s1 = Inr (s2, r2)" "list_all (\<lambda>n. \<not> directive (cl_elided cl ! n)) A"
    "else_branches f cl es s2 = Inr (s3, r3)"
    "list_all (\<lambda>(e, ns). else_line cl e \<and> list_all (\<lambda>n. \<not> directive (cl_elided cl ! n)) ns) es"
    "Match PP_IF l = None" "Match PP_ELSE l = None" "Match PP_ENDIF l \<noteq> None"
  shows "pp_stack (UpdatePreprocessor l s3) = pp_stack st \<and>
    map erase (stack (UpdatePreprocessor l s3)) = map erase (stack s2)"
  by (rule conditional_group [OF assms])

definition demo_cond :: cleansed_lines where
  "demo_cond = (let ls = [''#ifdef A'', ''void f() {'', ''#else'', ''void f(int a) { {'', ''#endif'']
     in \<lparr>cl_elided = ls, cl_lines = ls, cl_raw_lines = ls, cl_num_lines = 5, cl_lines_without_raw_strings = ls\<rparr>)"

theorem conditional_nesting_witness:
  "\<exists>s2 s3 r2 r3. Updates ''f.cc'' demo_cond [0, 1] NestingState = Inr (s2, r2) \<and>
     Updates ''f.cc'' demo_cond [2, 3] s2 = Inr (s3, r3) \<and>
     pp_stack (UpdatePreprocessor ''#endif'' s3) = [] \<and>
     map erase (stack (UpdatePreprocessor ''#endif'' s3)) = map erase (stack s2)"
proof -
  have ok: "lines_ok demo_cond" "cl_num_lines demo_cond = 5" by code_simp+
  obtain s1 r1 where 1: "Update ''f.cc'' demo_cond 0 NestingState = Inr (s1, r1)"
    using Update_total [OF ok(1), of 0 "''f.cc''" NestingState] ok(2) by auto
  obtain s2 r2 where 2: "Updates ''f.cc'' demo_cond [1] s1 = Inr (s2, r2)"
    using Updates_total [OF ok(1), of "[1]" "''f.cc''" s1] ok(2) by auto
  obtain s3 r3 where 3: "else_branches ''f.cc'' demo_cond [(2, [3])] s2 = Inr (s3, r3)"
    using Updates_total [OF ok(1), of "[2, 3]" "''f.cc''" s2] ok(2) by auto
  have lines: "Match PP_IF (cl_elided demo_cond ! 0) \<noteq> None"
    "list_all (\<lambda>n. \<not> directive (cl_elided demo_cond ! n)) [1]"
    "list_all (\<lambda>(e, ns). else_line demo_cond e \<and> list_all (\<lambda>n. \<not> directive (cl_elided demo_cond ! n)) ns) [(2, [3])]"
    "Match PP_IF ''#endif'' = None" "Match PP_ELSE ''#endif'' = None" "Match PP_ENDIF ''#endif'' \<noteq> None"
    by code_simp+
  from conditional_nesting [OF 1 lines(1) 2 lines(2) 3 lines(3-6)]
  have "pp_stack (UpdatePreprocessor ''#endif'' s3) = []"
    "map erase (stack (UpdatePreprocessor ''#endif'' s3)) = map erase (stack s2)"
    by (simp_all add: NestingState_def)
  moreover from 1 2 have "Updates ''f.cc'' demo_cond [0, 1] NestingState = Inr (s2, r1 @ r2)" by auto
  moreover from 3 have "Updates ''f.cc'' demo_cond [2, 3] s2 = Inr (s3, r3)" by auto
  ultimately show ?thesis by blast
qed

text \<open>
  C20: When every open block has seen its opening brace, consuming the braces of a line
  changes the depth of the stack as a counter does that goes up at an opening and down at
  a closing brace, and not below zero.
\<close>
theorem brace_depth:
  assumes "braces f cl n l st = Inr (st', rs)" "list_all seen_open_brace (stack st)" "nl \<notin> set l"
  shows "list_all seen_open_brace (stack st') \<and> length (stack st') = foldl depth_step (length (stack st)) l"
  by (rule braces_depth [OF assms])

theorem brace_depth_witness:
  "\<exists>st rs. braces ''f.cc'' demo_cond 1 ''if (a) { b(); } else { {'' NestingState = Inr (st, rs) \<and> length (stack st) = 2"
proof -
  have "lines_ok demo_cond" "1 < cl_num_lines demo_cond" by code_simp+
  from braces_total [OF this, of "''f.cc''" "''if (a) { b(); } else { {''" NestingState]
  obtain st rs where run: "braces ''f.cc'' demo_cond 1 ''if (a) { b(); } else { {'' NestingState = Inr (st, rs)" by auto
  have "length (stack st) = foldl depth_step (length (stack NestingState)) ''if (a) { b(); } else { {''"
    by (rule brace_depth [OF run, THEN conjunct2]) (simp_all add: NestingState_def nl_def)
  also have "\<dots> = 2" by code_simp
  finally show ?thesis using run by blast
qed

text \<open>
  C30: The search for the end of a template argument list returns on every file and from
  every position.
\<close>
theorem template_list_returns:
  "\<exists>cl. CleansedLines ls = Inr cl \<and> (\<forall>n pos. \<exists>b. InTemplateArgumentList cl n pos = Inr b)"
proof -
  from CleansedLines_ok [of ls] obtain cl where cl: "CleansedLines ls = Inr cl" by blast
  with InTemplateArgumentList_total [OF CleansedLines_lines_ok [OF cl]] show ?thesis by blast
qed

end
