(* ===== verification/Function_State.thy ===== *)
theory Function_State
  imports Nesting
begin

text \<open>
  The length of function bodies (\<open>scripts/cpplint.py\<close>: class \<open>_FunctionState\<close> and
  \<open>CheckForFunctionLengths\<close>).

  The verbosity level is a parameter of the check, as the program reads it from the linter
  state. With a negative level the trigger is a fraction of the base, and the logarithm of
  a zero quotient raises. The logarithm is a floating-point computation whose integer part
  is the integer logarithm for every quotient below 64; above, both are at least 5 and the
  level is capped.

  The lemmas show when the check reports and at which level, that a reported level reaches
  the verbosity, that the check of a line raises nothing at a level of zero or more, and
  that the body of a function is counted line by line.
\<close>

section \<open>The state\<close>

record function_state =
  in_a_function :: bool
  lines_in_function :: nat
  current_function :: string

definition NORMAL_TRIGGER :: nat where "NORMAL_TRIGGER = 250"
definition TEST_TRIGGER :: nat where "TEST_TRIGGER = 400"

definition FunctionState :: function_state where
  "FunctionState = \<lparr>in_a_function = False, lines_in_function = 0, current_function = []\<rparr>"

definition Begin :: "string \<Rightarrow> function_state \<Rightarrow> function_state" where
  "Begin function_name st =
     st\<lparr>in_a_function := True, lines_in_function := 0, current_function := function_name\<rparr>"

definition Count :: "function_state \<Rightarrow> function_state" where
  "Count st = (if in_a_function st then st\<lparr>lines_in_function := lines_in_function st + 1\<rparr> else st)"

fun ilog2 :: "nat \<Rightarrow> nat" where
  "ilog2 n = (if n < 2 then 0 else Suc (ilog2 (n div 2)))"

declare ilog2.simps [simp del]

definition exceeds :: "nat \<Rightarrow> nat \<Rightarrow> int \<Rightarrow> bool" where
  "exceeds n base v \<longleftrightarrow>
     (if 0 \<le> v then n > base * 2 ^ nat v else n * 2 ^ nat (- v) > base)"

definition trigger :: "nat \<Rightarrow> int \<Rightarrow> nat" where
  "trigger base v = (if 0 \<le> v then base * 2 ^ nat v else base div 2 ^ nat (- v))"

definition Check :: "int \<Rightarrow> string \<Rightarrow> nat \<Rightarrow> function_state \<Rightarrow> report list res" where
  "Check verbose filename linenum st =
     (if \<not> in_a_function st then Inr []
      else
        (let base = (if Match ''T(EST|est)'' (current_function st) \<noteq> None then TEST_TRIGGER else NORMAL_TRIGGER)
         in if exceeds (lines_in_function st) base verbose then
              (let q = lines_in_function st div base
               in if q = 0 then Inl (ValueError ''math domain error'')
                  else Inr [Report filename (int linenum) ''readability/fn_size'' (int (min 5 (ilog2 q)))
                         (''Small and focused functions are preferred: '' @ current_function st @ '' has ''
                          @ nat_str (lines_in_function st) @ '' non-comment lines (error triggered by exceeding ''
                          @ nat_str (trigger base verbose) @ '' lines).'')])
            else Inr []))"

definition End :: "function_state \<Rightarrow> function_state" where
  "End st = st\<lparr>in_a_function := False\<rparr>"

section \<open>The check of a line\<close>

definition function_label :: "string \<Rightarrow> string \<Rightarrow> string res" where
  "function_label line joined_line =
     (case Search ''((`w|:)*)`('' line of
        None \<Rightarrow> Inl AttributeError
      | Some m \<Rightarrow>
          Inr (if Match ''TEST'' (grp m 1) \<noteq> None
               then (case Search ''(`(.*`))'' joined_line of
                       None \<Rightarrow> grp m 1 | Some p \<Rightarrow> grp m 1 @ grp p 1)
               else grp m 1 @ ''()''))"

fun find_body ::
  "string list \<Rightarrow> string \<Rightarrow> string \<Rightarrow> function_state \<Rightarrow> (bool \<times> function_state) res" where
  "find_body [] line joined_line st = Inr (False, st)"
| "find_body (start_line # later) line joined_line st =
     (let joined_line = joined_line @ '' '' @ lstrip start_line
      in if Search ''(;|})'' start_line \<noteq> None then Inr (True, st)
         else if Search ''{'' start_line \<noteq> None then
           res_bind (function_label line joined_line) (\<lambda>function. Inr (True, Begin function st))
         else find_body later line joined_line st)"

definition FUNCTION_HEAD :: string where
  "FUNCTION_HEAD = ''(`w(`w|::|`*|`&|`s)*)`(''"

definition starting_func :: "string \<Rightarrow> bool res" where
  "starting_func line =
     (case Match FUNCTION_HEAD line of
        None \<Rightarrow> Inr False
      | Some m \<Rightarrow>
          res_bind (py_nth (split_ws (grp m 1)) (-1)) (\<lambda>function_name.
            Inr (function_name = ''TEST'' \<or> function_name = ''TEST_F'' \<or> Match ''[A-Z_]+$'' function_name = None)))"

definition CheckForFunctionLengths ::
  "int \<Rightarrow> string \<Rightarrow> cleansed_lines \<Rightarrow> nat \<Rightarrow> function_state \<Rightarrow> (function_state \<times> report list) res" where
  "CheckForFunctionLengths verbose filename clean_lines linenum st =
     res_bind (py_nth (cl_lines clean_lines) (int linenum)) (\<lambda>line.
       res_bind (starting_func line) (\<lambda>starting.
         if starting then
           res_bind (find_body (take (NumLines clean_lines - linenum) (drop linenum (cl_lines clean_lines))) line [] st)
             (\<lambda>(body_found, st1).
               Inr (st1, if body_found then []
                         else [Report filename (int linenum) ''readability/fn_size'' 5
                                 ''Lint failed to find start of function body.'']))
         else if Match ''^`}`s*$'' line \<noteq> None then
           res_bind (Check verbose filename linenum st) (\<lambda>rs. Inr (End st, rs))
         else if Match ''^`s*$'' line = None then Inr (Count st, [])
         else Inr (st, [])))"

section \<open>Lemmas\<close>

lemma ilog2_le: "0 < q \<Longrightarrow> 2 ^ ilog2 q \<le> q"
proof (induction q rule: ilog2.induct)
  case (1 q)
  then show ?case by (subst ilog2.simps) (auto simp: not_less)
qed

lemma ilog2_less: "q < 2 ^ Suc (ilog2 q)"
proof (induction q rule: ilog2.induct)
  case (1 n)
  show ?case
  proof (cases "n < 2")
    case False
    with 1 have "n div 2 < 2 ^ Suc (ilog2 (n div 2))" by blast
    with False show ?thesis by (subst ilog2.simps) simp
  qed (simp add: ilog2.simps)
qed

lemma ilog2_quotient:
  assumes "0 < b" "b \<le> n"
  shows "b * 2 ^ ilog2 (n div b) \<le> n" "n < b * 2 ^ Suc (ilog2 (n div b))"
proof -
  have "0 < n div b" using assms by (simp add: div_greater_zero_iff)
  then have "b * 2 ^ ilog2 (n div b) \<le> b * (n div b)" by (intro mult_le_mono2 ilog2_le)
  then show "b * 2 ^ ilog2 (n div b) \<le> n" by (meson le_trans times_div_less_eq_dividend)
  show "n < b * 2 ^ Suc (ilog2 (n div b))"
    using ilog2_less [of "n div b"] assms(1) by (metis div_less_iff_less_mult mult.commute)
qed

lemma ilog2_ge: "2 ^ k \<le> q \<Longrightarrow> k \<le> ilog2 q"
proof (induction k arbitrary: q)
  case (Suc k)
  have "(2 :: nat) \<le> 2 ^ Suc k" by simp
  with Suc.prems have "2 \<le> q" by linarith
  moreover have "2 ^ k \<le> q div 2" using div_le_mono [OF Suc.prems, of 2] by simp
  ultimately
  show ?case using Suc.IH by (subst ilog2.simps) simp
qed simp

lemma exceeds_quotient:
  assumes "exceeds n base v" "0 \<le> v" "0 < base"
  shows "2 ^ nat v \<le> n div base"
proof -
  have "base * 2 ^ nat v \<le> n" using assms(1,2) by (simp add: exceeds_def)
  then have "base * 2 ^ nat v div base \<le> n div base" by (rule div_le_mono)
  with assms(3) show ?thesis by simp
qed

definition base_trigger :: "string \<Rightarrow> nat" where
  "base_trigger name = (if Match ''T(EST|est)'' name \<noteq> None then TEST_TRIGGER else NORMAL_TRIGGER)"

lemma base_trigger_pos: "0 < base_trigger name"
  by (simp add: base_trigger_def TEST_TRIGGER_def NORMAL_TRIGGER_def)

lemma Check_spec:
  assumes "0 \<le> v" "in_a_function st"
  shows "\<exists>msg. Check v f n st =
    Inr (if lines_in_function st > base_trigger (current_function st) * 2 ^ nat v
         then [Report f (int n) ''readability/fn_size''
                (int (min 5 (ilog2 (lines_in_function st div base_trigger (current_function st))))) msg]
         else [])"
proof (cases "exceeds (lines_in_function st) (base_trigger (current_function st)) v")
  case True
  from exceeds_quotient [OF this assms(1) base_trigger_pos]
  have "lines_in_function st div base_trigger (current_function st) \<noteq> 0"
    by (metis not_one_le_zero one_le_numeral one_le_power order_trans)
  with True assms show ?thesis
    by (auto simp: Check_def exceeds_def base_trigger_def Let_def)
next
  case False
  with assms show ?thesis by (auto simp: Check_def exceeds_def base_trigger_def Let_def)
qed

lemma Check_total: "0 \<le> v \<Longrightarrow> returns (Check v f n st)"
  using Check_spec [of v st f n] by (cases "in_a_function st") (auto simp: returns_def Check_def)

lemma word_not_space: "is_word c \<Longrightarrow> \<not> uspace c"
  by (auto simp: is_word_def uspace_def is_digit_def)

lemma split_ws_acc_nonempty: "w \<noteq> [] \<or> list_ex (\<lambda>c. \<not> uspace c) s \<Longrightarrow> split_ws_acc w s \<noteq> []"
  by (induction w s rule: split_ws_acc.induct) auto

lemma FUNCTION_HEAD_inv:
  assumes "Match FUNCTION_HEAD l = Some m"
  shows "list_ex is_word (grp m 1) \<and> CHR ''('' \<in> set l"
proof -
  define body where "body = Star True (Grp 2 (Alt (Cls False [CWord]) (Alt (Seq (Chr (CHR '':'')) (Chr (CHR '':'')))
    (Alt (Chr (CHR ''*'')) (Alt (Chr (CHR ''&'')) (Cls False [CSpace]))))))"
  have "compile (bs FUNCTION_HEAD) = Some (Seq (Grp 1 (Seq (Cls False [CWord]) body)) (Chr (CHR ''('')))"
    unfolding body_def by code_simp
  from Match_inv [OF assms this] obtain b a g b' a' g' c t where
    "(b, a, g) \<in> set (ms body ([c], t, []))" and l: "l = c # t" "is_word c"
    and m: "m_groups m = (1, 0, take (length l - length a) l) # g" and a: "a = CHR ''('' # a'"
    by (auto simp: ms_inv simp del: ms.simps)
  with ms_consumes obtain w where "t = w @ a" by blast
  with l m a show ?thesis by (auto simp: grp_def group_def)
qed

lemma OPEN_PAREN_found:
  assumes "CHR ''('' \<in> set l"
  shows "Search ''((`w|:)*)`('' l \<noteq> None"
proof -
  define body where "body = Grp 2 (Alt (Cls False [CWord]) (Chr (CHR '':'')))"
  have ast: "compile (bs ''((`w|:)*)`('') = Some (Seq (Grp 1 (Star True body)) (Chr (CHR ''('')))"
    unfolding body_def by code_simp
  from assms obtain u v where l: "l = u @ CHR ''('' # v" by (auto simp: in_set_conv_decomp)
  have "(rev u, CHR ''('' # v, []) \<in> set (ms (Star True body) (rev u, CHR ''('' # v, []))"
    by (rule ms_Star_refl)
  then have "(rev u, CHR ''('' # v, [(1, length u, [])]) \<in> set (ms (Grp 1 (Star True body)) (rev u, CHR ''('' # v, []))"
    by (auto simp: ms_Grp_mem simp del: ms.simps)
  then have "(CHR ''('' # rev u, v, [(1, length u, [])]) \<in>
      set (ms (Seq (Grp 1 (Star True body)) (Chr (CHR ''(''))) (rev u, CHR ''('' # v, []))"
    by (rule ms_SeqI) (simp add: ms_Chr_mem del: ms.simps)
  with Search_None_iff [OF ast] l show ?thesis by blast
qed

lemma find_body_total:
  assumes "CHR ''('' \<in> set line"
  shows "returns (find_body ls line joined st)"
proof -
  have "returns (function_label line j)" for j
    using OPEN_PAREN_found [OF assms] by (auto simp: function_label_def)
  then show ?thesis
    by (induction ls line joined st rule: find_body.induct) (auto simp: Let_def intro: returns_bind)
qed

lemma starting_func_total: "returns (starting_func line)"
proof (cases "Match FUNCTION_HEAD line")
  case (Some m)
  have "split_ws (grp m 1) \<noteq> []"
    using FUNCTION_HEAD_inv [OF Some] split_ws_acc_nonempty [of "[]" "grp m 1"] word_not_space
    by (auto simp: split_ws_def list_ex_iff)
  with Some show ?thesis by (simp add: starting_func_def py_nth_minus_one)
qed (simp add: starting_func_def)

lemma starting_func_paren: "starting_func line = Inr True \<Longrightarrow> CHR ''('' \<in> set line"
  by (auto simp: starting_func_def split: option.splits dest: FUNCTION_HEAD_inv)

lemma CheckForFunctionLengths_total:
  assumes "0 \<le> v" "n < length (cl_lines cl)"
  shows "returns (CheckForFunctionLengths v f cl n st)"
  unfolding CheckForFunctionLengths_def
  by (intro returns_bind returns_py_nth assms starting_func_total)
    (auto intro!: returns_bind Check_total assms find_body_total dest: starting_func_paren split: prod.splits)

section \<open>Counting a body\<close>

lemma Count_iterate:
  "in_a_function st \<Longrightarrow> (Count ^^ n) st = st\<lparr>lines_in_function := lines_in_function st + n\<rparr>"
  by (induction n) (simp_all add: Count_def)

fun check_lengths ::
  "int \<Rightarrow> string \<Rightarrow> cleansed_lines \<Rightarrow> nat list \<Rightarrow> function_state \<Rightarrow> (function_state \<times> report list) res" where
  "check_lengths v f cl [] st = Inr (st, [])"
| "check_lengths v f cl (n # ns) st =
     res_bind (CheckForFunctionLengths v f cl n st) (\<lambda>(st1, rs).
       res_bind (check_lengths v f cl ns st1) (\<lambda>(st2, qs). Inr (st2, rs @ qs)))"

definition body_line :: "string \<Rightarrow> bool" where
  "body_line line \<longleftrightarrow> starting_func line = Inr False \<and> Match ''^`}`s*$'' line = None"

definition blank_line :: "string \<Rightarrow> bool" where
  "blank_line line \<longleftrightarrow> Match ''^`s*$'' line \<noteq> None"

lemma CheckForFunctionLengths_body:
  assumes "n < length (cl_lines cl)" "body_line (cl_lines cl ! n)"
  shows "CheckForFunctionLengths v f cl n st = Inr (if blank_line (cl_lines cl ! n) then st else Count st, [])"
  using assms by (auto simp: CheckForFunctionLengths_def body_line_def blank_line_def)

lemma check_lengths_body:
  assumes "list_all (\<lambda>n. n < length (cl_lines cl) \<and> body_line (cl_lines cl ! n)) ns" "in_a_function st"
  shows "check_lengths v f cl ns st =
    Inr (st\<lparr>lines_in_function := lines_in_function st + length (filter (\<lambda>n. \<not> blank_line (cl_lines cl ! n)) ns)\<rparr>, [])"
  using assms
proof (induction ns arbitrary: st)
  case (Cons n ns)
  then have step: "CheckForFunctionLengths v f cl n st = Inr (if blank_line (cl_lines cl ! n) then st else Count st, [])"
    by (simp add: CheckForFunctionLengths_body)
  have "in_a_function (Count st)" using Cons.prems(2) by (simp add: Count_def)
  with step Cons.prems Cons.IH [of st] Cons.IH [of "Count st"] show ?case
    by (simp add: Count_def)
qed simp

section \<open>Properties\<close>

text \<open>
  C18: At a verbosity of zero or more, a function is reported exactly when its lines exceed the
  trigger, 250 lines (400 for a test) doubled for each verbosity level. The level of the
  report is then the k with base * 2 ^ k <= lines < base * 2 ^ (k + 1), cut off at 5, and it
  reaches the verbosity up to 5, so the report is never dropped for want of confidence. The
  level counts from the base of 250 lines; the table in the comment of \<open>Check\<close> counts from
  50 lines (50 => 0, 100 => 1), which the code has not followed since the trigger was raised.
\<close>
theorem function_size_report:
  assumes "0 \<le> v"
  shows "\<exists>msg level. Check v f l ((Count ^^ n) (Begin name st)) =
      Inr (if n > base_trigger name * 2 ^ nat v
           then [Report f (int l) ''readability/fn_size'' (int level) msg] else []) \<and>
    (n > base_trigger name * 2 ^ nat v \<longrightarrow> min 5 (nat v) \<le> level \<and>
       (\<exists>k. level = min 5 k \<and> base_trigger name * 2 ^ k \<le> n \<and> n < base_trigger name * 2 ^ Suc k))"
proof -
  let ?st = "(Count ^^ n) (Begin name st)" and ?b = "base_trigger name"
  let ?k = "ilog2 (n div ?b)"
  have st: "in_a_function ?st" "lines_in_function ?st = n" "current_function ?st = name"
    by (simp_all add: Count_iterate Begin_def)
  from Check_spec [OF assms st(1), of f l, unfolded st(2,3)] obtain msg where
    check: "Check v f l ?st = Inr (if n > ?b * 2 ^ nat v then [Report f (int l) ''readability/fn_size'' (int (min 5 ?k)) msg] else [])"
    by blast
  have "min 5 (nat v) \<le> min 5 ?k \<and> ?b * 2 ^ ?k \<le> n \<and> n < ?b * 2 ^ Suc ?k" if "n > ?b * 2 ^ nat v"
  proof -
    from that have q: "2 ^ nat v \<le> n div ?b"
      using exceeds_quotient [of n ?b v] assms base_trigger_pos by (simp add: exceeds_def)
    then have "0 < n div ?b" by (metis less_le_trans zero_less_numeral zero_less_power)
    then have "?b \<le> n" by (simp add: div_greater_zero_iff)
    with ilog2_ge [OF q] ilog2_quotient [of ?b n] base_trigger_pos show ?thesis by auto
  qed
  with check show ?thesis by blast
qed

theorem function_size_report_witness:
  "\<exists>msg. Check 0 ''a.cc'' 9 ((Count ^^ 1001) (Begin ''f()'' FunctionState)) =
      Inr [Report ''a.cc'' 9 ''readability/fn_size'' 2 msg]"
proof -
  have base: "base_trigger ''f()'' = 250" by code_simp
  have "k = 2" if "250 * 2 ^ k \<le> (1001 :: nat)" "1001 < (250 :: nat) * 2 ^ Suc k" for k
  proof -
    have "k < 3" by (rule ccontr) (use that(1) power_increasing [of 3 k "2 :: nat"] in simp)
    moreover have "1 < k" by (rule ccontr) (use that(2) power_increasing [of k 1 "2 :: nat"] in simp)
    ultimately show ?thesis by simp
  qed
  with base function_size_report [of 0 "''a.cc''" 9 1001 "''f()''" FunctionState] show ?thesis by force
qed

text \<open>
  C39: Inside a function, the lines of its body are counted except the blank ones, whatever
  their number, and nothing is reported before its closing brace.
\<close>
theorem function_body_counted:
  assumes "list_all (\<lambda>n. n < length (cl_lines cl) \<and> body_line (cl_lines cl ! n)) ns"
  shows "check_lengths v f cl ns (Begin name st) =
    Inr ((Begin name st)\<lparr>lines_in_function := length (filter (\<lambda>n. \<not> blank_line (cl_lines cl ! n)) ns)\<rparr>, [])"
  using check_lengths_body [OF assms, of "Begin name st"] by (simp add: Begin_def)

theorem function_body_counted_witness:
  "check_lengths 0 ''a.cc'' (demo_cond\<lparr>cl_lines := [''void f() {'', ''  a = 1;'', ''  '', ''  b = 2;'', ''}'']\<rparr>)
       [1, 2, 3] (Begin ''f()'' FunctionState) =
     Inr ((Begin ''f()'' FunctionState)\<lparr>lines_in_function := 2\<rparr>, [])"
proof -
  let ?cl = "demo_cond\<lparr>cl_lines := [''void f() {'', ''  a = 1;'', ''  '', ''  b = 2;'', ''}'']\<rparr>"
  have "list_all (\<lambda>n. n < length (cl_lines ?cl) \<and> body_line (cl_lines ?cl ! n)) [1, 2, 3]"
    "length (filter (\<lambda>n. \<not> blank_line (cl_lines ?cl ! n)) [1, 2, 3]) = 2" by code_simp+
  with function_body_counted [of ?cl "[1, 2, 3]" 0 "''a.cc''" "''f()''" FunctionState] show ?thesis
    by (simp only: simp_thms)
qed

text \<open>
  The check of a line for function lengths raises nothing on any line of a cleansed
  file at a verbosity of zero or more: the matches that the code dereferences exist.
\<close>
theorem function_lengths_total:
  assumes "CleansedLines ls = Inr cl" "n < length ls" "0 \<le> v"
  shows "\<exists>st' rs. CheckForFunctionLengths v f cl n st = Inr (st', rs)"
proof -
  from CleansedLines_ok [of ls] assms(1) have "length (cl_lines cl) = length ls"
    by (auto dest: list_all2_lengthD)
  with CheckForFunctionLengths_total [of v n cl f st] assms show ?thesis by (auto simp: returns_def)
qed

theorem function_lengths_total_witness:
  "\<exists>cl st rs. CleansedLines [''int f(int a)'', ''{''] = Inr cl \<and>
     CheckForFunctionLengths 0 ''a.cc'' cl 0 FunctionState = Inr (st, rs)"
proof -
  obtain cl where cl: "CleansedLines [''int f(int a)'', ''{''] = Inr cl" using CleansedLines_ok by blast
  from function_lengths_total [OF this, of 0 0 "''a.cc''" FunctionState] cl show ?thesis by auto
qed

text \<open>
  At a negative verbosity the quotient can be zero, and its logarithm raises.
\<close>

lemma function_size_negative_verbosity:
  "Check (-1) ''a.cc'' 9 ((Count ^^ 126) (Begin ''f()'' FunctionState)) = Inl (ValueError ''math domain error'')"
proof -
  have "base_trigger ''f()'' = 250" by code_simp
  then have "Match ''T(EST|est)'' ''f()'' = None" by (auto simp: base_trigger_def TEST_TRIGGER_def split: if_splits)
  then show ?thesis
    by (simp add: Check_def Count_iterate Begin_def exceeds_def NORMAL_TRIGGER_def)
qed

text \<open>The levels of the report for the base of 250 lines, at the boundaries.\<close>

lemma function_size_levels:
  "min 5 (ilog2 (499 div NORMAL_TRIGGER)) = 0" "min 5 (ilog2 (500 div NORMAL_TRIGGER)) = 1"
  "min 5 (ilog2 (999 div NORMAL_TRIGGER)) = 1" "min 5 (ilog2 (1000 div NORMAL_TRIGGER)) = 2"
  "min 5 (ilog2 (7999 div NORMAL_TRIGGER)) = 4" "min 5 (ilog2 (16000 div NORMAL_TRIGGER)) = 5"
  by (simp_all add: ilog2.simps NORMAL_TRIGGER_def)

end
