(* ===== verification/Line_Checks.thy ===== *)
theory Line_Checks
  imports Function_State
begin

text \<open>
  Checks of single lines and of whole files that keep no state of their own
  (\<open>scripts/cpplint.py\<close>: from \<open>CheckForCopyright\<close> to \<open>CheckAccess\<close>, the namespace
  indentation checks and \<open>FlagCxx11Features\<close>, \<open>FlagCxx14Features\<close>). Each returns its
  reports in the order in which the program makes them.
\<close>

section \<open>Checks of a file\<close>

definition CheckForCopyright :: "string \<Rightarrow> string list \<Rightarrow> report list" where
  "CheckForCopyright filename ls =
     (if list_ex (\<lambda>l. contains (lower l) ''copyright'') (drop 1 (take 11 ls)) then []
      else [Report filename 0 ''legal/copyright'' 5
              ''No copyright message found.  You should have a line: \"Copyright [year] <Copyright Owner>\"''])"

definition CheckForNewlineAtEOF :: "string \<Rightarrow> string list \<Rightarrow> report list" where
  "CheckForNewlineAtEOF filename ls =
     (if length ls < 3 \<or> ls ! (length ls - 2) \<noteq> []
      then [Report filename (int (length ls) - 2) ''whitespace/ending_newline'' 5
              ''Could not find a newline character at the end of the file.'']
      else [])"

section \<open>Checks of a line\<close>

definition CheckForMultilineCommentsAndStrings :: "string \<Rightarrow> cleansed_lines \<Rightarrow> nat \<Rightarrow> report list res" where
  "CheckForMultilineCommentsAndStrings filename clean_lines linenum =
     res_bind (py_nth (cl_elided clean_lines) (int linenum)) (\<lambda>line0.
       (let line = replace_sub [bsl, bsl] [] line0
        in Inr
          ((if count_sub ''/*'' line > count_sub ''*/'' line
            then [Report filename (int linenum) ''readability/multiline_comment'' 5
                   ''Complex multi-line /*...*/-style comment found. Lint may give bogus warnings.  Consider replacing these with //-style comments, with #if 0...#endif, or with more clearly structured multi-line comments.'']
            else []) @
           (if odd (int (count_sub [dq] line) - int (count_sub [bsl, dq] line))
            then [Report filename (int linenum) ''readability/multiline_string'' 5
                   (''Multi-line string (\"...\") found.  This lint script doesn'' @ [sq] @ ''t do well with such strings, and may give bogus warnings.  Use C++11 raw strings or concatenation instead.'')]
            else []))))"

definition UNSAFE_FUNC_PREFIX :: string where
  "UNSAFE_FUNC_PREFIX = ''(?:[-+*/=%^&|(<]`s*|>`s+)''"

definition THREADING_LIST :: "(string \<times> string \<times> string) list" where
  "THREADING_LIST =
     [(''asctime('', ''asctime_r('', UNSAFE_FUNC_PREFIX @ ''asctime`([^)]+`)''),
      (''ctime('', ''ctime_r('', UNSAFE_FUNC_PREFIX @ ''ctime`([^)]+`)''),
      (''getgrgid('', ''getgrgid_r('', UNSAFE_FUNC_PREFIX @ ''getgrgid`([^)]+`)''),
      (''getgrnam('', ''getgrnam_r('', UNSAFE_FUNC_PREFIX @ ''getgrnam`([^)]+`)''),
      (''getlogin('', ''getlogin_r('', UNSAFE_FUNC_PREFIX @ ''getlogin`(`)''),
      (''getpwnam('', ''getpwnam_r('', UNSAFE_FUNC_PREFIX @ ''getpwnam`([^)]+`)''),
      (''getpwuid('', ''getpwuid_r('', UNSAFE_FUNC_PREFIX @ ''getpwuid`([^)]+`)''),
      (''gmtime('', ''gmtime_r('', UNSAFE_FUNC_PREFIX @ ''gmtime`([^)]+`)''),
      (''localtime('', ''localtime_r('', UNSAFE_FUNC_PREFIX @ ''localtime`([^)]+`)''),
      (''rand('', ''rand_r('', UNSAFE_FUNC_PREFIX @ ''rand`(`)''),
      (''strtok('', ''strtok_r('', UNSAFE_FUNC_PREFIX @ ''strtok`([^)]+`)''),
      (''ttyname('', ''ttyname_r('', UNSAFE_FUNC_PREFIX @ ''ttyname`([^)]+`)'')]"

definition CheckPosixThreading :: "string \<Rightarrow> cleansed_lines \<Rightarrow> nat \<Rightarrow> report list res" where
  "CheckPosixThreading filename clean_lines linenum =
     res_bind (py_nth (cl_elided clean_lines) (int linenum)) (\<lambda>line.
       Inr (concat (map (\<lambda>(single_thread_func, multithread_safe_func, pattern).
         if Search pattern line \<noteq> None
         then [Report filename (int linenum) ''runtime/threadsafe_fn'' 2
                (''Consider using '' @ multithread_safe_func @ ''...) instead of '' @ single_thread_func
                 @ ''...) for improved thread safety.'')]
         else []) THREADING_LIST)))"

definition CheckVlogArguments :: "string \<Rightarrow> cleansed_lines \<Rightarrow> nat \<Rightarrow> report list res" where
  "CheckVlogArguments filename clean_lines linenum =
     res_bind (py_nth (cl_elided clean_lines) (int linenum)) (\<lambda>line.
       Inr (if Search ''`bVLOG`((INFO|ERROR|WARNING|DFATAL|FATAL)`)'' line \<noteq> None
            then [Report filename (int linenum) ''runtime/vlog'' 5
                   ''VLOG() should be used with numeric verbosity level.  Use LOG() if you want symbolic severity levels.'']
            else []))"

definition CheckInvalidIncrement :: "string \<Rightarrow> cleansed_lines \<Rightarrow> nat \<Rightarrow> report list res" where
  "CheckInvalidIncrement filename clean_lines linenum =
     res_bind (py_nth (cl_elided clean_lines) (int linenum)) (\<lambda>line.
       Inr (if Match ''^`s*`*`w+(`+`+|--);'' line \<noteq> None
            then [Report filename (int linenum) ''runtime/invalid_increment'' 5
                   ''Changing pointer instead of value (or unused value of operator*).'']
            else []))"

definition IsMacroDefinition :: "string list \<Rightarrow> nat \<Rightarrow> bool res" where
  "IsMacroDefinition ls linenum =
     res_bind (py_nth ls (int linenum)) (\<lambda>line.
       if Search ''^#define'' line \<noteq> None then Inr True
       else if linenum > 0 then
         res_bind (py_nth ls (int linenum - 1)) (\<lambda>prev. Inr (Search ''``$'' prev \<noteq> None))
       else Inr False)"

definition IsForwardClassDeclaration :: "string list \<Rightarrow> nat \<Rightarrow> bool res" where
  "IsForwardClassDeclaration ls linenum =
     res_bind (py_nth ls (int linenum)) (\<lambda>line.
       Inr (Match ''^`s*(`btemplate`b)*.*class`s+`w+;`s*$'' line \<noteq> None))"

definition IsBlankLine :: "string \<Rightarrow> bool" where
  "IsBlankLine line \<longleftrightarrow> line = [] \<or> list_all uspace line"

section \<open>Spacing of calls\<close>

fun inside_parens :: "string list \<Rightarrow> string \<Rightarrow> string" where
  "inside_parens [] line = line"
| "inside_parens (pattern # patterns) line =
     (case Search pattern line of Some m \<Rightarrow> grp m 1 | None \<Rightarrow> inside_parens patterns line)"

definition CheckSpacingForFunctionCall :: "string \<Rightarrow> cleansed_lines \<Rightarrow> nat \<Rightarrow> report list res" where
  "CheckSpacingForFunctionCall filename clean_lines linenum =
     res_bind (py_nth (cl_elided clean_lines) (int linenum)) (\<lambda>line.
       (let fncall = inside_parens [''`bif`s*`((.*)`)`s*{'', ''`bfor`s*`((.*)`)`s*{'',
                       ''`bwhile`s*`((.*)`)`s*[{;]'', ''`bswitch`s*`((.*)`)`s*{''] line;
            err = (\<lambda>level msg. [Report filename (int linenum) ''whitespace/parens'' level msg])
        in Inr
          (if Search ''`b(if|for|while|switch|return|new|delete|catch|sizeof)`b'' fncall = None
              \<and> Search '' `([^)]+`)`([^)]*(`)|,$)'' fncall = None
              \<and> Search '' `([^)]+`)`[[^`]]+`]'' fncall = None
           then
             (if Search ''`w`s*`(`s(?!`s*``$)'' fncall \<noteq> None then err 4 ''Extra space after ( in function call''
              else if Search ''`(`s+(?!(`s*``)|`()'' fncall \<noteq> None then err 2 ''Extra space after (''
              else []) @
             (if Search ''`w`s+`('' fncall \<noteq> None
                 \<and> Search ''_{0,2}asm_{0,2}`s+_{0,2}volatile_{0,2}`s+`('' fncall = None
                 \<and> Search ''#`s*define|typedef|using`s+`w+`s*='' fncall = None
                 \<and> Search ''`w`s+`((`w+::)*`*`w+`)`('' fncall = None
                 \<and> Search ''`bcase`s+`('' fncall = None
              then (if Search ''`boperator_*`b'' line \<noteq> None
                    then err 0 ''Extra space before ( in function call''
                    else err 4 ''Extra space before ( in function call'')
              else []) @
             (if Search ''[^)]`s+`)`s*[^{`s]'' fncall \<noteq> None
              then (if Search ''^`s+`)'' fncall \<noteq> None
                    then err 2 ''Closing ) should be moved to the previous line''
                    else err 2 ''Extra space before )'')
              else [])
           else [])))"

section \<open>Comments\<close>

definition RE_PATTERN_TODO :: string where
  "RE_PATTERN_TODO = ''^//(`s*)TODO(`(.+?`))?:?(`s|$)?''"

definition check_todo :: "string \<Rightarrow> nat \<Rightarrow> string \<Rightarrow> report list" where
  "check_todo filename linenum comment =
     (case Match RE_PATTERN_TODO comment of
        None \<Rightarrow> []
      | Some m \<Rightarrow>
          (if length (grp m 1) > 1
           then [Report filename (int linenum) ''whitespace/todo'' 2 ''Too many spaces before TODO''] else []) @
          (if grp m 2 = []
           then [Report filename (int linenum) ''readability/todo'' 2
                  ''Missing username in TODO; it should look like \"// TODO(my_username): Stuff.\"''] else []) @
          (if group m 3 \<noteq> Some '' '' \<and> group m 3 \<noteq> Some []
           then [Report filename (int linenum) ''whitespace/todo'' 2
                  ''TODO(my_username) should be followed by a space''] else []))"

definition CheckComment :: "string \<Rightarrow> string \<Rightarrow> nat \<Rightarrow> int \<Rightarrow> report list" where
  "CheckComment line filename linenum next_line_start =
     (case find_sub ''//'' line of
        None \<Rightarrow> []
      | Some commentpos \<Rightarrow>
          (if even (count_sub [dq] (ReplaceAll ''``.'' [] (take commentpos line))) then
             (let comment = drop commentpos line
              in (if \<not> (Match ''^.*{ *//'' line \<noteq> None \<and> next_line_start = int commentpos)
                     \<and> (commentpos \<ge> 1 \<and> \<not> is_space (line ! (commentpos - 1))
                        \<or> commentpos \<ge> 2 \<and> \<not> is_space (line ! (commentpos - 2)))
                  then [Report filename (int linenum) ''whitespace/comments'' 2
                         ''At least two spaces is best between code and comments'']
                  else []) @
                 check_todo filename linenum comment @
                 (if Match ''//[^ ]*`w'' comment \<noteq> None \<and> Match ''(///|//`!)(`s+|$)'' comment = None
                  then [Report filename (int linenum) ''whitespace/comments'' 4
                         ''Should have a space between // and comment'']
                  else []))
           else []))"

section \<open>Access and namespace indentation\<close>

definition CheckAccess :: "string \<Rightarrow> cleansed_lines \<Rightarrow> nat \<Rightarrow> nesting_state \<Rightarrow> report list res" where
  "CheckAccess filename clean_lines linenum st =
     res_bind (py_nth (cl_elided clean_lines) (int linenum)) (\<lambda>line.
       Inr (case Match ''`s*(DISALLOW_COPY_AND_ASSIGN|DISALLOW_IMPLICIT_CONSTRUCTORS)'' line of
              None \<Rightarrow> []
            | Some m \<Rightarrow>
                (case stack st of
                   [] \<Rightarrow> []
                 | b # _ \<Rightarrow>
                     (case kind b of
                        ClassInfo c \<Rightarrow>
                          (if access c \<noteq> ''private''
                           then [Report filename (int linenum) ''readability/constructors'' 3
                                  (grp m 1 @ '' must be in the private: section'')]
                           else [])
                      | _ \<Rightarrow> []))))"

definition is_namespace :: "block \<Rightarrow> bool" where
  "is_namespace b \<longleftrightarrow> (case kind b of NamespaceInfo _ \<Rightarrow> True | _ \<Rightarrow> False)"

definition IsBlockInNameSpace :: "nesting_state \<Rightarrow> bool \<Rightarrow> bool" where
  "IsBlockInNameSpace st is_forward_declaration \<longleftrightarrow>
     (if is_forward_declaration
      then (case stack st of [] \<Rightarrow> False | b # _ \<Rightarrow> is_namespace b)
      else (case stack st of
              b # c # _ \<Rightarrow> check_namespace_indentation b \<and> is_namespace c
            | _ \<Rightarrow> False))"

definition ShouldCheckNamespaceIndentation ::
  "nesting_state \<Rightarrow> bool \<Rightarrow> string list \<Rightarrow> nat \<Rightarrow> bool res" where
  "ShouldCheckNamespaceIndentation st is_namespace_indent_item ls linenum =
     res_bind (IsForwardClassDeclaration ls linenum) (\<lambda>is_forward_declaration.
       if \<not> (is_namespace_indent_item \<or> is_forward_declaration) then Inr False
       else res_bind (IsMacroDefinition ls linenum) (\<lambda>is_macro.
              Inr (if is_macro then False else IsBlockInNameSpace st is_forward_declaration)))"

definition CheckItemIndentationInNamespace :: "string \<Rightarrow> string list \<Rightarrow> nat \<Rightarrow> report list res" where
  "CheckItemIndentationInNamespace filename ls linenum =
     res_bind (py_nth ls (int linenum)) (\<lambda>line.
       Inr (if Match ''^`s+'' line \<noteq> None
            then [Report filename (int linenum) ''runtime/indentation_namespace'' 4 ''Do not indent within a namespace'']
            else []))"

definition namespace_indent_item :: "nesting_state \<Rightarrow> bool" where
  "namespace_indent_item st \<longleftrightarrow>
     (case (stack st, previous_stack_top st) of
        (b # c # _, Some p) \<Rightarrow> check_namespace_indentation b \<and> is_namespace p \<and> bid p = bid c
      | _ \<Rightarrow> False)"

definition CheckForNamespaceIndentation ::
  "string \<Rightarrow> nesting_state \<Rightarrow> cleansed_lines \<Rightarrow> nat \<Rightarrow> report list res" where
  "CheckForNamespaceIndentation filename st clean_lines linenum =
     res_bind (ShouldCheckNamespaceIndentation st (namespace_indent_item st) (cl_elided clean_lines) linenum) (\<lambda>check.
       if check then CheckItemIndentationInNamespace filename (cl_elided clean_lines) linenum else Inr [])"

section \<open>Constructors and non-standard constructs\<close>

definition unbalanced :: "string \<Rightarrow> bool" where
  "unbalanced arg \<longleftrightarrow> count_sub ''<'' arg > count_sub ''>'' arg \<or> count_sub ''('' arg > count_sub '')'' arg"

text \<open>
  The inner loop joins an argument with its successors until its brackets balance; when
  there is no successor the list index raises.
\<close>

fun merge_arg :: "string \<Rightarrow> string list \<Rightarrow> (string \<times> string list) res" where
  "merge_arg constructor_arg rest =
     (if unbalanced constructor_arg then
        (case rest of
           [] \<Rightarrow> Inl IndexError
         | a # rest' \<Rightarrow> merge_arg (constructor_arg @ '','' @ a) rest')
      else Inr (constructor_arg, rest))"

declare merge_arg.simps [simp del]

lemma merge_arg_length: "merge_arg arg rest = Inr (arg', rest') \<Longrightarrow> length rest' \<le> length rest"
proof (induction arg rest rule: merge_arg.induct)
  case (1 arg rest)
  from 1(2) show ?case
    by (subst (asm) merge_arg.simps)
      (auto split: if_splits list.splits dest!: 1(1))
qed

function collapse_args :: "string list \<Rightarrow> string list res" where
  "collapse_args [] = Inr []"
| "collapse_args (arg # rest) =
     (case merge_arg arg rest of
        Inl e \<Rightarrow> Inl e
      | Inr (arg', rest') \<Rightarrow> res_bind (collapse_args rest') (\<lambda>args. Inr (arg' # args)))"
  by pat_completeness auto
termination
  by (relation "measure length") (auto dest!: merge_arg_length)

definition base_classname :: "class_info \<Rightarrow> string" where
  "base_classname c = last (split_sub ''::'' (c_name c))"

definition explicit_constructor ::
  "string \<Rightarrow> nat \<Rightarrow> string \<Rightarrow> bool \<Rightarrow> string list \<Rightarrow> report list" where
  "explicit_constructor filename linenum base is_marked_explicit constructor_args =
     (let defaulted_args = filter (\<lambda>arg. contains arg ''='') constructor_args;
          noarg_constructor = (constructor_args = [] \<or> length constructor_args = 1 \<and> strip (hd constructor_args) = ''void'');
          onearg_constructor =
            (length constructor_args = 1 \<and> \<not> noarg_constructor \<or>
             length constructor_args \<ge> 1 \<and> \<not> noarg_constructor \<and> length defaulted_args \<ge> length constructor_args - 1);
          initializer_list_constructor =
            (onearg_constructor \<and> Search ''`bstd`s*::`s*initializer_list`b'' (hd constructor_args) \<noteq> None);
          copy_constructor =
            (onearg_constructor \<and>
             Match (''(const`s+)?'' @ re_escape base @ ''(`s*<[^>]*>)?(`s+const)?`s*(?:<`w+>`s*)?&'')
               (strip (hd constructor_args)) \<noteq> None);
          err = (\<lambda>msg. [Report filename (int linenum) ''runtime/explicit'' 5 msg])
      in if \<not> is_marked_explicit \<and> onearg_constructor \<and> \<not> initializer_list_constructor \<and> \<not> copy_constructor then
           (if defaulted_args \<noteq> []
            then err ''Constructors callable with one argument should be marked explicit.''
            else err ''Single-parameter constructors should be marked explicit.'')
         else if is_marked_explicit \<and> \<not> onearg_constructor \<and> noarg_constructor
         then err ''Zero-parameter constructors should not be marked explicit.''
         else [])"

definition check_constructor :: "string \<Rightarrow> nat \<Rightarrow> string \<Rightarrow> nesting_state \<Rightarrow> report list res" where
  "check_constructor filename linenum line st =
     (case InnermostClass st of
        None \<Rightarrow> Inr []
      | Some b \<Rightarrow>
          (case kind b of
             ClassInfo c \<Rightarrow>
               (if \<not> seen_open_brace b then Inr []
                else
                  (case Match (''`s+(?:inline`s+)?(explicit`s+)?(?:inline`s+)?'' @ re_escape (base_classname c)
                               @ ''`s*`(((?:[^()]|`([^()]*`))*)`)'') line of
                     None \<Rightarrow> Inr []
                   | Some m \<Rightarrow>
                       res_bind (collapse_args (if grp m 2 = [] then [] else split_chr (CHR '','') (grp m 2))) (\<lambda>args.
                         Inr (explicit_constructor filename linenum (base_classname c) (grp m 1 \<noteq> []) args))))
           | _ \<Rightarrow> Inr []))"

definition CheckForNonStandardConstructs ::
  "string \<Rightarrow> cleansed_lines \<Rightarrow> nat \<Rightarrow> nesting_state \<Rightarrow> report list res" where
  "CheckForNonStandardConstructs filename clean_lines linenum st =
     res_bind (py_nth (cl_lines clean_lines) (int linenum)) (\<lambda>line0.
       res_bind (py_nth (cl_elided clean_lines) (int linenum)) (\<lambda>line.
         (let err = (\<lambda>b cat level msg. if b then [Report filename (int linenum) cat level msg] else []);
              line1 = replace_sub [bsl, bsl] [] line0
          in res_bind (check_constructor filename linenum line st) (\<lambda>rs. Inr (
             err (Search ''printf`s*`(.*\".*%[-+ ]?`d*q'' line0 \<noteq> None) ''runtime/printf_format'' 3
               ''%q in format strings is deprecated.  Use %ll instead.'' @
             err (Search ''printf`s*`(.*\".*%`d+`$'' line0 \<noteq> None) ''runtime/printf_format'' 2
               ''%N$ formats are unconventional.  Try rewriting to avoid them.'' @
             err (Search ''(\"|`').*``(%|`[|`(|{)'' line1 \<noteq> None) ''build/printf_format'' 3
               ''%, [, (, and { are undefined character escapes.  Unescape them.'' @
             err (Search ''`b(const|volatile|void|char|short|int|long|float|double|signed|unsigned|schar|u?int8|u?int16|u?int32|u?int64)`s+(register|static|extern|typedef)`b'' line \<noteq> None)
               ''build/storage_class'' 5
               ''Storage-class specifier (static, extern, typedef, etc) should be at the beginning of the declaration.'' @
             err (Match ''`s*#`s*endif`s*[^/`s]+'' line \<noteq> None) ''build/endif_comment'' 5
               ''Uncommented text after #endif is non-standard.  Use a comment.'' @
             err (Match ''`s*class`s+(`w+`s*::`s*)+`w+`s*;'' line \<noteq> None) ''build/forward_decl'' 5
               ''Inner-style forward declarations are invalid.  Remove this line.'' @
             err (Search ''(`w+|[+-]?`d+(`.`d*)?)`s*(<|>)`?=?`s*(`w+|[+-]?`d+)(`.`d*)?'' line \<noteq> None) ''build/deprecated'' 3
               ''>? and <? (max and min) operators are non-standard and deprecated.'' @
             err (Search ''^`s*const`s*string`s*&`s*`w+`s*;'' line \<noteq> None) ''runtime/member_string_references'' 2
               ''const string& members are dangerous. It is much better to use alternatives, such as pointers or simple constants.'' @
             rs)))))"

section \<open>Language versions\<close>

definition INCLUDED :: string where
  "INCLUDED = ''`s*#`s*include`s+[<\"]([^<\"]+)[\">]''"

definition FlagCxx11Features :: "string \<Rightarrow> cleansed_lines \<Rightarrow> nat \<Rightarrow> report list res" where
  "FlagCxx11Features filename clean_lines linenum =
     res_bind (py_nth (cl_elided clean_lines) (int linenum)) (\<lambda>line.
       Inr
        ((case Match INCLUDED line of
            None \<Rightarrow> []
          | Some include \<Rightarrow>
              (if startswith (grp include 1) ''tr1/''
               then [Report filename (int linenum) ''build/c++tr1'' 5
                      (''C++ TR1 headers such as <'' @ grp include 1 @ ''> are unapproved.'')] else []) @
              (if grp include 1 \<in> set [''cfenv'', ''condition_variable'', ''fenv.h'', ''future'', ''mutex'', ''thread'',
                    ''chrono'', ''ratio'', ''regex'', ''system_error'']
               then [Report filename (int linenum) ''build/c++11'' 5
                      (''<'' @ grp include 1 @ ''> is an unapproved C++11 header.'')] else [])) @
         (if Match ''`s*#'' line \<noteq> None \<and> Match ''`s*#`s*define`b'' line = None then []
          else concat (map (\<lambda>top_name.
            if Search (''`bstd::'' @ top_name @ ''`b'') line \<noteq> None
            then [Report filename (int linenum) ''build/c++11'' 5
                   (''std::'' @ top_name @ '' is an unapproved C++11 class or function.  Send c-style an example of where it would make your code more readable, and they may let you use it.'')]
            else []) [''alignment_of'', ''aligned_union'']))))"

definition FlagCxx14Features :: "string \<Rightarrow> cleansed_lines \<Rightarrow> nat \<Rightarrow> report list res" where
  "FlagCxx14Features filename clean_lines linenum =
     res_bind (py_nth (cl_elided clean_lines) (int linenum)) (\<lambda>line.
       Inr (case Match INCLUDED line of
              None \<Rightarrow> []
            | Some include \<Rightarrow>
                (if grp include 1 \<in> set [''scoped_allocator'', ''shared_mutex'']
                 then [Report filename (int linenum) ''build/c++14'' 5
                        (''<'' @ grp include 1 @ ''> is an unapproved C++14 header.'')] else [])))"

section \<open>Lemmas\<close>

lemma merge_arg_join:
  "merge_arg arg rest = Inr (arg', rest') \<Longrightarrow>
     join '','' (arg' # rest') = join '','' (arg # rest) \<and> \<not> unbalanced arg'"
proof (induction arg rest rule: merge_arg.induct)
  case (1 arg rest)
  show ?case
  proof (cases "unbalanced arg")
    case True
    then obtain a rs where rest: "rest = a # rs" and rec: "merge_arg (arg @ '','' @ a) rs = Inr (arg', rest')"
      using 1(2) by (subst (asm) (2) merge_arg.simps) (auto split: list.splits)
    from 1(1)[OF True rest rec] rest show ?thesis
      by (cases rs) auto
  next
    case False
    with 1(2) show ?thesis by (subst (asm) merge_arg.simps) auto
  qed
qed

lemma collapse_args_nonempty: "collapse_args args = Inr as \<Longrightarrow> as = [] \<longleftrightarrow> args = []"
  by (cases args) (auto split: sum.splits)

lemma collapse_args_join:
  "collapse_args args = Inr as \<Longrightarrow> join '','' as = join '','' args \<and> list_all (\<lambda>a. \<not> unbalanced a) as"
proof (induction args arbitrary: as rule: collapse_args.induct)
  case (2 arg rest)
  from 2(2) obtain arg' rest' where m: "merge_arg arg rest = Inr (arg', rest')"
    by (auto split: sum.splits)
  with 2(2) obtain as' where rec: "collapse_args rest' = Inr as'" "as = arg' # as'" by auto
  from 2(1)[OF m refl rec(1)] have IH: "join '','' as' = join '','' rest'" "list_all (\<lambda>a. \<not> unbalanced a) as'" by auto
  have "join '','' (arg' # as') = join '','' (arg' # rest')"
    using IH(1) collapse_args_nonempty [OF rec(1)]
    by (cases "rest' = []") (auto simp: join_Cons)
  with merge_arg_join [OF m] IH(2) rec(2) show ?case by simp
qed simp

lemma merge_arg_raise:
  "merge_arg arg rest = Inl e \<Longrightarrow> e = IndexError \<and> unbalanced (join '','' (arg # rest))"
proof (induction arg rest rule: merge_arg.induct)
  case (1 arg rest)
  from 1(2) have un: "unbalanced arg" by (subst (asm) merge_arg.simps) (auto split: if_splits)
  show ?case
  proof (cases rest)
    case Nil
    with un 1(2) show ?thesis by (subst (asm) merge_arg.simps) simp
  next
    case (Cons a rs)
    with un 1(2) have "merge_arg (arg @ '','' @ a) rs = Inl e" by (subst (asm) merge_arg.simps) simp
    from 1(1)[OF un Cons this] Cons show ?thesis by (cases rs) auto
  qed
qed

lemma merge_arg_suffix: "merge_arg arg rest = Inr (arg', rest') \<Longrightarrow> \<exists>pre. rest = pre @ rest'"
proof (induction arg rest rule: merge_arg.induct)
  case (1 arg rest)
  show ?case
  proof (cases "unbalanced arg")
    case True
    then obtain a rs where rest: "rest = a # rs" and rec: "merge_arg (arg @ '','' @ a) rs = Inr (arg', rest')"
      using 1(2) by (subst (asm) (2) merge_arg.simps) (auto split: list.splits)
    from 1(1)[OF True rest rec] rest show ?thesis by auto
  next
    case False
    with 1(2) show ?thesis by (subst (asm) merge_arg.simps) auto
  qed
qed

lemma collapse_args_raise:
  "collapse_args args = Inl e \<Longrightarrow>
     e = IndexError \<and> (\<exists>pre suf. args = pre @ suf \<and> suf \<noteq> [] \<and> unbalanced (join '','' suf))"
proof (induction args rule: collapse_args.induct)
  case (2 arg rest)
  show ?case
  proof (cases "merge_arg arg rest")
    case (Inl e')
    with 2(2) merge_arg_raise [OF Inl] have "e = IndexError" "unbalanced (join '','' (arg # rest))" by auto
    then show ?thesis by (metis append_Nil list.distinct(1))
  next
    case (Inr ar)
    obtain arg' rest' where ar: "ar = (arg', rest')" by fastforce
    with Inr 2(2) have rec: "collapse_args rest' = Inl e" by (auto simp: res_bind_eq_Inl)
    obtain pre where pre: "rest = pre @ rest'" using merge_arg_suffix Inr ar by blast
    from 2(1)[OF Inr ar [symmetric] rec] obtain p suf where "e = IndexError" "rest' = p @ suf" "suf \<noteq> []"
      "unbalanced (join '','' suf)" by blast
    with pre show ?thesis by (intro conjI exI [of _ "arg # pre @ p"] exI [of _ suf]) auto
  qed
qed simp

lemma collapse_args_balanced: "list_all (\<lambda>a. \<not> unbalanced a) args \<Longrightarrow> collapse_args args = Inr args"
  by (induction args) (simp_all add: merge_arg.simps)

lemma simple_checks_total:
  assumes "n < length (cl_elided cl)"
  shows "returns (CheckForMultilineCommentsAndStrings f cl n)" "returns (CheckPosixThreading f cl n)"
    "returns (CheckVlogArguments f cl n)" "returns (CheckInvalidIncrement f cl n)"
    "returns (CheckSpacingForFunctionCall f cl n)" "returns (CheckAccess f cl n st)"
    "returns (FlagCxx11Features f cl n)" "returns (FlagCxx14Features f cl n)"
  using assms
  by (simp_all add: CheckForMultilineCommentsAndStrings_def CheckPosixThreading_def CheckVlogArguments_def
      CheckInvalidIncrement_def CheckSpacingForFunctionCall_def CheckAccess_def FlagCxx11Features_def
      FlagCxx14Features_def Let_def)

lemma namespace_indentation_total:
  assumes "n < length (cl_elided cl)"
  shows "returns (CheckForNamespaceIndentation f st cl n)"
proof -
  have prev: "returns (py_nth (cl_elided cl) (int n - 1))" if "0 < n"
    using assms that by (simp add: py_nth_pred returns_def)
  show ?thesis
    using assms prev
    unfolding CheckForNamespaceIndentation_def ShouldCheckNamespaceIndentation_def IsForwardClassDeclaration_def
      IsMacroDefinition_def CheckItemIndentationInNamespace_def
    by (auto intro!: returns_bind)
qed

section \<open>Properties\<close>

text \<open>
  C33: Joining the arguments of a constructor that were split at commas keeps their text, and
  no joined argument has more opening than closing angle brackets or parentheses.
\<close>
theorem constructor_args_collapsed:
  assumes "collapse_args (split_chr (CHR '','') s) = Inr as"
  shows "join '','' as = s \<and> list_all (\<lambda>a. \<not> unbalanced a) as"
  using collapse_args_join [OF assms] split_chr_join [of "CHR '',''" s] by simp

theorem constructor_args_collapsed_witness:
  "collapse_args (split_chr (CHR '','') ''map<int, int> a, f(1, 2)'') = Inr [''map<int, int> a'', '' f(1, 2)''] \<and>
   join '','' [''map<int, int> a'', '' f(1, 2)''] = ''map<int, int> a, f(1, 2)''"
proof -
  have run: "collapse_args (split_chr (CHR '','') ''map<int, int> a, f(1, 2)'') = Inr [''map<int, int> a'', '' f(1, 2)'']"
    by code_simp
  from constructor_args_collapsed [OF run] run show ?thesis by blast
qed

text \<open>
  C34: The only exception of the joining is the list index past the last argument, and it
  occurs only when the arguments from some point on have more opening than closing
  brackets. A default value with a comparison is such a case.
\<close>
theorem constructor_args_raise:
  assumes "collapse_args args = Inl e"
  shows "e = IndexError \<and> (\<exists>pre suf. args = pre @ suf \<and> suf \<noteq> [] \<and> unbalanced (join '','' suf))"
  by (rule collapse_args_raise [OF assms])

theorem constructor_args_raise_witness:
  "collapse_args [''int a'', '' bool b = c < d''] = Inl IndexError \<and> unbalanced (join '','' ['' bool b = c < d''])"
proof -
  have run: "collapse_args [''int a'', '' bool b = c < d''] = Inl IndexError" by code_simp
  from constructor_args_raise [OF run] have "\<exists>e. e = IndexError" by blast
  moreover have "unbalanced (join '','' ['' bool b = c < d''])" by code_simp
  ultimately show ?thesis using run by simp
qed

definition demo_class :: nesting_state where
  "demo_class = push ((new_block 0 1 True)\<lparr>kind := ClassInfo \<lparr>c_name = ''A::Foo'', is_derived = False, access = ''public'',
     is_struct = True, class_indent = 0, last_line = 9\<rparr>\<rparr>) NestingState"

lemma nonstandard_constructs_raise:
  "CheckForNonStandardConstructs ''a.h'' (demo_cond\<lparr>cl_lines := [''  Foo(int a = b < c);''], cl_elided := [''  Foo(int a = b < c);'']\<rparr>)
     0 demo_class = Inl IndexError"
  by code_simp

text \<open>
  A file is reported to lack its final newline exactly when it is not empty and its last
  character is not a newline, for the lines that the program builds from its text.
\<close>
theorem newline_at_eof:
  "CheckForNewlineAtEOF f (m1 # split_chr nl text @ [m2]) = [] \<longleftrightarrow> text = [] \<or> last text = nl"
proof -
  let ?ls = "split_chr nl text"
  have "length ?ls \<ge> 1" by (simp add: Suc_le_eq)
  then have "(m1 # ?ls @ [m2]) ! (length (m1 # ?ls @ [m2]) - 2) = last ?ls"
    by (auto simp: nth_Cons' nth_append last_conv_nth Suc_le_eq)
  moreover have "\<not> length (m1 # ?ls @ [m2]) < 3" using \<open>length ?ls \<ge> 1\<close> by simp
  ultimately show ?thesis by (simp add: CheckForNewlineAtEOF_def last_split_chr)
qed

text \<open>
  On every line of a cleansed file the checks of comments and strings, threading, log
  arguments, increments, call spacing, access, language versions and namespace
  indentation return: none raises an exception.
\<close>
theorem line_checks_return:
  assumes "CleansedLines ls = Inr cl" "n < length ls"
  shows "returns (CheckForMultilineCommentsAndStrings f cl n) \<and> returns (CheckPosixThreading f cl n) \<and>
    returns (CheckVlogArguments f cl n) \<and> returns (CheckInvalidIncrement f cl n) \<and>
    returns (CheckSpacingForFunctionCall f cl n) \<and> returns (CheckAccess f cl n st) \<and>
    returns (FlagCxx11Features f cl n) \<and> returns (FlagCxx14Features f cl n) \<and>
    returns (CheckForNamespaceIndentation f st cl n)"
proof -
  from CleansedLines_ok [of ls] assms(1) have "length (cl_elided cl) = length ls"
    by (auto dest: list_all2_lengthD)
  with assms(2) have "n < length (cl_elided cl)" by simp
  from simple_checks_total [OF this] namespace_indentation_total [OF this] show ?thesis by blast
qed

theorem line_checks_return_witness:
  "\<exists>cl. CleansedLines [''x = rand();'', ''VLOG(INFO) << 1;''] = Inr cl \<and> returns (CheckPosixThreading ''a.cc'' cl 0)"
proof -
  obtain cl where cl: "CleansedLines [''x = rand();'', ''VLOG(INFO) << 1;''] = Inr cl" using CleansedLines_ok by blast
  from line_checks_return [OF this, of 0] cl show ?thesis by auto
qed

end
