(* ===== verification/PyText.thy ===== *)
theory PyText
  imports PyRegex
begin

text \<open>
  More of the Python standard library: slices with negative bounds, searches from a
  position, loops that stop at the first hit, the iterators of the \<open>re\<close> module, and
  patterns that are built from text of the file. The second part reads facts off the
  syntax tree of a pattern: \<open>must\<close> says that every match contains a character,
  \<open>leads\<close> that the first group is a prefix of the line followed by a given character.
  Both are executable, so a client discharges them for a concrete pattern by evaluation.
\<close>

section \<open>Slices and positions\<close>

text \<open>A bound of a slice counts from the end when it is negative, and is cut to the list.\<close>

definition slice_pos :: "'a list \<Rightarrow> int \<Rightarrow> nat" where
  "slice_pos xs i = (if i < 0 then length xs - nat (- i) else nat i)"

definition py_from :: "'a list \<Rightarrow> int \<Rightarrow> 'a list" where
  "py_from xs i = drop (slice_pos xs i) xs"

definition py_upto :: "'a list \<Rightarrow> int \<Rightarrow> 'a list" where
  "py_upto xs i = take (slice_pos xs i) xs"

definition py_slice :: "'a list \<Rightarrow> int \<Rightarrow> int \<Rightarrow> 'a list" where
  "py_slice xs i j = drop (slice_pos xs i) (take (slice_pos xs j) xs)"

definition py_index :: "nat option \<Rightarrow> int" where
  "py_index k = (case k of None \<Rightarrow> -1 | Some i \<Rightarrow> int i)"

definition py_find :: "string \<Rightarrow> string \<Rightarrow> int" where
  "py_find s p = py_index (find_sub p s)"

definition py_find_from :: "string \<Rightarrow> string \<Rightarrow> int \<Rightarrow> int" where
  "py_find_from s p i =
     (case find_sub p (py_from s i) of
        None \<Rightarrow> -1
      | Some k \<Rightarrow> if slice_pos s i > length s then -1 else int (slice_pos s i + k))"

definition py_rfind :: "string \<Rightarrow> char \<Rightarrow> int" where
  "py_rfind s c = py_index (rfind_chr c s)"

text \<open>\<open>unicode.isdigit\<close>: the superscripts one, two and three are digits too.\<close>

definition isdigit :: "string \<Rightarrow> bool" where
  "isdigit s \<longleftrightarrow> s \<noteq> [] \<and> list_all (\<lambda>c. is_digit c \<or> ord_of c \<in> set [178, 179, 185]) s"

definition lstrip_set :: "string \<Rightarrow> string \<Rightarrow> string" where
  "lstrip_set cs s = dropWhile (\<lambda>c. c \<in> set cs) s"

definition rstrip_set :: "string \<Rightarrow> string \<Rightarrow> string" where
  "rstrip_set cs s = rev (dropWhile (\<lambda>c. c \<in> set cs) (rev s))"

lemma py_from_nonneg [simp]: "py_from xs (int n) = drop n xs"
  by (simp add: py_from_def slice_pos_def)

lemma py_upto_nonneg [simp]: "py_upto xs (int n) = take n xs"
  by (simp add: py_upto_def slice_pos_def)

lemma rfind_chr_bound: "rfind_chr c s = Some i \<Longrightarrow> i < length s \<and> s ! i = c"
  by (induction s arbitrary: i) (auto split: option.splits if_splits)

lemma rfind_chr_None: "rfind_chr c s = None \<longleftrightarrow> c \<notin> set s"
  by (induction s) (auto split: option.splits)

lemma py_rfind_bound: "py_rfind s c = i \<Longrightarrow> i \<noteq> -1 \<Longrightarrow> 0 \<le> i \<and> nat i < length s \<and> s ! nat i = c"
  by (auto simp: py_rfind_def py_index_def split: option.splits dest: rfind_chr_bound)

lemma py_rfind_neg: "py_rfind s c < 0 \<longleftrightarrow> c \<notin> set s"
  by (auto simp: py_rfind_def py_index_def rfind_chr_None [symmetric] split: option.splits)

lemma find_sub_bound: "find_sub [c] s = Some i \<Longrightarrow> i < length s"
  by (auto elim: find_sub_single_SomeE)

lemma py_find_from_bound: "py_find_from s [c] i = k \<Longrightarrow> k \<noteq> -1 \<Longrightarrow> 0 \<le> k \<and> nat k < length s"
  by (fastforce simp: py_find_from_def py_from_def split: option.splits if_splits dest: find_sub_bound)

section \<open>Loops with an early exit\<close>

text \<open>The first element that satisfies a test, where the test may raise.\<close>

fun find_res :: "('a \<Rightarrow> bool res) \<Rightarrow> 'a list \<Rightarrow> 'a option res" where
  "find_res test [] = Inr None"
| "find_res test (x # xs) =
     res_bind (test x) (\<lambda>hit. if hit then Inr (Some x) else find_res test xs)"

lemma find_res_total: "list_all (\<lambda>x. returns (test x)) xs \<Longrightarrow> returns (find_res test xs)"
  by (induction xs) (auto intro!: returns_bind)

lemma find_res_Some: "find_res test xs = Inr (Some x) \<Longrightarrow> x \<in> set xs \<and> test x = Inr True"
  by (induction xs) (auto split: if_splits)

section \<open>More of the re module\<close>

definition match_pat :: "string \<Rightarrow> string \<Rightarrow> pymatch option" where
  "match_pat pattern s = (case compile pattern of None \<Rightarrow> None | Some r \<Rightarrow> re_match r s)"

definition search_pat :: "string \<Rightarrow> string \<Rightarrow> pymatch option" where
  "search_pat pattern s = (case compile pattern of None \<Rightarrow> None | Some r \<Rightarrow> re_search r s)"

text \<open>\<open>re.escape\<close>, with real backslashes, for text of the file in a pattern; a NUL stands for itself.\<close>

definition escape_raw :: "string \<Rightarrow> string" where
  "escape_raw s = concat (map (\<lambda>c. if is_word c \<and> c \<noteq> CHR ''_'' \<or> ord_of c = 0 then [c] else [bsl, c]) s)"

function (sequential) finditer_from :: "re \<Rightarrow> string \<Rightarrow> string \<Rightarrow> pymatch list" where
  "finditer_from r b [] = (case match_at r (b, [], []) of None \<Rightarrow> [] | Some m \<Rightarrow> [m])"
| "finditer_from r b (c # a) =
     (case match_at r (b, c # a, []) of
        None \<Rightarrow> finditer_from r (c # b) a
      | Some m \<Rightarrow>
          m # (if m_text m = [] then finditer_from r (c # b) a
               else finditer_from r (rev (m_text m) @ b) (drop (length (m_text m)) (c # a))))"
  by pat_completeness auto
termination
  by (relation "measure (\<lambda>(r, b, a). length a)") auto

definition finditer :: "string \<Rightarrow> string \<Rightarrow> pymatch list" where
  "finditer pattern s = (case compile (bs pattern) of None \<Rightarrow> [] | Some r \<Rightarrow> finditer_from r [] s)"

function (sequential) re_split_from :: "re \<Rightarrow> string \<Rightarrow> string \<Rightarrow> string \<Rightarrow> string list" where
  "re_split_from r w b [] = [rev w]"
| "re_split_from r w b (c # a) =
     (case match_at r (b, c # a, []) of
        None \<Rightarrow> re_split_from r (c # w) (c # b) a
      | Some m \<Rightarrow>
          (if m_text m = [] then re_split_from r (c # w) (c # b) a
           else rev w # re_split_from r [] (rev (m_text m) @ b) (drop (length (m_text m)) (c # a))))"
  by pat_completeness auto
termination
  by (relation "measure (\<lambda>(r, w, b, a). length a)") auto

definition re_split :: "string \<Rightarrow> string \<Rightarrow> string list" where
  "re_split pattern s = (case compile (bs pattern) of None \<Rightarrow> [s] | Some r \<Rightarrow> re_split_from r [] [] s)"

text \<open>The flag \<open>re.I\<close> on a tree without letters in its classes.\<close>

definition upper_chr :: "char \<Rightarrow> char" where
  "upper_chr c = (if 97 \<le> ord_of c \<and> ord_of c \<le> 122 then char_of (ord_of c - 32) else c)"

primrec ignore_case :: "re \<Rightarrow> re" where
  "ignore_case Eps = Eps"
| "ignore_case (Chr c) = Cls False [CChr c, CChr (upper_chr c), CChr (if ord_of c < 128 then lower_chr c else c)]"
| "ignore_case Any = Any"
| "ignore_case (Cls neg cs) = Cls neg cs"
| "ignore_case (Seq p q) = Seq (ignore_case p) (ignore_case q)"
| "ignore_case (Alt p q) = Alt (ignore_case p) (ignore_case q)"
| "ignore_case (Star gr p) = Star gr (ignore_case p)"
| "ignore_case (Grp n p) = Grp n (ignore_case p)"
| "ignore_case Bol = Bol"
| "ignore_case Eol = Eol"
| "ignore_case WordB = WordB"
| "ignore_case NWordB = NWordB"
| "ignore_case (Look pos p) = Look pos (ignore_case p)"
| "ignore_case (BackRef n) = BackRef n"

definition SearchI :: "string \<Rightarrow> string \<Rightarrow> pymatch option" where
  "SearchI pattern s = (case compile (bs pattern) of None \<Rightarrow> None | Some r \<Rightarrow> re_search (ignore_case r) s)"

section \<open>Facts from the tree of a pattern\<close>

fun must :: "char \<Rightarrow> re \<Rightarrow> bool" where
  "must c (Chr d) \<longleftrightarrow> c = d"
| "must c (Seq p q) \<longleftrightarrow> must c p \<or> must c q"
| "must c (Alt p q) \<longleftrightarrow> must c p \<and> must c q"
| "must c (Grp n p) \<longleftrightarrow> must c p"
| "must c _ \<longleftrightarrow> False"

lemma must_consumes:
  "(b', a', g') \<in> set (ms r (b, a, g)) \<Longrightarrow> must c r \<Longrightarrow> \<exists>w. a = w @ a' \<and> c \<in> set w"
proof (induction r arbitrary: b a g b' a' g')
  case (Seq p q)
  from Seq.prems(1) obtain b1 a1 g1 where 1: "(b1, a1, g1) \<in> set (ms p (b, a, g))"
    and 2: "(b', a', g') \<in> set (ms q (b1, a1, g1))" by auto
  from ms_consumes [OF 1] ms_consumes [OF 2] Seq.prems(2) Seq.IH(1)[OF 1] Seq.IH(2)[OF 2]
  show ?case by auto
next
  case (Grp n p)
  then show ?case by fastforce
qed (auto simp: step1_mem split: if_splits)

definition pattern_must :: "char \<Rightarrow> string \<Rightarrow> bool" where
  "pattern_must c p \<longleftrightarrow> (case compile (bs p) of None \<Rightarrow> False | Some r \<Rightarrow> must c r)"

lemma Match_must:
  assumes "Match p s = Some m" "pattern_must c p"
  shows "c \<in> set (m_text m)"
proof -
  from assms(2) obtain r where r: "compile (bs p) = Some r" "must c r"
    by (auto simp: pattern_must_def split: option.splits)
  from Match_memE [OF assms(1) r(1)] obtain a' where
    "(rev (m_text m), a', m_groups m) \<in> set (ms r ([], m_text m @ a', []))" by metis
  from must_consumes [OF this r(2)] show ?thesis by auto
qed

lemma Search_must:
  assumes "Search p s = Some m" "pattern_must c p"
  shows "c \<in> set (m_text m)"
proof -
  from assms(2) obtain r where r: "compile (bs p) = Some r" "must c r"
    by (auto simp: pattern_must_def split: option.splits)
  from Search_memE [OF assms(1) r(1)] obtain u v where
    "(rev (m_text m) @ rev u, v, m_groups m) \<in> set (ms r (rev u, m_text m @ v, []))" by metis
  from must_consumes [OF this r(2)] show ?thesis by auto
qed

lemma Match_must_line: "Match p s = Some m \<Longrightarrow> pattern_must c p \<Longrightarrow> c \<in> set s"
  using Match_must Match_text(1) by fastforce

lemma Search_end:
  assumes "Search p s = Some m" "pattern_must c p"
  shows "0 < m_end m" "m_end m \<le> length s"
proof -
  from assms(1) obtain r where "re_search r s = Some m" by (auto simp: Search_def split: option.splits)
  from re_search_text [OF this] Search_must [OF assms] show "0 < m_end m" "m_end m \<le> length s"
    by auto
qed

fun first_chr :: "char \<Rightarrow> re \<Rightarrow> bool" where
  "first_chr c (Chr d) \<longleftrightarrow> c = d"
| "first_chr c (Seq p q) \<longleftrightarrow> first_chr c p"
| "first_chr c _ \<longleftrightarrow> False"

lemma first_chr_consumes:
  "(b', a', g') \<in> set (ms r (b, a, g)) \<Longrightarrow> first_chr c r \<Longrightarrow> \<exists>w. a = c # w"
proof (induction r arbitrary: b a g b' a' g')
  case (Seq p q)
  then show ?case by fastforce
qed (auto simp: step1_mem)

fun lead_group :: "char \<Rightarrow> re \<Rightarrow> bool" where
  "lead_group c (Seq Bol (Seq (Grp n x) q)) \<longleftrightarrow> n = 1 \<and> first_chr c q \<and> 1 \<notin> set (grps q)"
| "lead_group c _ \<longleftrightarrow> False"

lemma lead_groupE:
  assumes "lead_group c r"
  obtains x q where "r = Seq Bol (Seq (Grp 1 x) q)" "first_chr c q" "1 \<notin> set (grps q)"
  using assms by (cases "(c, r)" rule: lead_group.cases) auto

definition leads :: "string \<Rightarrow> char \<Rightarrow> bool" where
  "leads p c \<longleftrightarrow> (case compile (bs p) of None \<Rightarrow> False | Some r \<Rightarrow> lead_group c r)"

lemma Match_leads:
  assumes "Match p s = Some m" "leads p c"
  shows "\<exists>t. s = grp m 1 @ c # t"
proof -
  from assms(2) obtain x q where r: "compile (bs p) = Some (Seq Bol (Seq (Grp 1 x) q))"
    and q: "first_chr c q" "1 \<notin> set (grps q)"
    by (auto simp: leads_def split: option.splits elim: lead_groupE)
  from Match_inv [OF assms(1) r] obtain a' b1 a1 g1 where
    1: "(b1, a1, g1) \<in> set (ms x ([], s, []))"
    and 2: "(rev (m_text m), a', m_groups m) \<in> set (ms q (b1, a1, (1, 0, take (length s - length a1) s) # g1))"
    by (auto simp: ms_inv simp del: ms.simps)
  from ms_consumes [OF 1] obtain w where w: "s = w @ a1" by blast
  from first_chr_consumes [OF 2 q(1)] obtain t where t: "a1 = c # t" by blast
  from ms_groups_frame [OF 2 q(2)] w have "grp m 1 = w"
    by (simp add: grp_def group_def)
  with w t show ?thesis by blast
qed

lemma leads_pos: "Match p s = Some m \<Longrightarrow> leads p c \<Longrightarrow> length (grp m 1) < length s"
  using Match_leads by fastforce

text \<open>
  \<open>min_len\<close> is a lower bound on the length of a match; \<open>shrinks\<close> says that group 2 is
  preceded by text, so that a loop that continues with group 2 gets closer to its end.
\<close>

fun min_len :: "re \<Rightarrow> nat" where
  "min_len (Chr c) = 1"
| "min_len Any = 1"
| "min_len (Cls neg cs) = 1"
| "min_len (Seq p q) = min_len p + min_len q"
| "min_len (Alt p q) = min (min_len p) (min_len q)"
| "min_len (Grp n p) = min_len p"
| "min_len _ = 0"

lemma min_len_consumes:
  "(b', a', g') \<in> set (ms r (b, a, g)) \<Longrightarrow> min_len r + length a' \<le> length a"
proof (induction r arbitrary: b a g b' a' g')
  case (Seq p q)
  then show ?case by fastforce
next
  case (Alt p q)
  then show ?case by fastforce
next
  case (Star gr p)
  then show ?case using ms_consumes [OF Star.prems] by auto
next
  case (Grp n p)
  then show ?case by fastforce
next
  case (Look pos p)
  then show ?case by (auto dest!: ms_Look_mem)
qed (auto simp: ms_mem split: if_splits)

fun shrink_from :: "nat \<Rightarrow> re \<Rightarrow> bool" where
  "shrink_from k (Seq p q) \<longleftrightarrow>
     (case p of
        Grp n x \<Rightarrow> (if n = 2 then 1 \<le> k \<and> 2 \<notin> set (grps q) else shrink_from (k + min_len p) q)
      | _ \<Rightarrow> shrink_from (k + min_len p) q)"
| "shrink_from k _ \<longleftrightarrow> False"

lemma shrink_from_group:
  "(b', a', g') \<in> set (ms r (b, a, g)) \<Longrightarrow> shrink_from k r \<Longrightarrow>
     \<exists>i t. map_of g' 2 = Some (i, t) \<and> length t < length a + k"
proof (induction r arbitrary: b a g k)
  case (Seq p q)
  from Seq.prems(1) obtain b1 a1 g1 where 1: "(b1, a1, g1) \<in> set (ms p (b, a, g))"
    and 2: "(b', a', g') \<in> set (ms q (b1, a1, g1))" by auto
  note len = min_len_consumes [OF 1]
  show ?case
  proof (cases "\<exists>x. p = Grp 2 x")
    case True
    then obtain x where p: "p = Grp 2 x" by blast
    with Seq.prems(2) have q: "1 \<le> k" "2 \<notin> set (grps q)" by auto
    from 1 p obtain t i where "map_of g1 2 = Some (i, t)" "length t \<le> length a"
      by (auto simp: ms_Grp_mem simp del: ms.simps)
    with ms_groups_frame [OF 2 q(2)] q(1) show ?thesis by (auto intro: le_less_trans)
  next
    case False
    with Seq.prems(2) have "shrink_from (k + min_len p) q" by (auto split: re.splits if_splits)
    from Seq.IH(2)[OF 2 this] len show ?thesis by fastforce
  qed
qed auto

definition shrinks :: "string \<Rightarrow> bool" where
  "shrinks p \<longleftrightarrow> (case compile (bs p) of None \<Rightarrow> False | Some r \<Rightarrow> shrink_from 0 r)"

lemma Match_shrinks:
  assumes "Match p s = Some m" "shrinks p"
  shows "length (grp m 2) < length s"
proof -
  from assms(2) obtain r where r: "compile (bs p) = Some r" "shrink_from 0 r"
    by (auto simp: shrinks_def split: option.splits)
  from Match_inv [OF assms(1) r(1)] obtain a' where "(rev (m_text m), a', m_groups m) \<in> set (ms r ([], s, []))" ..
  from shrink_from_group [OF this r(2)] show ?thesis by (auto simp: grp_def group_def)
qed

text \<open>
  \<open>words\<close> lists the texts that a tree without repetition matches, and \<open>group_words\<close> those
  that a group of a pattern can capture.
\<close>

fun words :: "re \<Rightarrow> string list option" where
  "words Eps = Some [[]]"
| "words (Chr c) = Some [[c]]"
| "words (Seq p q) =
     (case (words p, words q) of (Some us, Some vs) \<Rightarrow> Some [u @ v. u \<leftarrow> us, v \<leftarrow> vs] | _ \<Rightarrow> None)"
| "words (Alt p q) = (case (words p, words q) of (Some us, Some vs) \<Rightarrow> Some (us @ vs) | _ \<Rightarrow> None)"
| "words (Grp n p) = words p"
| "words _ = None"

lemma words_consumed:
  "(b', a', g') \<in> set (ms r (b, a, g)) \<Longrightarrow> words r = Some ws \<Longrightarrow> \<exists>w \<in> set ws. a = w @ a'"
proof (induction r arbitrary: b a g b' a' g' ws)
  case (Seq p q)
  from Seq.prems(1) obtain b1 a1 g1 where 1: "(b1, a1, g1) \<in> set (ms p (b, a, g))"
    and 2: "(b', a', g') \<in> set (ms q (b1, a1, g1))" by auto
  from Seq.prems(2) obtain us vs where w: "words p = Some us" "words q = Some vs" "ws = [u @ v. u \<leftarrow> us, v \<leftarrow> vs]"
    by (auto split: option.splits)
  from Seq.IH(1)[OF 1 w(1)] Seq.IH(2)[OF 2 w(2)] w(3) show ?case by fastforce
next
  case (Alt p q)
  then show ?case by (fastforce split: option.splits)
next
  case (Grp n p)
  then show ?case by fastforce
qed (auto simp: step1_mem)

fun seq_group :: "nat \<Rightarrow> re \<Rightarrow> re option" where
  "seq_group n (Seq p q) =
     (case p of
        Grp k x \<Rightarrow> (if k = n then (if n \<in> set (grps q) then None else Some x) else seq_group n q)
      | _ \<Rightarrow> seq_group n q)"
| "seq_group n (Grp k x) = (if k = n then Some x else None)"
| "seq_group n _ = None"

lemma seq_group_text:
  "(b', a', g') \<in> set (ms r (b, a, g)) \<Longrightarrow> seq_group n r = Some x \<Longrightarrow>
     \<exists>i t b1 a2 g1 g2. map_of g' n = Some (i, t) \<and> (rev t @ b1, a2, g2) \<in> set (ms x (b1, t @ a2, g1))"
proof (induction r arbitrary: b a g)
  case (Seq p q)
  from Seq.prems(1) obtain b1 a1 g1 where 1: "(b1, a1, g1) \<in> set (ms p (b, a, g))"
    and 2: "(b', a', g') \<in> set (ms q (b1, a1, g1))" by auto
  show ?case
  proof (cases "p = Grp n x \<and> n \<notin> set (grps q)")
    case True
    with 1 obtain bx ax gx where x: "(bx, ax, gx) \<in> set (ms x (b, a, g))"
      and g1: "g1 = (n, length b, take (length a - length ax) a) # gx"
      by (auto simp: ms_Grp_mem simp del: ms.simps)
    from ms_consumes [OF x] obtain w where w: "a = w @ ax" "bx = rev w @ b" by blast
    with ms_groups_frame [OF 2] True g1 x show ?thesis by fastforce
  next
    case False
    with Seq.prems(2) have "seq_group n q = Some x" by (auto split: re.splits if_splits)
    from Seq.IH(2)[OF 2 this] show ?thesis .
  qed
next
  case (Grp k p)
  then have k: "k = n" "p = x" by (auto split: if_splits)
  from Grp.prems(1) k obtain bx ax gx where x: "(bx, ax, gx) \<in> set (ms x (b, a, g))"
    and g1: "g' = (n, length b, take (length a - length ax) a) # gx"
    by (auto simp: ms_Grp_mem simp del: ms.simps)
  from ms_consumes [OF x] obtain w where w: "a = w @ ax" "bx = rev w @ b" by blast
  with g1 x show ?case by fastforce
qed auto

definition group_words :: "string \<Rightarrow> nat \<Rightarrow> string list option" where
  "group_words p n =
     (case compile (bs p) of None \<Rightarrow> None | Some r \<Rightarrow>
        (case seq_group n r of None \<Rightarrow> None | Some x \<Rightarrow> words x))"

lemma match_at_group_words:
  assumes "match_at r (b, a, []) = Some m" "seq_group n r = Some x" "words x = Some ws" "n \<noteq> 0"
  shows "group m n = Some (grp m n) \<and> grp m n \<in> set ws"
proof -
  from assms(1) obtain b' a' where "(b', a', m_groups m) \<in> set (ms r (b, a, []))" by (auto elim: match_at_SomeE)
  from seq_group_text [OF this assms(2)] obtain i t b1 a2 g1 g2 where
    t: "map_of (m_groups m) n = Some (i, t)" "(rev t @ b1, a2, g2) \<in> set (ms x (b1, t @ a2, g1))" by blast
  from words_consumed [OF t(2) assms(3)] have "t \<in> set ws" by auto
  with t(1) assms(4) show ?thesis by (simp add: grp_def group_def)
qed

lemma Match_group_words:
  "Match p s = Some m \<Longrightarrow> group_words p n = Some ws \<Longrightarrow> n \<noteq> 0 \<Longrightarrow> grp m n \<in> set ws"
  by (auto simp: Match_def group_words_def re_match_def mst_start_def split: option.splits dest: match_at_group_words)

lemma finditer_from_mem: "m \<in> set (finditer_from r b a) \<Longrightarrow> \<exists>b' a'. match_at r (b', a', []) = Some m"
proof (induction r b a rule: finditer_from.induct)
  case (2 r b c a)
  then show ?case by (cases "match_at r (b, c # a, [])") (auto split: if_splits)
qed (auto split: option.splits)

lemma finditer_group_words:
  "m \<in> set (finditer p s) \<Longrightarrow> group_words p n = Some ws \<Longrightarrow> n \<noteq> 0 \<Longrightarrow> grp m n \<in> set ws"
  by (auto simp: finditer_def group_words_def split: option.splits dest!: finditer_from_mem dest: match_at_group_words)

end
