(* ===== verification/Nesting_Lines.thy ===== *)
theory Nesting_Lines
  imports Nesting
begin

text \<open>
  Where the blocks on the stack start. The checks that look back from a block to the line
  of its class head or of the enclosing block (\<open>scripts/cpplint.py\<close>: \<open>_IsType\<close>,
  \<open>CheckSectionSpacing\<close>) rely on this invariant of \<open>NestingState.Update\<close>: no block starts
  after the current line, and a block does not start before the one that encloses it.
\<close>

definition started :: "nat \<Rightarrow> block list \<Rightarrow> bool" where
  "started n s \<longleftrightarrow> sorted_wrt (\<ge>) (n # map starting_linenum s)"

definition starts_ok :: "nat \<Rightarrow> nesting_state \<Rightarrow> bool" where
  "starts_ok n st \<longleftrightarrow> started n (stack st) \<and>
     list_all (\<lambda>p. started n (stack_before_if p) \<and> started n (stack_before_else p)) (pp_stack st)"

lemma started_Nil [simp]: "started n []"
  by (simp add: started_def)

lemma started_Cons [simp]: "started n (b # s) \<longleftrightarrow> starting_linenum b \<le> n \<and> started (starting_linenum b) s"
  by (auto simp: started_def)

lemma started_mono: "started n s \<Longrightarrow> n \<le> m \<Longrightarrow> started m s"
  by (auto simp: started_def)

lemma started_le: "started n s \<Longrightarrow> b \<in> set s \<Longrightarrow> starting_linenum b \<le> n"
  by (auto simp: started_def)

lemma started_tl: "started n s \<Longrightarrow> started n (tl s)"
  by (cases s) (auto intro: started_mono)

lemma starts_ok_mono: "starts_ok n st \<Longrightarrow> n \<le> m \<Longrightarrow> starts_ok m st"
  by (auto simp: starts_ok_def list_all_iff intro: started_mono)

lemma started_cong: "map starting_linenum s = map starting_linenum t \<Longrightarrow> started n s = started n t"
  by (simp add: started_def)

lemma deepcopy_starts: "deepcopy i s = (cs, j) \<Longrightarrow> map starting_linenum cs = map starting_linenum s"
  by (induction s arbitrary: i cs j) (auto split: prod.splits)

lemma deepcopy_started: "deepcopy i s = (cs, j) \<Longrightarrow> started n cs = started n s"
  by (rule started_cong) (rule deepcopy_starts)

lemma UpdatePreprocessor_starts: "starts_ok n st \<Longrightarrow> starts_ok n (UpdatePreprocessor line st)"
  by (auto simp: UpdatePreprocessor_def starts_ok_def Let_def deepcopy_started split: prod.splits list.splits)

lemma same_starts:
  "starts_ok n st \<Longrightarrow> map starting_linenum s = map starting_linenum (stack st) \<Longrightarrow> starts_ok n (st\<lparr>stack := s\<rparr>)"
  by (auto simp: starts_ok_def started_cong [of s])

lemma push_starts: "starts_ok n st \<Longrightarrow> starting_linenum b = n \<Longrightarrow> starts_ok n (push b st)"
  by (simp add: starts_ok_def push_def)

lemma pop_starts: "starts_ok n st \<Longrightarrow> starts_ok n (st\<lparr>stack := tl (stack st)\<rparr>)"
  by (simp add: starts_ok_def started_tl)

lemma new_start [simp]:
  "starting_linenum (new_block i n b) = n" "starting_linenum (new_extern_c i n) = n"
  "starting_linenum (new_namespace i nm n) = n"
  by (simp_all add: new_block_def new_extern_c_def new_namespace_def)

lemma new_class_start: "new_class i nm k cl n = Inr b \<Longrightarrow> starting_linenum b = n"
  by (auto simp: new_class_def Let_def)

lemma save_top_starts [simp]: "starts_ok n (save_top st) = starts_ok n st"
  by (simp add: save_top_def starts_ok_def)

lemma update_asm_start [simp]: "starting_linenum (update_asm l d b) = starting_linenum b"
  by (simp add: update_asm_def)

lemma count_parentheses_starts: "starts_ok n st \<Longrightarrow> starts_ok n (count_parentheses l st)"
  by (auto simp: count_parentheses_def Let_def intro!: same_starts split: list.splits)

lemma namespaces_starts: "starts_ok n st \<Longrightarrow> namespaces n l st = (st', l') \<Longrightarrow> starts_ok n st'"
proof (induction n l st rule: namespaces.induct)
  case (1 n l st)
  show ?case
  proof (cases "Match NAMESPACE l")
    case None
    with 1(3,4) show ?thesis by (subst (asm) namespaces.simps) simp
  next
    case (Some m)
    show ?thesis
    proof (cases "find_sub ''{'' (grp m 2)")
      case None
      from 1(1)[OF Some refl refl None push_starts [OF 1(3)]] 1(4) Some None show ?thesis
        by (subst (asm) (2) namespaces.simps) simp
    next
      case found: (Some k)
      from 1(2)[OF Some refl refl found push_starts [OF 1(3)]] 1(4) Some found show ?thesis
        by (subst (asm) (2) namespaces.simps) simp
    qed
  qed
qed

lemma class_declaration_starts:
  "starts_ok n st \<Longrightarrow> class_declaration cl n l st = Inr (st', l') \<Longrightarrow> starts_ok n st'"
  by (auto simp: class_declaration_def push_starts new_class_start split: option.splits if_splits)

lemma check_begin_starts: "starts_ok n st \<Longrightarrow> check_begin cl n st = Inr st' \<Longrightarrow> starts_ok n st'"
  by (cases "stack st")
    (auto simp: check_begin_def CheckBegin_def SeenOpenBrace_def intro!: same_starts split: if_splits block_kind.splits)

lemma update_access_starts: "starts_ok n st \<Longrightarrow> starts_ok n (fst (update_access f m l st))"
  by (auto simp: update_access_def intro!: same_starts split: list.splits block_kind.splits option.splits)

lemma brace_token_starts:
  "starts_ok n st \<Longrightarrow> brace_token f cl n t l st = Inr (st', rs) \<Longrightarrow> starts_ok n st'"
  by (cases "stack st")
    (auto simp: brace_token_def open_brace_def pop_incomplete_def close_brace_def SeenOpenBrace_def Let_def
      push_starts same_starts split: if_splits dest: pop_starts)

lemma braces_starts: "starts_ok n st \<Longrightarrow> braces f cl n l st = Inr (st', rs) \<Longrightarrow> starts_ok n st'"
proof (induction f cl n l st arbitrary: st' rs rule: braces.induct)
  case (1 f cl n l st)
  show ?case
  proof (cases "Match BRACE l")
    case None
    with 1(2,3) show ?thesis by (subst (asm) braces.simps) simp
  next
    case (Some m)
    with 1(3) obtain st1 r1 r2 where tok: "brace_token f cl n (grp m 1) l st = Inr (st1, r1)"
      and rec: "braces f cl n (grp m 2) st1 = Inr (st', r2)"
      by (subst (asm) braces.simps) (auto split: sum.splits)
    from 1(1)[OF Some tok refl brace_token_starts [OF 1(2) tok] rec] show ?thesis .
  qed
qed

lemma Update_starts:
  assumes "starts_ok m st" "m \<le> n" "Update f cl n st = Inr (st', rs)"
  shows "starts_ok n st'"
  using assms(3)
proof (rule UpdateE)
  fix st2 l2 st3 l3 st4 rs2
  assume ns: "namespaces n (cl_elided cl ! n) (count_parentheses (cl_elided cl ! n)
       (UpdatePreprocessor (cl_elided cl ! n) (save_top st))) = (st2, l2)"
    and c: "class_declaration cl n l2 st2 = Inr (st3, l3)" and b: "check_begin cl n st3 = Inr st4"
    and br: "braces f cl n l3 (fst (update_access f n l3 st4)) = Inr (st', rs2)"
  from starts_ok_mono [OF assms(1,2)] have "starts_ok n st2"
    by (intro namespaces_starts [OF _ ns]) (simp add: UpdatePreprocessor_starts count_parentheses_starts)
  from braces_starts [OF update_access_starts [OF check_begin_starts [OF class_declaration_starts [OF this c] b]] br]
  show "starts_ok n st'" .
qed

lemma starts_ok_init: "starts_ok n NestingState"
  by (simp add: starts_ok_def NestingState_def)

lemma Updates_starts:
  "starts_ok m st \<Longrightarrow> Updates f cl ns st = Inr (st', rs) \<Longrightarrow> sorted (m # ns) \<Longrightarrow> starts_ok (last (m # ns)) st'"
proof (induction ns arbitrary: m st rs)
  case (Cons n ns)
  from Cons.prems(2) obtain st1 rs1 rs2 where 1: "Update f cl n st = Inr (st1, rs1)" and 2: "Updates f cl ns st1 = Inr (st', rs2)"
    by (auto split: sum.splits)
  from Update_starts [OF Cons.prems(1) _ 1] Cons.prems(3) have "starts_ok n st1" by simp
  from Cons.IH [OF this 2] Cons.prems(3) show ?case by simp
qed simp

section \<open>Properties\<close>

text \<open>
  C23: After the lines before \<open>n\<close> of a file have been processed, every block on the stack
  starts at one of these lines, and the starting lines do not decrease from a block to the
  blocks inside it.
\<close>
theorem blocks_start_in_order:
  assumes "Updates f cl [0..<n] NestingState = Inr (st, rs)" "stack st = inner # enclosing"
  shows "starting_linenum inner < n \<and> sorted_wrt (\<ge>) (map starting_linenum (inner # enclosing))"
proof -
  have "n \<noteq> 0" using assms by (cases n) (auto simp: NestingState_def)
  from Updates_starts [OF starts_ok_init assms(1), of 0] have "starts_ok (last (0 # [0..<n])) st" by simp
  with \<open>n \<noteq> 0\<close> have "started (n - 1) (inner # enclosing)" by (simp add: starts_ok_def assms(2))
  with \<open>n \<noteq> 0\<close> show ?thesis by (auto simp: started_def)
qed

theorem blocks_start_in_order_witness:
  "\<exists>st rs inner enclosing. Updates ''f.cc'' demo_cond [0..<4] NestingState = Inr (st, rs) \<and>
     stack st = inner # enclosing \<and> starting_linenum inner < 4"
proof -
  have "case Updates ''f.cc'' demo_cond [0..<4] NestingState of Inl _ \<Rightarrow> False | Inr (st, rs) \<Rightarrow> stack st \<noteq> []"
    by code_simp
  then obtain st rs where run: "Updates ''f.cc'' demo_cond [0..<4] NestingState = Inr (st, rs)" and "stack st \<noteq> []"
    by (auto split: sum.splits prod.splits)
  then obtain inner enclosing where st: "stack st = inner # enclosing" by (cases "stack st") auto
  from blocks_start_in_order [OF run st] run st show ?thesis by blast
qed

end
