(* ===== verification/Suppressions.thy ===== *)
theory Suppressions
  imports PyRegex
begin

text \<open>
  The suppression of errors by comments: \<open>NOLINT\<close>, \<open>NOLINT(category)\<close> and
  \<open>NOLINTNEXTLINE\<close> for single lines, \<open>LINT_C_FILE\<close> and \<open>LINT_KERNEL_FILE\<close> for a
  whole file. The record holds the two module-level dictionaries of
  \<open>scripts/cpplint.py\<close>; its functions return the dictionaries they update and the
  errors they report. The lemmas determine what is suppressed after a line has been
  parsed, in terms of what was suppressed before.
\<close>

section \<open>Categories\<close>

definition ERROR_CATEGORIES :: "string list" where
  "ERROR_CATEGORIES = [
    ''build/class'', ''build/c++11'', ''build/c++14'', ''build/c++tr1'', ''build/deprecated'',
    ''build/endif_comment'', ''build/explicit_make_pair'', ''build/forward_decl'',
    ''build/header_guard'', ''build/include'', ''build/include_alpha'',
    ''build/include_order'', ''build/include_what_you_use'', ''build/namespaces'',
    ''build/printf_format'', ''build/storage_class'', ''legal/copyright'',
    ''readability/alt_tokens'', ''readability/braces'', ''readability/casting'',
    ''readability/check'', ''readability/constructors'', ''readability/fn_size'',
    ''readability/inheritance'', ''readability/multiline_comment'',
    ''readability/multiline_string'', ''readability/namespace'', ''readability/nolint'',
    ''readability/nul'', ''readability/strings'', ''readability/todo'', ''readability/utf8'',
    ''runtime/arrays'', ''runtime/casting'', ''runtime/explicit'', ''runtime/int'',
    ''runtime/init'', ''runtime/invalid_increment'', ''runtime/member_string_references'',
    ''runtime/memset'', ''runtime/indentation_namespace'', ''runtime/operator'',
    ''runtime/printf'', ''runtime/printf_format'', ''runtime/references'', ''runtime/string'',
    ''runtime/threadsafe_fn'', ''runtime/vlog'', ''whitespace/blank_line'',
    ''whitespace/braces'', ''whitespace/comma'', ''whitespace/comments'',
    ''whitespace/empty_conditional_body'', ''whitespace/empty_if_body'',
    ''whitespace/empty_loop_body'', ''whitespace/end_of_line'', ''whitespace/ending_newline'',
    ''whitespace/forcolon'', ''whitespace/indent'', ''whitespace/line_length'',
    ''whitespace/newline'', ''whitespace/operators'', ''whitespace/parens'',
    ''whitespace/semicolon'', ''whitespace/tab'', ''whitespace/todo'']"

definition LEGACY_ERROR_CATEGORIES :: "string list" where
  "LEGACY_ERROR_CATEGORIES = [''readability/streams'', ''readability/function'']"

definition DEFAULT_C_SUPPRESSED_CATEGORIES :: "string list" where
  "DEFAULT_C_SUPPRESSED_CATEGORIES = [''readability/casting'']"

definition DEFAULT_KERNEL_SUPPRESSED_CATEGORIES :: "string list" where
  "DEFAULT_KERNEL_SUPPRESSED_CATEGORIES = [''whitespace/tab'']"

section \<open>The suppression dictionaries\<close>

record nolint =
  error_suppressions :: "string option \<rightharpoonup> int set"
  global_error_suppressions :: "string \<rightharpoonup> bool"

definition lines_of :: "nolint \<Rightarrow> string option \<Rightarrow> int set" where
  "lines_of st k = (case error_suppressions st k of None \<Rightarrow> {} | Some ls \<Rightarrow> ls)"

definition suppress :: "string option \<Rightarrow> int \<Rightarrow> nolint \<Rightarrow> nolint" where
  "suppress k l st =
     st\<lparr>error_suppressions := (error_suppressions st)(k \<mapsto> insert l (lines_of st k))\<rparr>"

definition ParseNolintSuppressions ::
  "string \<Rightarrow> string \<Rightarrow> int \<Rightarrow> nolint \<Rightarrow> nolint \<times> report list" where
  "ParseNolintSuppressions filename raw_line linenum st =
     (case Search ''`bNOLINT(NEXTLINE)?`b(`([^)]+`))?'' raw_line of
        None \<Rightarrow> (st, [])
      | Some matched \<Rightarrow>
          (let suppressed_line =
                 (case group matched 1 of
                    None \<Rightarrow> linenum
                  | Some t \<Rightarrow> (if t = [] then linenum else linenum + 1))
           in case group matched 2 of
                None \<Rightarrow> (suppress None suppressed_line st, [])
              | Some category \<Rightarrow>
                  (if category = ''(*)'' then (suppress None suppressed_line st, [])
                   else if startswith category ''('' \<and> endswith category '')'' then
                     (let category = butlast (tl category)
                      in if category \<in> set ERROR_CATEGORIES
                         then (suppress (Some category) suppressed_line st, [])
                         else if category \<notin> set LEGACY_ERROR_CATEGORIES
                         then (st, [Report filename linenum ''readability/nolint'' 5
                                     (''Unknown NOLINT error category: '' @ category)])
                         else (st, []))
                   else (st, []))))"

definition SEARCH_C_FILE :: string where
  "SEARCH_C_FILE = ''`b(?:LINT_C_FILE|vim?:`s*.*(`s*|:)filetype=c(`s*|:|$))''"

definition SEARCH_KERNEL_FILE :: string where
  "SEARCH_KERNEL_FILE = ''`b(?:LINT_KERNEL_FILE)''"

definition suppress_globally :: "string list \<Rightarrow> nolint \<Rightarrow> nolint" where
  "suppress_globally cats st =
     fold (\<lambda>c s. s\<lparr>global_error_suppressions := (global_error_suppressions s)(c \<mapsto> True)\<rparr>) cats st"

fun ProcessGlobalSuppresions :: "string list \<Rightarrow> nolint \<Rightarrow> nolint" where
  "ProcessGlobalSuppresions [] st = st"
| "ProcessGlobalSuppresions (line # lines) st =
     (let st1 = (if Search SEARCH_C_FILE line \<noteq> None
                 then suppress_globally DEFAULT_C_SUPPRESSED_CATEGORIES st else st);
          st2 = (if Search SEARCH_KERNEL_FILE line \<noteq> None
                 then suppress_globally DEFAULT_KERNEL_SUPPRESSED_CATEGORIES st1 else st1)
      in ProcessGlobalSuppresions lines st2)"

definition ResetNolintSuppressions :: "nolint \<Rightarrow> nolint" where
  "ResetNolintSuppressions st =
     st\<lparr>error_suppressions := Map.empty, global_error_suppressions := Map.empty\<rparr>"

definition IsErrorSuppressedByNolint :: "string \<Rightarrow> int \<Rightarrow> nolint \<Rightarrow> bool" where
  "IsErrorSuppressedByNolint category linenum st \<longleftrightarrow>
     (case global_error_suppressions st category of None \<Rightarrow> False | Some v \<Rightarrow> v) \<or>
     linenum \<in> lines_of st (Some category) \<or> linenum \<in> lines_of st None"

section \<open>The contract of a suppression store\<close>

text \<open>
  What the linter relies on: a key is a category or \<open>None\<close> (every category); adding a
  key at a line suppresses exactly what the key names there and nothing else; resetting
  forgets everything.
\<close>

locale suppression_store =
  fixes add :: "string option \<Rightarrow> int \<Rightarrow> 's \<Rightarrow> 's"
    and reset :: "'s \<Rightarrow> 's"
    and suppressed :: "string \<Rightarrow> int \<Rightarrow> 's \<Rightarrow> bool"
  assumes suppressed_add:
      "suppressed c l (add k l' s) \<longleftrightarrow> suppressed c l s \<or> l = l' \<and> (k = None \<or> k = Some c)"
    and suppressed_reset: "\<not> suppressed c l (reset s)"
begin

lemma add_commute: "suppressed c l (add k1 l1 (add k2 l2 s)) \<longleftrightarrow> suppressed c l (add k2 l2 (add k1 l1 s))"
  by (auto simp: suppressed_add)

lemma suppressed_fold:
  "suppressed c l (fold (\<lambda>(k, l'). add k l') kls s) \<longleftrightarrow>
     suppressed c l s \<or> (None, l) \<in> set kls \<or> (Some c, l) \<in> set kls"
proof (induction kls arbitrary: s)
  case (Cons kl kls)
  obtain k l' where "kl = (k, l')" by (cases kl)
  with Cons.IH [of "add k l' s"] show ?case by (simp add: suppressed_add) blast
qed simp

lemma suppressed_after_reset:
  "suppressed c l (fold (\<lambda>(k, l'). add k l') kls (reset s)) \<longleftrightarrow>
     (None, l) \<in> set kls \<or> (Some c, l) \<in> set kls"
  by (simp add: suppressed_fold suppressed_reset)

end

lemma lines_of_suppress [simp]:
  "lines_of (suppress k l st) k' = (if k' = k then insert l (lines_of st k) else lines_of st k')"
  by (simp add: lines_of_def suppress_def)

interpretation nolint_store:
  suppression_store suppress ResetNolintSuppressions IsErrorSuppressedByNolint
  by unfold_locales
    (auto simp: IsErrorSuppressedByNolint_def ResetNolintSuppressions_def lines_of_def suppress_def
      split: option.splits)

section \<open>What parsing a line suppresses\<close>

text \<open>
  The directive a line carries: the line it applies to and its key, where \<open>None\<close> is the
  key of all categories. A directive with an unknown or legacy category has no effect.
\<close>

definition nolint_directive :: "string \<Rightarrow> int \<Rightarrow> (string option \<times> int) option" where
  "nolint_directive raw_line linenum =
     (case Search ''`bNOLINT(NEXTLINE)?`b(`([^)]+`))?'' raw_line of
        None \<Rightarrow> None
      | Some m \<Rightarrow>
          (let l = (if grp m 1 = [] then linenum else linenum + 1)
           in if group m 2 = None \<or> grp m 2 = ''(*)'' then Some (None, l)
              else if startswith (grp m 2) ''('' \<and> endswith (grp m 2) '')''
                \<and> butlast (tl (grp m 2)) \<in> set ERROR_CATEGORIES
              then Some (Some (butlast (tl (grp m 2))), l)
              else None))"

lemma ParseNolint_state:
  "fst (ParseNolintSuppressions f raw n st) =
     (case nolint_directive raw n of None \<Rightarrow> st | Some (k, l) \<Rightarrow> suppress k l st)"
  by (auto simp: ParseNolintSuppressions_def nolint_directive_def grp_def Let_def
      split: option.splits if_splits)

section \<open>Properties\<close>

text \<open>
  C16: Parsing the lines of a file one after the other, from a reset store, suppresses a
  category at a line exactly when some line carries a directive for that line whose key
  is the category or stands for all categories.
\<close>
theorem nolint_scan:
  "IsErrorSuppressedByNolint c l
     (fold (\<lambda>(n, raw) s. fst (ParseNolintSuppressions f raw n s)) nls (ResetNolintSuppressions st)) \<longleftrightarrow>
   (\<exists>n raw k. (n, raw) \<in> set nls \<and> nolint_directive raw n = Some (k, l) \<and> (k = None \<or> k = Some c))"
proof -
  have "IsErrorSuppressedByNolint c l (fold (\<lambda>(n, raw) s. fst (ParseNolintSuppressions f raw n s)) nls s) \<longleftrightarrow>
    IsErrorSuppressedByNolint c l s \<or>
    (\<exists>n raw k. (n, raw) \<in> set nls \<and> nolint_directive raw n = Some (k, l) \<and> (k = None \<or> k = Some c))" for s
  proof (induction nls arbitrary: s)
    case (Cons nl nls)
    obtain n raw where nl: "nl = (n, raw)" by (cases nl)
    have "IsErrorSuppressedByNolint c l (fst (ParseNolintSuppressions f raw n s)) \<longleftrightarrow>
      IsErrorSuppressedByNolint c l s \<or> (\<exists>k. nolint_directive raw n = Some (k, l) \<and> (k = None \<or> k = Some c))"
      by (auto simp: ParseNolint_state nolint_store.suppressed_add split: option.splits)
    then show ?case by (simp only: nl fold_Cons comp_apply prod.case Cons.IH list.set) blast
  qed simp
  then show ?thesis by (simp add: nolint_store.suppressed_reset)
qed

end
