(* ===== verification/Checks.thy ===== *)
theory Checks
  imports Line_Checks PyText Nesting_Lines Suppressions
begin

text \<open>
  The contract of a check of one line. \<open>line_ctx\<close> describes what holds when the program
  calls a check: the four versions of the lines have the same length, the line exists, and
  the blocks on the stack start at lines already visited. A check that keeps
  \<open>line_reports\<close> reports only under its own file name, at a line of the file, with a
  category that filters and directives know and a confidence from 0 to 5; one that keeps
  \<open>line_check\<close> also returns on every line. A sequence of such checks is such a check. The
  checks of \<open>Line_Checks\<close> are instances, and so are those of the theories that follow.
\<close>

section \<open>Results with a property\<close>

definition gives :: "('a \<Rightarrow> bool) \<Rightarrow> 'a res \<Rightarrow> bool" where
  "gives P m \<longleftrightarrow> (\<exists>x. m = Inr x \<and> P x)"

lemma gives_Inr [simp]: "gives P (Inr x) \<longleftrightarrow> P x" and gives_Inl [simp]: "\<not> gives P (Inl e)"
  by (simp_all add: gives_def)

lemma gives_bind: "returns m \<Longrightarrow> (\<And>x. m = Inr x \<Longrightarrow> gives P (f x)) \<Longrightarrow> gives P (res_bind m f)"
  by (auto simp: gives_def returns_def)

lemma gives_returns: "gives P m \<Longrightarrow> returns m"
  by (auto simp: gives_def returns_def)

lemma gives_mono: "gives P m \<Longrightarrow> (\<And>x. P x \<Longrightarrow> Q x) \<Longrightarrow> gives Q m"
  by (auto simp: gives_def)

lemma gives_bind_gives: "gives Q m \<Longrightarrow> (\<And>x. m = Inr x \<Longrightarrow> Q x \<Longrightarrow> gives P (f x)) \<Longrightarrow> gives P (res_bind m f)"
  by (auto simp: gives_def)

text \<open>The same for a result that may be an exception.\<close>

definition yields :: "('a \<Rightarrow> bool) \<Rightarrow> 'a res \<Rightarrow> bool" where
  "yields P m \<longleftrightarrow> (\<forall>x. m = Inr x \<longrightarrow> P x)"

lemma yieldsD: "yields P m \<Longrightarrow> m = Inr x \<Longrightarrow> P x"
  by (simp add: yields_def)

text \<open>
  These rules take a property of a result apart along the definition of a check; the tests
  of the check itself are never unfolded.
\<close>

named_theorems oks \<open>introduction rules for properties of results and of reports\<close>

lemma gives_cases [oks]:
  "P x \<Longrightarrow> gives P (Inr x)"
  "(b \<Longrightarrow> gives P m) \<Longrightarrow> (\<not> b \<Longrightarrow> gives P m') \<Longrightarrow> gives P (if b then m else m')"
  "(z = None \<Longrightarrow> gives P m) \<Longrightarrow> (\<And>y. z = Some y \<Longrightarrow> gives P (k y)) \<Longrightarrow> gives P (case z of None \<Rightarrow> m | Some y \<Rightarrow> k y)"
  by (simp_all split: option.split)

lemma gives_Let [oks]: "gives P (f x) \<Longrightarrow> gives P (Let x f)"
  by simp

lemma gives_prod [oks]: "(\<And>u v. p = (u, v) \<Longrightarrow> gives P (f u v)) \<Longrightarrow> gives P (case p of (u, v) \<Rightarrow> f u v)"
  by (cases p) simp

lemma returns_cases [oks]:
  "returns (Inr x)"
  "(b \<Longrightarrow> returns m) \<Longrightarrow> (\<not> b \<Longrightarrow> returns m') \<Longrightarrow> returns (if b then m else m')"
  "(z = None \<Longrightarrow> returns m) \<Longrightarrow> (\<And>y. z = Some y \<Longrightarrow> returns (k y)) \<Longrightarrow> returns (case z of None \<Rightarrow> m | Some y \<Rightarrow> k y)"
  by (simp_all split: option.split)

lemma returns_Let [oks]: "returns (f x) \<Longrightarrow> returns (Let x f)"
  by simp

lemma returns_prod [oks]: "(\<And>u v. p = (u, v) \<Longrightarrow> returns (f u v)) \<Longrightarrow> returns (case p of (u, v) \<Rightarrow> f u v)"
  by (cases p) simp

lemma yields_cases [oks]:
  "P x \<Longrightarrow> yields P (Inr x)"
  "yields P (Inl e)"
  "(b \<Longrightarrow> yields P m) \<Longrightarrow> (\<not> b \<Longrightarrow> yields P m') \<Longrightarrow> yields P (if b then m else m')"
  "(z = None \<Longrightarrow> yields P m) \<Longrightarrow> (\<And>y. z = Some y \<Longrightarrow> yields P (k y)) \<Longrightarrow> yields P (case z of None \<Rightarrow> m | Some y \<Rightarrow> k y)"
  by (simp_all add: yields_def split: option.split)

lemma yields_bind [oks]: "(\<And>x. m = Inr x \<Longrightarrow> yields P (h x)) \<Longrightarrow> yields P (res_bind m h)"
  by (auto simp: yields_def)

lemma yields_Let [oks]: "yields P (f x) \<Longrightarrow> yields P (Let x f)"
  by simp

lemma yields_prod [oks]: "(\<And>u v. p = (u, v) \<Longrightarrow> yields P (f u v)) \<Longrightarrow> yields P (case p of (u, v) \<Rightarrow> f u v)"
  by (cases p) simp

lemma list_all_cases [oks]:
  "(b \<Longrightarrow> list_all P xs) \<Longrightarrow> (\<not> b \<Longrightarrow> list_all P ys) \<Longrightarrow> list_all P (if b then xs else ys)"
  "(x = None \<Longrightarrow> list_all P xs) \<Longrightarrow> (\<And>y. x = Some y \<Longrightarrow> list_all P (k y)) \<Longrightarrow> list_all P (case x of None \<Rightarrow> xs | Some y \<Rightarrow> k y)"
  "list_all P xs \<Longrightarrow> list_all P ys \<Longrightarrow> list_all P (xs @ ys)"
  "(\<And>z. z \<in> set zs \<Longrightarrow> list_all P (h z)) \<Longrightarrow> list_all P (concat (map h zs))"
  "list_all P []"
  by (auto simp: list_all_iff split: option.split)

lemma list_all_Let [oks]: "list_all P (f x) \<Longrightarrow> list_all P (Let x f)"
  by simp

lemma list_all_prod [oks]: "(\<And>u v. p = (u, v) \<Longrightarrow> list_all P (f u v)) \<Longrightarrow> list_all P (case p of (u, v) \<Rightarrow> f u v)"
  by (cases p) simp

lemmas [oks] = gives_bind returns_bind returns_py_nth

section \<open>Reports\<close>

definition flag :: "bool \<Rightarrow> string \<Rightarrow> nat \<Rightarrow> string \<Rightarrow> int \<Rightarrow> string \<Rightarrow> report list" where
  "flag b filename linenum category confidence message =
     (if b then [Report filename (int linenum) category confidence message] else [])"

fun report_ok :: "string \<Rightarrow> nat \<Rightarrow> report \<Rightarrow> bool" where
  "report_ok filename num (Report f l category confidence message) \<longleftrightarrow>
     f = filename \<and> 0 \<le> l \<and> l < int num \<and> category \<in> set ERROR_CATEGORIES \<and> 0 \<le> confidence \<and> confidence \<le> 5"

lemma flag_ok [oks]:
  "report_ok f num (Report g (int n) category confidence message) \<Longrightarrow>
     list_all (report_ok f num) (flag b g n category confidence message)"
  by (simp add: flag_def)

text \<open>When an intermediate result is itself a list of reports, it has to be right as well.\<close>

lemma bind_reports:
  "gives (list_all (report_ok f k)) m \<Longrightarrow>
     (\<And>rs. list_all (report_ok f k) rs \<Longrightarrow> gives (list_all (report_ok f k)) (h rs)) \<Longrightarrow>
     gives (list_all (report_ok f k)) (res_bind m h)"
  by (auto simp: gives_def)

lemma known_categories [simp]:
  "''build/c++11'' \<in> set ERROR_CATEGORIES" "''build/c++14'' \<in> set ERROR_CATEGORIES"
  "''build/c++tr1'' \<in> set ERROR_CATEGORIES" "''build/class'' \<in> set ERROR_CATEGORIES"
  "''build/deprecated'' \<in> set ERROR_CATEGORIES" "''build/endif_comment'' \<in> set ERROR_CATEGORIES"
  "''build/explicit_make_pair'' \<in> set ERROR_CATEGORIES" "''build/forward_decl'' \<in> set ERROR_CATEGORIES"
  "''build/header_guard'' \<in> set ERROR_CATEGORIES" "''build/include'' \<in> set ERROR_CATEGORIES"
  "''build/include_alpha'' \<in> set ERROR_CATEGORIES" "''build/include_order'' \<in> set ERROR_CATEGORIES"
  "''build/include_what_you_use'' \<in> set ERROR_CATEGORIES" "''build/namespaces'' \<in> set ERROR_CATEGORIES"
  "''build/printf_format'' \<in> set ERROR_CATEGORIES" "''build/storage_class'' \<in> set ERROR_CATEGORIES"
  "''legal/copyright'' \<in> set ERROR_CATEGORIES" "''readability/alt_tokens'' \<in> set ERROR_CATEGORIES"
  "''readability/braces'' \<in> set ERROR_CATEGORIES" "''readability/casting'' \<in> set ERROR_CATEGORIES"
  "''readability/check'' \<in> set ERROR_CATEGORIES" "''readability/constructors'' \<in> set ERROR_CATEGORIES"
  "''readability/fn_size'' \<in> set ERROR_CATEGORIES" "''readability/inheritance'' \<in> set ERROR_CATEGORIES"
  "''readability/multiline_comment'' \<in> set ERROR_CATEGORIES" "''readability/multiline_string'' \<in> set ERROR_CATEGORIES"
  "''readability/namespace'' \<in> set ERROR_CATEGORIES" "''readability/nolint'' \<in> set ERROR_CATEGORIES"
  "''readability/nul'' \<in> set ERROR_CATEGORIES" "''readability/todo'' \<in> set ERROR_CATEGORIES"
  "''readability/utf8'' \<in> set ERROR_CATEGORIES" "''runtime/arrays'' \<in> set ERROR_CATEGORIES"
  "''runtime/casting'' \<in> set ERROR_CATEGORIES" "''runtime/explicit'' \<in> set ERROR_CATEGORIES"
  "''runtime/indentation_namespace'' \<in> set ERROR_CATEGORIES" "''runtime/init'' \<in> set ERROR_CATEGORIES"
  "''runtime/int'' \<in> set ERROR_CATEGORIES" "''runtime/invalid_increment'' \<in> set ERROR_CATEGORIES"
  "''runtime/member_string_references'' \<in> set ERROR_CATEGORIES" "''runtime/memset'' \<in> set ERROR_CATEGORIES"
  "''runtime/operator'' \<in> set ERROR_CATEGORIES" "''runtime/printf'' \<in> set ERROR_CATEGORIES"
  "''runtime/printf_format'' \<in> set ERROR_CATEGORIES" "''runtime/references'' \<in> set ERROR_CATEGORIES"
  "''runtime/string'' \<in> set ERROR_CATEGORIES" "''runtime/threadsafe_fn'' \<in> set ERROR_CATEGORIES"
  "''runtime/vlog'' \<in> set ERROR_CATEGORIES" "''whitespace/blank_line'' \<in> set ERROR_CATEGORIES"
  "''whitespace/braces'' \<in> set ERROR_CATEGORIES" "''whitespace/comma'' \<in> set ERROR_CATEGORIES"
  "''whitespace/comments'' \<in> set ERROR_CATEGORIES" "''whitespace/empty_conditional_body'' \<in> set ERROR_CATEGORIES"
  "''whitespace/empty_if_body'' \<in> set ERROR_CATEGORIES" "''whitespace/empty_loop_body'' \<in> set ERROR_CATEGORIES"
  "''whitespace/end_of_line'' \<in> set ERROR_CATEGORIES" "''whitespace/ending_newline'' \<in> set ERROR_CATEGORIES"
  "''whitespace/forcolon'' \<in> set ERROR_CATEGORIES" "''whitespace/indent'' \<in> set ERROR_CATEGORIES"
  "''whitespace/line_length'' \<in> set ERROR_CATEGORIES" "''whitespace/newline'' \<in> set ERROR_CATEGORIES"
  "''whitespace/operators'' \<in> set ERROR_CATEGORIES" "''whitespace/parens'' \<in> set ERROR_CATEGORIES"
  "''whitespace/semicolon'' \<in> set ERROR_CATEGORIES" "''whitespace/tab'' \<in> set ERROR_CATEGORIES"
  "''whitespace/todo'' \<in> set ERROR_CATEGORIES"
  by code_simp+

section \<open>The contract\<close>

definition lines_full :: "cleansed_lines \<Rightarrow> bool" where
  "lines_full cl \<longleftrightarrow> lines_ok cl \<and> length (cl_lines cl) = cl_num_lines cl \<and>
     length (cl_lines_without_raw_strings cl) = cl_num_lines cl"

definition line_ctx :: "cleansed_lines \<Rightarrow> nat \<Rightarrow> nesting_state \<Rightarrow> bool" where
  "line_ctx cl n st \<longleftrightarrow> lines_full cl \<and> n < cl_num_lines cl \<and> starts_ok n st"

lemma line_ctxD:
  assumes "line_ctx cl n st"
  shows "n < length (cl_elided cl)" "n < length (cl_lines cl)" "n < length (cl_raw_lines cl)"
    "n < length (cl_lines_without_raw_strings cl)" "n < cl_num_lines cl" "lines_ok cl" "started n (stack st)"
    "length (cl_elided cl) = cl_num_lines cl" "length (cl_lines cl) = cl_num_lines cl"
    "length (cl_raw_lines cl) = cl_num_lines cl" "length (cl_lines_without_raw_strings cl) = cl_num_lines cl"
  using assms by (auto simp: line_ctx_def lines_full_def lines_ok_def starts_ok_def)

lemma CleansedLines_full: "CleansedLines ls = Inr cl \<Longrightarrow> lines_full cl \<and> cl_num_lines cl = length ls"
  using CleansedLines_ok [of ls] CleansedLines_lines_ok [of ls cl]
  by (auto simp: lines_full_def dest: list_all2_lengthD)

type_synonym check = "string \<Rightarrow> cleansed_lines \<Rightarrow> nat \<Rightarrow> nesting_state \<Rightarrow> report list res"

locale line_reports =
  fixes check :: check
  assumes reports: "line_ctx cl n st \<Longrightarrow> check f cl n st = Inr rs \<Longrightarrow> list_all (report_ok f (cl_num_lines cl)) rs"

locale line_check = line_reports +
  assumes total: "line_ctx cl n st \<Longrightarrow> returns (check f cl n st)"
begin

lemma result: "line_ctx cl n st \<Longrightarrow> gives (list_all (report_ok f (cl_num_lines cl))) (check f cl n st)"
  using reports total by (fastforce simp: gives_def returns_def)

end

text \<open>A check keeps the contract when its result does.\<close>

lemma line_checkI:
  assumes "\<And>f cl n st. line_ctx cl n st \<Longrightarrow> gives (list_all (report_ok f (cl_num_lines cl))) (check f cl n st)"
  shows "line_check check"
proof
  fix cl n st f rs assume "line_ctx cl n st"
  from assms [OF this, of f] show "returns (check f cl n st)"
    and "check f cl n st = Inr rs \<Longrightarrow> list_all (report_ok f (cl_num_lines cl)) rs"
    by (auto simp: gives_def returns_def)
qed

definition seq_check :: "check \<Rightarrow> check \<Rightarrow> check" where
  "seq_check c d f cl n st = res_bind (c f cl n st) (\<lambda>rs. res_bind (d f cl n st) (\<lambda>qs. Inr (rs @ qs)))"

locale two_checks = first: line_check c + second: line_check d for c d :: check
begin

lemma both: "line_check (seq_check c d)"
  by (rule line_checkI)
    (auto simp: seq_check_def intro!: gives_bind first.total second.total dest: first.reports second.reports)

end

fun run_checks :: "check list \<Rightarrow> check" where
  "run_checks [] f cl n st = Inr []"
| "run_checks (c # cs) f cl n st = seq_check c (run_checks cs) f cl n st"

lemma run_checks_Nil: "run_checks [] = (\<lambda>f cl n st. Inr [])"
  by (intro ext) simp

lemma run_checks_Cons: "run_checks (c # cs) = seq_check c (run_checks cs)"
  by (intro ext) simp

lemma run_checks_ok: "list_all line_check cs \<Longrightarrow> line_check (run_checks cs)"
proof (induction cs)
  case Nil
  show ?case unfolding run_checks_Nil by (rule line_checkI) simp
next
  case (Cons c cs)
  then have "two_checks c (run_checks cs)" by (auto intro: two_checks.intro)
  then show ?case unfolding run_checks_Cons by (rule two_checks.both)
qed

section \<open>The checks of a line keep the contract\<close>

interpretation multiline: line_check "\<lambda>f cl n st. CheckForMultilineCommentsAndStrings f cl n"
  by (rule line_checkI, unfold CheckForMultilineCommentsAndStrings_def) (intro oks; simp add: line_ctxD)

interpretation vlog: line_check "\<lambda>f cl n st. CheckVlogArguments f cl n"
  by (rule line_checkI, unfold CheckVlogArguments_def) (intro oks; simp add: line_ctxD)

interpretation threading: line_check "\<lambda>f cl n st. CheckPosixThreading f cl n"
  by (rule line_checkI, unfold CheckPosixThreading_def) (intro oks; simp add: line_ctxD)

interpretation increment: line_check "\<lambda>f cl n st. CheckInvalidIncrement f cl n"
  by (rule line_checkI, unfold CheckInvalidIncrement_def) (intro oks; simp add: line_ctxD)

interpretation call_spacing: line_check "\<lambda>f cl n st. CheckSpacingForFunctionCall f cl n"
  by (rule line_checkI, unfold CheckSpacingForFunctionCall_def) (intro oks; simp add: line_ctxD)

interpretation access_label: line_check CheckAccess
  by (rule line_checkI, unfold CheckAccess_def) (intro oks; auto simp: line_ctxD split: list.split block_kind.split)

interpretation cxx11: line_check "\<lambda>f cl n st. FlagCxx11Features f cl n"
  by (rule line_checkI, unfold FlagCxx11Features_def) (intro oks; simp add: line_ctxD)

interpretation cxx14: line_check "\<lambda>f cl n st. FlagCxx14Features f cl n"
  by (rule line_checkI, unfold FlagCxx14Features_def) (intro oks; simp add: line_ctxD)

interpretation namespace_indent: line_check "\<lambda>f cl n st. CheckForNamespaceIndentation f st cl n"
proof unfold_locales
  fix cl n st f rs assume ctx: "line_ctx cl n st"
  show "returns (CheckForNamespaceIndentation f st cl n)"
    by (rule namespace_indentation_total) (rule line_ctxD [OF ctx])
  assume "CheckForNamespaceIndentation f st cl n = Inr rs"
  then show "list_all (report_ok f (cl_num_lines cl)) rs"
    using line_ctxD [OF ctx]
    by (auto simp: CheckForNamespaceIndentation_def CheckItemIndentationInNamespace_def split: if_splits)
qed

lemma explicit_constructor_ok:
  "n < num \<Longrightarrow> list_all (report_ok f num) (explicit_constructor f n base explicit args)"
  unfolding explicit_constructor_def by (intro oks; simp)

lemma check_constructor_ok:
  "n < num \<Longrightarrow> check_constructor f n line st = Inr rs \<Longrightarrow> list_all (report_ok f num) rs"
  by (auto simp: check_constructor_def explicit_constructor_ok split: option.splits block_kind.splits if_splits)

lemma line_reportsI:
  assumes "\<And>f cl n st. line_ctx cl n st \<Longrightarrow> yields (list_all (report_ok f (cl_num_lines cl))) (check f cl n st)"
  shows "line_reports check"
  by unfold_locales (rule yieldsD [OF assms])

interpretation non_standard: line_reports CheckForNonStandardConstructs
proof (rule line_reportsI)
  fix f cl n st assume ctx: "line_ctx cl n st"
  show "yields (list_all (report_ok f (cl_num_lines cl))) (CheckForNonStandardConstructs f cl n st)"
    unfolding CheckForNonStandardConstructs_def
    by (intro oks; simp add: line_ctxD [OF ctx] check_constructor_ok [OF line_ctxD(5)[OF ctx]])
qed

end
