(* ===== verification/Spacing.thy ===== *)
theory Spacing
  imports Checks
begin

text \<open>
  Horizontal and vertical spacing (\<open>scripts/cpplint.py\<close>: \<open>CheckSpacing\<close>,
  \<open>CheckOperatorSpacing\<close>, \<open>CheckParenthesisSpacing\<close>, \<open>CheckCommaSpacing\<close>, \<open>_IsType\<close>,
  \<open>CheckBracesSpacing\<close>, \<open>IsDecltype\<close>, \<open>CheckSectionSpacing\<close>). The loop that hides operator
  names is a function that is shown to terminate and to keep every column. All checks
  return on every line of a cleansed file.
\<close>

section \<open>Blank lines, comments and brackets\<close>

text \<open>
  The exceptions to the rule on a blank line after an opening brace. The scan back over the
  initializers visits the lines before the previous one, nearest first.
\<close>

definition blank_line_exception :: "string list \<Rightarrow> nat \<Rightarrow> string \<Rightarrow> bool" where
  "blank_line_exception els linenum prev_line \<longleftrightarrow>
     (if Match '' {6}`w'' prev_line \<noteq> None
      then (case dropWhile (\<lambda>l. Match '' {6}`w'' l \<noteq> None) (rev (take (linenum - 1) els)) of
              [] \<Rightarrow> False
            | l # _ \<Rightarrow> take 5 l = ''    :'')
      else Match '' {4}`w[^`(]*`)`s*(const`s*)?(`{`s*$|:)'' prev_line \<noteq> None \<or>
           Match '' {4}:'' prev_line \<noteq> None)"

definition check_blank_line :: "string \<Rightarrow> string list \<Rightarrow> nat \<Rightarrow> string \<Rightarrow> string option \<Rightarrow> report list" where
  "check_blank_line filename els linenum prev_line next_line =
     (let prevbrace = py_rfind prev_line (CHR ''{'')
      in flag (prevbrace \<noteq> -1 \<and> \<not> contains (py_from prev_line prevbrace) ''}'' \<and>
               \<not> blank_line_exception els linenum prev_line)
           filename linenum ''whitespace/blank_line'' 2
           ''Redundant blank line at the start of a code block should be deleted.'' @
         (case next_line of
            None \<Rightarrow> []
          | Some l \<Rightarrow>
              flag (l \<noteq> [] \<and> Match ''`s*}'' l \<noteq> None \<and> \<not> contains l ''} else '')
                filename linenum ''whitespace/blank_line'' 3
                ''Redundant blank line at the end of a code block should be deleted.'') @
         (case Match ''`s*(public|protected|private):'' prev_line of
            None \<Rightarrow> []
          | Some matched \<Rightarrow>
              [Report filename (int linenum) ''whitespace/blank_line'' 3
                 (''Do not leave a blank line after \"'' @ grp matched 1 @ '':\"'')]))"

definition line_after :: "string list \<Rightarrow> cleansed_lines \<Rightarrow> nat \<Rightarrow> string option res" where
  "line_after ls clean_lines linenum =
     (if Suc linenum < NumLines clean_lines
      then res_bind (py_nth ls (int (Suc linenum))) (\<lambda>l. Inr (Some l)) else Inr None)"

definition CheckSpacing :: "string \<Rightarrow> cleansed_lines \<Rightarrow> nat \<Rightarrow> nesting_state \<Rightarrow> report list res" where
  "CheckSpacing filename clean_lines linenum st =
     res_bind (py_nth (cl_lines_without_raw_strings clean_lines) (int linenum)) (\<lambda>line.
     res_bind (line_after (cl_lines_without_raw_strings clean_lines) clean_lines linenum) (\<lambda>next_line.
     res_bind
       (if IsBlankLine line \<and> \<not> InNamespaceBody st \<and> \<not> InExternC st
        then res_bind (py_nth (cl_elided clean_lines) (int linenum - 1)) (\<lambda>prev_line.
               Inr (check_blank_line filename (cl_elided clean_lines) linenum prev_line next_line))
        else Inr []) (\<lambda>blank.
     (let next_line_start = (case next_line of None \<Rightarrow> 0 | Some l \<Rightarrow> int (length l) - int (length (lstrip l)))
      in res_bind (py_nth (cl_elided clean_lines) (int linenum)) (\<lambda>code.
           Inr (blank @ CheckComment line filename linenum next_line_start @
             flag (Search ''`w`s+`['' code \<noteq> None \<and> Search ''(?:delete|return)`s+`['' code = None)
               filename linenum ''whitespace/braces'' 5 ''Extra space before ['' @
             flag (Search ''for *`(.*[^:]:[^: ]'' code \<noteq> None \<or> Search ''for *`(.*[^: ]:[^:]'' code \<noteq> None)
               filename linenum ''whitespace/forcolon'' 2
               ''Missing space around colon in range-based for loop''))))))"

section \<open>Operators\<close>

definition OPERATOR_NAME :: string where
  "OPERATOR_NAME = ''^(.*`boperator`b)(`S+)(`s*`(.*)$''"

abbreviation nonspace_cls :: "cls list" where "nonspace_cls \<equiv> [CNSpace]"

lemma OPERATOR_NAME_tree:
  "compile (bs OPERATOR_NAME) = Some (Seq Bol (Seq (Grp 1 (Seq (Star True Any) (Seq WordB (lits ''operator'' WordB))))
     (Seq (Grp 2 (Seq (Cls False nonspace_cls) (Star True (Cls False nonspace_cls))))
     (Seq (Grp 3 (Seq (Star True (Cls False [CSpace])) (Seq (Chr (CHR ''('')) (Star True Any)))) Eol))))"
  unfolding OPERATOR_NAME_def by code_simp

lemma OPERATOR_NAME_inv:
  assumes "Match OPERATOR_NAME line = Some m"
  shows "(\<exists>e. line = grp m 1 @ grp m 2 @ grp m 3 @ e \<and> (e = [] \<or> e = [nl])) \<and>
    (\<exists>c w. grp m 2 = c # w \<and> \<not> is_word c)"
  using Match_inv [OF assms OPERATOR_NAME_tree]
  by (auto simp: ms_inv grp_def group_def is_word_def is_digit_def ord_of_def simp del: ms.simps in_set.simps lits.simps)

text \<open>
  The loop overwrites the name of the last operator function on the line with underscores
  until there is none left. Each round replaces a character that is not a word character.
\<close>

definition mask_name :: "pymatch \<Rightarrow> string" where
  "mask_name m = grp m 1 @ replicate (length (grp m 2)) (CHR ''_'') @ grp m 3"

definition nonword_count :: "string \<Rightarrow> nat" where
  "nonword_count s = length (filter (\<lambda>c. \<not> is_word c) s)"

lemma nonword_count_simps [simp]:
  "nonword_count [] = 0" "nonword_count (c # s) = (if is_word c then 0 else 1) + nonword_count s"
  "nonword_count (s @ t) = nonword_count s + nonword_count t"
  by (simp_all add: nonword_count_def)

lemma nonword_count_mask: "nonword_count (replicate n (CHR ''_'')) = 0"
  by (induction n) (simp_all add: is_word_def ord_of_def)

lemma mask_name_decreases:
  assumes "Match OPERATOR_NAME line = Some m"
  shows "nonword_count (mask_name m) < nonword_count line"
  using OPERATOR_NAME_inv [OF assms] by (auto simp: mask_name_def nonword_count_mask)

function mask_operators :: "string \<Rightarrow> string" where
  "mask_operators line =
     (case Match OPERATOR_NAME line of
        None \<Rightarrow> line
      | Some m \<Rightarrow> mask_operators (mask_name m))"
  by pat_completeness auto
termination
  by (relation "measure nonword_count") (auto simp: mask_name_decreases)

declare mask_operators.simps [simp del]

definition CheckOperatorSpacing :: "string \<Rightarrow> cleansed_lines \<Rightarrow> nat \<Rightarrow> report list res" where
  "CheckOperatorSpacing filename clean_lines linenum =
     res_bind (py_nth (cl_elided clean_lines) (int linenum)) (\<lambda>line0.
       (let line = mask_operators line0;
            err = (\<lambda>b. flag b filename linenum ''whitespace/operators'')
        in res_bind
             (case Search ''[^<>=!`s](==|!=|<=|>=|`|`|)[^<>=!`s,;`)]'' line of
                Some m \<Rightarrow> Inr (err True 3 (''Missing spaces around '' @ grp m 1))
              | None \<Rightarrow>
                  (if Match ''#.*include'' line \<noteq> None then Inr []
                   else
                     res_bind
                       (case Match ''^(.*[^`s<])<[^`s=<,]'' line of
                          None \<Rightarrow> Inr []
                        | Some m \<Rightarrow>
                            res_bind (CloseExpression clean_lines linenum (length (grp m 1))) (\<lambda>(_, _, end_pos).
                              Inr (err (end_pos \<le> -1) 3 ''Missing spaces around <''))) (\<lambda>less.
                     res_bind
                       (case Match ''^(.*[^-`s>])>[^`s=>,]'' line of
                          None \<Rightarrow> Inr []
                        | Some m \<Rightarrow>
                            res_bind (ReverseCloseExpression clean_lines linenum (length (grp m 1))) (\<lambda>(_, _, start_pos).
                              Inr (err (start_pos \<le> -1) 3 ''Missing spaces around >''))) (\<lambda>greater.
                     Inr (less @ greater))))) (\<lambda>relational.
             Inr (
               err ((Search ''[`w.]='' line \<noteq> None \<or> Search ''=[`w.]'' line \<noteq> None)
                    \<and> Search ''`b(if|while|for) '' line = None
                    \<and> Search ''(>=|<=|==|!=|&=|`^=|`|=|`+=|`*=|`/=|`%=)'' line = None
                    \<and> Search ''operator='' line = None) 4 ''Missing spaces around ='' @
               relational @
               (case Search ''(operator|[^`s(<])(?:L|UL|LL|ULL|l|ul|ll|ull)?<<([^`s,=<])'' line of
                  None \<Rightarrow> []
                | Some m \<Rightarrow>
                    err (\<not> (isdigit (grp m 1) \<and> isdigit (grp m 2)) \<and>
                         \<not> (grp m 1 = ''operator'' \<and> grp m 2 = '';'')) 3 ''Missing spaces around <<'') @
               err (Search ''>>[a-zA-Z_]'' line \<noteq> None) 3 ''Missing spaces around >>'' @
               (case Search ''(!`s|~`s|[`s]--[`s;]|[`s]`+`+[`s;])'' line of
                  None \<Rightarrow> []
                | Some m \<Rightarrow> err True 4 (''Extra space for operator '' @ grp m 1))))))"

section \<open>Parentheses and commas\<close>

definition CheckParenthesisSpacing :: "string \<Rightarrow> cleansed_lines \<Rightarrow> nat \<Rightarrow> report list res" where
  "CheckParenthesisSpacing filename clean_lines linenum =
     res_bind (py_nth (cl_elided clean_lines) (int linenum)) (\<lambda>line.
       (let err = (\<lambda>b. flag b filename linenum ''whitespace/parens'' 5)
        in Inr
          ((case Search '' (if`(|for`(|while`(|switch`()'' line of
              None \<Rightarrow> []
            | Some m \<Rightarrow> err True (''Missing space before ( in '' @ grp m 1)) @
           (case Search ''`b(if|for|while|switch)`s*`(([ ]*)(.).*[^ ]+([ ]*)`)`s*{`s*$'' line of
              None \<Rightarrow> []
            | Some m \<Rightarrow>
                (let left = length (grp m 2); right = length (grp m 4)
                 in err (left \<noteq> right \<and>
                         \<not> (grp m 3 = '';'' \<and> left = 1 + right \<or>
                            left = 0 \<and> Search ''`bfor`s*`(.*; `)'' line \<noteq> None))
                      (''Mismatching spaces inside () in '' @ grp m 1) @
                    err (left \<notin> set [0, 1])
                      (''Should have zero or one spaces inside ( and ) in '' @ grp m 1))))))"

definition CheckCommaSpacing :: "string \<Rightarrow> cleansed_lines \<Rightarrow> nat \<Rightarrow> report list res" where
  "CheckCommaSpacing filename clean_lines linenum =
     res_bind (py_nth (cl_elided clean_lines) (int linenum)) (\<lambda>line.
     res_bind
       (if Search '',[^,`s]'' (ReplaceAll ''`boperator`s*,`s*`('' ''F('' line) \<noteq> None
        then res_bind (py_nth (cl_lines_without_raw_strings clean_lines) (int linenum)) (\<lambda>raw.
               Inr (flag (Search '',[^,`s]'' raw \<noteq> None) filename linenum ''whitespace/comma'' 3
                      ''Missing space after ,''))
        else Inr []) (\<lambda>comma.
     Inr (comma @
       flag (Search '';[^`s};``)/]'' line \<noteq> None) filename linenum ''whitespace/semicolon'' 3
         ''Missing space after ;'')))"

section \<open>Types\<close>

definition TYPES :: string where
  "TYPES = ''^(?:(char(16_t|32_t)?)|wchar_t|bool|short|int|long|signed|unsigned|float|double|(ptrdiff_t|size_t|max_align_t|nullptr_t)|(u?int(_fast|_least)?(8|16|32|64)_t)|(u?int(max|ptr)_t)|)$''"

definition last_token :: "string \<Rightarrow> string" where
  "last_token expr = (case Match ''^.*(`b`S+)$'' expr of None \<Rightarrow> expr | Some last_word \<Rightarrow> grp last_word 1)"

definition typename_pattern :: "string \<Rightarrow> string" where
  "typename_pattern token = bs ''`b(?:typename|class|struct)`s+'' @ escape_raw token @ bs ''`b''"

text \<open>
  The walk up the stack, from its top. For each block the nearest line with the word
  template, from the line of the block back to that of the enclosing one, starts the range
  that is searched for a declaration of the name.
\<close>

fun declared_above :: "cleansed_lines \<Rightarrow> string \<Rightarrow> block list \<Rightarrow> bool res" where
  "declared_above clean_lines pattern [] = Inr False"
| "declared_above clean_lines pattern (b # enclosing) =
     (if is_namespace b then Inr False
      else
        (let last_line = starting_linenum b;
             next_block_start = (case enclosing of [] \<Rightarrow> 0 | c # _ \<Rightarrow> starting_linenum c)
         in res_bind
              (find_res (\<lambda>i. res_bind (py_nth (cl_elided clean_lines) (int i)) (\<lambda>l. Inr (contains l ''template'')))
                (rev [next_block_start..<Suc last_line])) (\<lambda>first.
              (case first of
                 None \<Rightarrow> declared_above clean_lines pattern enclosing
               | Some first_line \<Rightarrow>
                   res_bind
                     (find_res (\<lambda>i. res_bind (py_nth (cl_elided clean_lines) (int i)) (\<lambda>l.
                         Inr (search_pat pattern l \<noteq> None))) [first_line..<Suc last_line]) (\<lambda>found.
                     if found \<noteq> None then Inr True else declared_above clean_lines pattern enclosing)))))"

definition IsType :: "cleansed_lines \<Rightarrow> nesting_state \<Rightarrow> string \<Rightarrow> bool res" where
  "IsType clean_lines st expr =
     (let token = last_token expr
      in if Match TYPES token \<noteq> None then Inr True
         else declared_above clean_lines (typename_pattern token) (stack st))"

section \<open>Braces and sections\<close>

text \<open>The text after the closing brace, with up to two more lines.\<close>

definition trailing_text :: "cleansed_lines \<Rightarrow> string \<Rightarrow> nat \<Rightarrow> int \<Rightarrow> string res" where
  "trailing_text clean_lines endline endlinenum endpos =
     res_bind (map_res (\<lambda>i. py_nth (cl_elided clean_lines) (int i))
       [Suc endlinenum..<min (endlinenum + 3) (NumLines clean_lines - 1)]) (\<lambda>later.
       Inr ((if endpos > -1 then py_from endline endpos else []) @ concat later))"

definition missing_space_before_brace :: "string \<Rightarrow> cleansed_lines \<Rightarrow> nat \<Rightarrow> nesting_state \<Rightarrow> string \<Rightarrow> report list res" where
  "missing_space_before_brace filename clean_lines linenum st line =
     (case Match ''^(.*[^ ({>]){'' line of
        None \<Rightarrow> Inr []
      | Some m \<Rightarrow>
          res_bind (CloseExpression clean_lines linenum (length (grp m 1))) (\<lambda>(endline, endlinenum, endpos).
          res_bind (trailing_text clean_lines endline endlinenum endpos) (\<lambda>trailing.
            if Match ''^[`s}]*[{.;,)<>`]:]'' trailing \<noteq> None then Inr []
            else res_bind (IsType clean_lines st (grp m 1)) (\<lambda>type.
                   Inr (flag (\<not> type) filename linenum ''whitespace/braces'' 5 ''Missing space before {'')))))"

definition CheckBracesSpacing :: "string \<Rightarrow> cleansed_lines \<Rightarrow> nat \<Rightarrow> nesting_state \<Rightarrow> report list res" where
  "CheckBracesSpacing filename clean_lines linenum st =
     res_bind (py_nth (cl_elided clean_lines) (int linenum)) (\<lambda>line.
     res_bind (missing_space_before_brace filename clean_lines linenum st line) (\<lambda>before.
       (let err = (\<lambda>msg. [Report filename (int linenum) ''whitespace/semicolon'' 5 msg])
        in Inr (before @
             flag (Search ''}else'' line \<noteq> None) filename linenum ''whitespace/braces'' 5 ''Missing space before else'' @
             (if Search '':`s*;`s*$'' line \<noteq> None
              then err ''Semicolon defining empty statement. Use {} instead.''
              else if Search ''^`s*;`s*$'' line \<noteq> None
              then err ''Line contains only semicolon. If this should be an empty statement, use {} instead.''
              else if Search ''`s+;`s*$'' line \<noteq> None \<and> Search ''`bfor`b'' line = None
              then err ''Extra space before last semicolon. If this should be an empty statement, use {} instead.''
              else [])))))"

definition IsDecltype :: "cleansed_lines \<Rightarrow> nat \<Rightarrow> nat \<Rightarrow> bool res" where
  "IsDecltype clean_lines linenum column =
     res_bind (ReverseCloseExpression clean_lines linenum column) (\<lambda>(text, _, start_col).
       Inr (\<not> start_col < 0 \<and> Search ''`bdecltype`s*$'' (py_upto text start_col) \<noteq> None))"

definition CheckSectionSpacing :: "string \<Rightarrow> cleansed_lines \<Rightarrow> block \<Rightarrow> class_info \<Rightarrow> nat \<Rightarrow> report list res" where
  "CheckSectionSpacing filename clean_lines b c linenum =
     (if int (last_line c) - int (starting_linenum b) \<le> 24 \<or> linenum \<le> starting_linenum b then Inr []
      else
        res_bind (py_nth (cl_lines clean_lines) (int linenum)) (\<lambda>line.
          (case Match ''`s*(public|protected|private):'' line of
             None \<Rightarrow> Inr []
           | Some matched \<Rightarrow>
               res_bind (py_nth (cl_lines clean_lines) (int linenum - 1)) (\<lambda>prev_line.
                 if \<not> IsBlankLine prev_line \<and> Search ''`b(class|struct)`b'' prev_line = None
                    \<and> Search ''``$'' prev_line = None
                 then
                   res_bind (find_res (\<lambda>i. res_bind (py_nth (cl_lines clean_lines) (int i)) (\<lambda>l.
                       Inr (Search ''`{`s*$'' l \<noteq> None))) [starting_linenum b..<linenum]) (\<lambda>head.
                     (let end_class_head = (case head of None \<Rightarrow> starting_linenum b | Some i \<Rightarrow> i)
                      in Inr (flag (int end_class_head < int linenum - 1) filename linenum ''whitespace/blank_line'' 3
                           ([dq] @ grp matched 1 @ '':'' @ [dq] @ '' should be preceded by a blank line''))))
                 else Inr []))))"

section \<open>The checks return\<close>

lemma line_after_total:
  "length ls = cl_num_lines cl \<Longrightarrow> returns (line_after ls cl n)"
  unfolding line_after_def NumLines_def by (intro oks returns_py_nth) simp_all

lemma py_nth_prev_total: "i < length xs \<Longrightarrow> returns (py_nth xs (int i - 1))"
  by (auto simp: returns_def py_nth_def)

lemma CheckComment_ok [oks]: "n < num \<Longrightarrow> list_all (report_ok f num) (CheckComment line f n k)"
  unfolding CheckComment_def check_todo_def by (intro oks; simp)

lemma check_blank_line_ok [oks]: "n < num \<Longrightarrow> list_all (report_ok f num) (check_blank_line f els n p l)"
  unfolding check_blank_line_def by (intro oks; simp)

interpretation spacing: line_check CheckSpacing
proof (rule line_checkI)
  fix f cl n st assume ctx: "line_ctx cl n st"
  have raw: "length (cl_lines_without_raw_strings cl) = cl_num_lines cl"
    using ctx by (simp add: line_ctx_def lines_full_def)
  show "gives (list_all (report_ok f (cl_num_lines cl))) (CheckSpacing f cl n st)"
    unfolding CheckSpacing_def
    by (intro bind_reports oks line_after_total [OF raw] py_nth_prev_total; simp add: line_ctxD [OF ctx])
qed

lemma mask_name_columns:
  assumes "Match OPERATOR_NAME line = Some m" "nl \<notin> set line"
  shows "length (mask_name m) = length line" "nl \<notin> set (mask_name m)"
    "\<And>i. i < length line \<Longrightarrow> mask_name m ! i = line ! i \<or> mask_name m ! i = CHR ''_''"
proof -
  from OPERATOR_NAME_inv [OF assms(1)] assms(2) have l: "line = grp m 1 @ grp m 2 @ grp m 3" by auto
  then show "length (mask_name m) = length line" by (simp add: mask_name_def)
  from l assms(2) show "nl \<notin> set (mask_name m)" by (auto simp: mask_name_def nl_def)
  fix i assume "i < length line"
  have "(u @ replicate (length v) c @ w) ! i = (u @ v @ w) ! i \<or> (u @ replicate (length v) c @ w) ! i = c"
    if "i < length (u @ v @ w)" for u v w :: string and c
    using that by (auto simp: nth_append)
  from this [of "grp m 1" "grp m 2" "grp m 3"] l \<open>i < length line\<close>
  show "mask_name m ! i = line ! i \<or> mask_name m ! i = CHR ''_''" by (metis mask_name_def)
qed

lemma mask_name_shorter:
  assumes "Match OPERATOR_NAME line = Some m"
  shows "length (mask_name m) \<le> length line"
  using OPERATOR_NAME_inv [OF assms] by (auto simp: mask_name_def)

lemma mask_operators_shorter: "length (mask_operators line) \<le> length line"
proof (induction line rule: mask_operators.induct)
  case (1 line)
  then show ?case
    by (subst mask_operators.simps) (auto split: option.split dest: mask_name_shorter intro: order_trans)
qed

lemma mask_operators_columns:
  "nl \<notin> set line \<Longrightarrow> length (mask_operators line) = length line \<and>
     (\<forall>i < length line. mask_operators line ! i = line ! i \<or> mask_operators line ! i = CHR ''_'')"
proof (induction line rule: mask_operators.induct)
  case (1 line)
  show ?case
  proof (cases "Match OPERATOR_NAME line")
    case None
    then show ?thesis by (subst (1 2 3) mask_operators.simps) simp
  next
    case (Some m)
    note cols = mask_name_columns [OF Some 1(2)]
    from Some have "mask_operators line = mask_operators (mask_name m)" by (subst mask_operators.simps) simp
    with 1(1)[OF Some cols(2)] cols show ?thesis by metis
  qed
qed

lemma mask_operators_done: "Match OPERATOR_NAME (mask_operators line) = None"
proof (induction line rule: mask_operators.induct)
  case (1 line)
  then show ?case by (subst mask_operators.simps) (auto split: option.split)
qed

lemma ReverseCloseExpression_total [oks]:
  "n < length (cl_elided cl) \<Longrightarrow> pos < length (cl_elided cl ! n) \<Longrightarrow> returns (ReverseCloseExpression cl n pos)"
  unfolding ReverseCloseExpression_def by (intro returns_bind returns_py_nth) (auto split: prod.splits)

lemmas [oks] = CloseExpression_total

lemma relational_leads:
  "leads ''^(.*[^`s<])<[^`s=<,]'' (CHR ''<'')" "leads ''^(.*[^-`s>])>[^`s=>,]'' (CHR ''>'')"
  "leads ''^(.*[^ ({>]){'' (CHR ''{'')"
  by code_simp+

lemma masked_pos:
  "Match p (mask_operators line) = Some m \<Longrightarrow> leads p c \<Longrightarrow> length (grp m 1) < length line"
  using leads_pos mask_operators_shorter by (metis less_le_trans)

interpretation operator_spacing: line_check "\<lambda>f cl n st. CheckOperatorSpacing f cl n"
proof (rule line_checkI)
  fix f cl n st assume ctx: "line_ctx cl n st"
  show "gives (list_all (report_ok f (cl_num_lines cl))) (CheckOperatorSpacing f cl n)"
    unfolding CheckOperatorSpacing_def
    by (intro bind_reports oks;
        simp add: line_ctxD [OF ctx] masked_pos [OF _ relational_leads(1)] masked_pos [OF _ relational_leads(2)] del: One_nat_def)
qed

interpretation parenthesis_spacing: line_check "\<lambda>f cl n st. CheckParenthesisSpacing f cl n"
  by (rule line_checkI, unfold CheckParenthesisSpacing_def) (intro oks; simp add: line_ctxD)

interpretation comma_spacing: line_check "\<lambda>f cl n st. CheckCommaSpacing f cl n"
  by (rule line_checkI, unfold CheckCommaSpacing_def) (intro bind_reports oks; simp add: line_ctxD)

lemma find_res_returns [oks]: "(\<And>x. x \<in> set xs \<Longrightarrow> returns (test x)) \<Longrightarrow> returns (find_res test xs)"
  by (rule find_res_total) (simp add: list_all_iff)

lemma map_res_returns [oks]: "(\<And>x. x \<in> set xs \<Longrightarrow> returns (h x)) \<Longrightarrow> returns (map_res h xs)"
  by (induction xs) (auto intro!: returns_bind)

lemma declared_above_total:
  "started n s \<Longrightarrow> n < length (cl_elided cl) \<Longrightarrow> returns (declared_above cl p s)"
proof (induction s arbitrary: n)
  case (Cons b s)
  then have rec: "returns (declared_above cl p s)" and b: "starting_linenum b \<le> n"
    using Cons.IH [of "starting_linenum b"] by auto
  with Cons.prems(2) show ?case
    by (simp only: declared_above.simps) (intro oks; auto)
qed simp

lemma IsType_total [oks]:
  "line_ctx cl n st \<Longrightarrow> returns (IsType cl st e)"
  unfolding IsType_def by (intro oks declared_above_total [of n]) (simp_all add: line_ctxD)

lemma trailing_text_total [oks]:
  "line_ctx cl n st \<Longrightarrow> returns (trailing_text cl l m p)"
  unfolding trailing_text_def by (intro oks; auto simp: line_ctxD(8) NumLines_def)

interpretation braces_spacing: line_check CheckBracesSpacing
proof (rule line_checkI)
  fix f cl n st assume ctx: "line_ctx cl n st"
  show "gives (list_all (report_ok f (cl_num_lines cl))) (CheckBracesSpacing f cl n st)"
    unfolding CheckBracesSpacing_def missing_space_before_brace_def
    by (intro bind_reports oks IsType_total [OF ctx] trailing_text_total [OF ctx];
        simp add: line_ctxD [OF ctx] leads_pos [OF _ relational_leads(3)] del: One_nat_def)
qed

lemma IsDecltype_total:
  "n < length (cl_elided cl) \<Longrightarrow> column < length (cl_elided cl ! n) \<Longrightarrow> returns (IsDecltype cl n column)"
  unfolding IsDecltype_def by (intro oks)

lemma CheckSectionSpacing_ok:
  assumes "line_ctx cl n st"
  shows "gives (list_all (report_ok f (cl_num_lines cl))) (CheckSectionSpacing f cl b c n)"
  unfolding CheckSectionSpacing_def
  by (insert line_ctxD [OF assms], intro oks py_nth_prev_total; simp)

section \<open>Properties\<close>

text \<open>
  C29: The loop that hides the names of operator functions ends for every line, and the line
  it leaves has no such name, the same length, and in each column the character of the
  line or an underscore, so that a position found in it is a position of the line.
\<close>
theorem operator_names_masked:
  assumes "nl \<notin> set line"
  shows "length (mask_operators line) = length line \<and> Match OPERATOR_NAME (mask_operators line) = None \<and>
    (\<forall>i < length line. mask_operators line ! i \<noteq> CHR ''_'' \<longrightarrow> mask_operators line ! i = line ! i)"
  using mask_operators_columns [OF assms] mask_operators_done by blast

theorem operator_names_masked_witness:
  "mask_operators ''bool operator<=(T a) { return operator<(a); }'' = ''bool operator__(T a) { return operator_(a); }'' \<and>
   Match OPERATOR_NAME (mask_operators ''bool operator<=(T a) { return operator<(a); }'') = None"
proof -
  have "nl \<notin> set ''bool operator<=(T a) { return operator<(a); }''" by (simp add: nl_def)
  from operator_names_masked [OF this]
  have "Match OPERATOR_NAME (mask_operators ''bool operator<=(T a) { return operator<(a); }'') = None" by blast
  moreover have "mask_operators ''bool operator<=(T a) { return operator<(a); }'' = ''bool operator__(T a) { return operator_(a); }''"
    by code_simp
  ultimately show ?thesis by blast
qed

end
