(* ===== verification/Include_State.thy ===== *)
theory Include_State
  imports PyRegex
begin

text \<open>
  \<open>_IncludeState\<close> of \<open>scripts/cpplint.py\<close>: the headers a file has included, per
  preprocessor branch, and the automaton that checks their order. The lemmas show that
  the section of the automaton only moves forward, which sequences of headers it accepts,
  and what a lookup finds.
\<close>

section \<open>Sections and header types\<close>

datatype include_section = INITIAL_SECTION | MY_H_SECTION | C_SECTION | CPP_SECTION | OTHER_H_SECTION

fun section_code :: "include_section \<Rightarrow> nat" where
  "section_code INITIAL_SECTION = 0"
| "section_code MY_H_SECTION = 1"
| "section_code C_SECTION = 2"
| "section_code CPP_SECTION = 3"
| "section_code OTHER_H_SECTION = 4"

lemma section_code_inject [simp]: "section_code a = section_code b \<longleftrightarrow> a = b"
  by (cases a; cases b) simp_all

instantiation include_section :: linorder
begin

definition less_eq_include_section :: "include_section \<Rightarrow> include_section \<Rightarrow> bool" where
  "a \<le> b \<longleftrightarrow> section_code a \<le> section_code b"

definition less_include_section :: "include_section \<Rightarrow> include_section \<Rightarrow> bool" where
  "a < b \<longleftrightarrow> section_code a < section_code b"

instance
  by standard (auto simp: less_eq_include_section_def less_include_section_def)

end

lemmas section_order = less_eq_include_section_def less_include_section_def

datatype header_type =
  C_SYS_HEADER | CPP_SYS_HEADER | LIKELY_MY_HEADER | POSSIBLE_MY_HEADER | OTHER_HEADER

fun TYPE_NAMES :: "header_type \<Rightarrow> string" where
  "TYPE_NAMES C_SYS_HEADER = ''C system header''"
| "TYPE_NAMES CPP_SYS_HEADER = ''C++ system header''"
| "TYPE_NAMES LIKELY_MY_HEADER = ''header this file implements''"
| "TYPE_NAMES POSSIBLE_MY_HEADER = ''header this file may implement''"
| "TYPE_NAMES OTHER_HEADER = ''other header''"

fun SECTION_NAMES :: "include_section \<Rightarrow> string" where
  "SECTION_NAMES INITIAL_SECTION = ''... nothing. (This can't be an error.)''"
| "SECTION_NAMES MY_H_SECTION = ''a header this file implements''"
| "SECTION_NAMES C_SECTION = ''C system header''"
| "SECTION_NAMES CPP_SECTION = ''C++ system header''"
| "SECTION_NAMES OTHER_H_SECTION = ''other header''"

section \<open>State and operations\<close>

record include_state =
  include_list :: "(string \<times> int) list list"
  cur_section :: include_section
  last_header :: string

fun find_header :: "string \<Rightarrow> (string \<times> int) list list \<Rightarrow> int" where
  "find_header header [] = -1"
| "find_header header (section_list # rest) =
     (case find (\<lambda>f. fst f = header) section_list of
        Some f \<Rightarrow> snd f
      | None \<Rightarrow> find_header header rest)"

definition FindHeader :: "string \<Rightarrow> include_state \<Rightarrow> int" where
  "FindHeader header st = find_header header (include_list st)"

definition ResetSection :: "string \<Rightarrow> include_state \<Rightarrow> include_state res" where
  "ResetSection directive st =
     (let st1 = st\<lparr>cur_section := INITIAL_SECTION, last_header := []\<rparr>
      in if directive \<in> {''if'', ''ifdef'', ''ifndef''}
         then Inr (st1\<lparr>include_list := include_list st @ [[]]\<rparr>)
         else if directive \<in> {''else'', ''elif''}
         then (if include_list st = [] then Inl IndexError
               else Inr (st1\<lparr>include_list := butlast (include_list st) @ [[]]\<rparr>))
         else Inr st1)"

definition IncludeState :: "include_state res" where
  "IncludeState =
     ResetSection [] \<lparr>include_list = [[]], cur_section = INITIAL_SECTION, last_header = []\<rparr>"

definition SetLastHeader :: "string \<Rightarrow> include_state \<Rightarrow> include_state" where
  "SetLastHeader header_path st = st\<lparr>last_header := header_path\<rparr>"

definition CanonicalizeAlphabeticalOrder :: "string \<Rightarrow> string" where
  "CanonicalizeAlphabeticalOrder header_path =
     lower (replace_sub ''-'' ''_'' (replace_sub ''-inl.h'' ''.h'' header_path))"

definition IsInAlphabeticalOrder ::
  "string list \<Rightarrow> int \<Rightarrow> string \<Rightarrow> include_state \<Rightarrow> bool res" where
  "IsInAlphabeticalOrder elided linenum header_path st =
     (if last_header st > header_path
      then res_bind (py_nth elided (linenum - 1)) (\<lambda>line.
             Inr (Match ''^`s*#`s*include`b'' line = None))
      else Inr True)"

definition CheckNextIncludeOrder :: "header_type \<Rightarrow> include_state \<Rightarrow> include_state \<times> string" where
  "CheckNextIncludeOrder header_type st =
     (let error_message =
            ''Found '' @ TYPE_NAMES header_type @ '' after '' @ SECTION_NAMES (cur_section st);
          last_section = cur_section st;
          finish = (\<lambda>sec. (let st1 = st\<lparr>cur_section := sec\<rparr>
                          in if last_section \<noteq> sec then st1\<lparr>last_header := []\<rparr> else st1, []))
      in case header_type of
           C_SYS_HEADER \<Rightarrow>
             (if cur_section st \<le> C_SECTION then finish C_SECTION
              else (st\<lparr>last_header := []\<rparr>, error_message))
         | CPP_SYS_HEADER \<Rightarrow>
             (if cur_section st \<le> CPP_SECTION then finish CPP_SECTION
              else (st\<lparr>last_header := []\<rparr>, error_message))
         | LIKELY_MY_HEADER \<Rightarrow>
             (if cur_section st \<le> MY_H_SECTION then finish MY_H_SECTION else finish OTHER_H_SECTION)
         | POSSIBLE_MY_HEADER \<Rightarrow>
             (if cur_section st \<le> MY_H_SECTION then finish MY_H_SECTION else finish OTHER_H_SECTION)
         | OTHER_HEADER \<Rightarrow> finish OTHER_H_SECTION)"

section \<open>Order of sections\<close>

definition misplaced :: "header_type \<Rightarrow> include_section \<Rightarrow> bool" where
  "misplaced t s \<longleftrightarrow> t = C_SYS_HEADER \<and> C_SECTION < s \<or> t = CPP_SYS_HEADER \<and> CPP_SECTION < s"

fun next_section :: "header_type \<Rightarrow> include_section \<Rightarrow> include_section" where
  "next_section C_SYS_HEADER s = max C_SECTION s"
| "next_section CPP_SYS_HEADER s = max CPP_SECTION s"
| "next_section OTHER_HEADER s = OTHER_H_SECTION"
| "next_section _ s = (if s \<le> MY_H_SECTION then MY_H_SECTION else OTHER_H_SECTION)"

lemma CheckNextIncludeOrder_section:
  "cur_section (fst (CheckNextIncludeOrder t st)) = next_section t (cur_section st)"
  by (cases t; cases "cur_section st")
    (simp_all add: CheckNextIncludeOrder_def Let_def section_order max_def)

lemma CheckNextIncludeOrder_message:
  "snd (CheckNextIncludeOrder t st) =
     (if misplaced t (cur_section st)
      then ''Found '' @ TYPE_NAMES t @ '' after '' @ SECTION_NAMES (cur_section st) else [])"
  by (cases t; cases "cur_section st")
    (simp_all add: CheckNextIncludeOrder_def Let_def section_order misplaced_def)

lemma CheckNextIncludeOrder_last_header:
  "last_header (fst (CheckNextIncludeOrder t st)) =
     (if misplaced t (cur_section st) \<or> next_section t (cur_section st) \<noteq> cur_section st
      then [] else last_header st)"
  by (cases t; cases "cur_section st")
    (simp_all add: CheckNextIncludeOrder_def Let_def section_order misplaced_def max_def)

lemma CheckNextIncludeOrder_include_list [simp]:
  "include_list (fst (CheckNextIncludeOrder t st)) = include_list st"
  by (cases t; cases "cur_section st")
    (simp_all add: CheckNextIncludeOrder_def Let_def section_order)

lemma next_section_mono: "s \<le> next_section t s"
  by (cases t; cases s) (simp_all add: section_order max_def)

text \<open>A run over the headers of a file: the messages in order.\<close>

fun check_order :: "header_type list \<Rightarrow> include_state \<Rightarrow> include_state \<times> string list" where
  "check_order [] st = (st, [])"
| "check_order (t # ts) st =
     (let (st1, msg) = CheckNextIncludeOrder t st; (st2, msgs) = check_order ts st1
      in (st2, msg # msgs))"

fun ordered_from :: "include_section \<Rightarrow> header_type list \<Rightarrow> bool" where
  "ordered_from s [] = True"
| "ordered_from s (t # ts) = (\<not> misplaced t s \<and> ordered_from (next_section t s) ts)"

lemma check_order_silent:
  "list_all (\<lambda>m. m = []) (snd (check_order ts st)) \<longleftrightarrow> ordered_from (cur_section st) ts"
proof (induction ts arbitrary: st)
  case (Cons t ts)
  obtain st1 msg where step: "CheckNextIncludeOrder t st = (st1, msg)" by fastforce
  with CheckNextIncludeOrder_section [of t st] CheckNextIncludeOrder_message [of t st]
  have "cur_section st1 = next_section t (cur_section st)" "msg = [] \<longleftrightarrow> \<not> misplaced t (cur_section st)"
    by auto
  with step Cons.IH [of st1] show ?case by (auto split: prod.splits)
qed simp

lemma check_order_section:
  "cur_section st \<le> cur_section (fst (check_order ts st))"
proof (induction ts arbitrary: st)
  case (Cons t ts)
  have "cur_section st \<le> cur_section (fst (CheckNextIncludeOrder t st))"
    by (simp add: CheckNextIncludeOrder_section next_section_mono)
  with Cons.IH [of "fst (CheckNextIncludeOrder t st)"] show ?case
    by (auto simp: Let_def split: prod.splits intro: order_trans)
qed simp

abbreviation my_header :: "header_type \<Rightarrow> bool" where
  "my_header t \<equiv> t = LIKELY_MY_HEADER \<or> t = POSSIBLE_MY_HEADER"

abbreviation late_header :: "header_type \<Rightarrow> bool" where
  "late_header t \<equiv> my_header t \<or> t = OTHER_HEADER"

lemma ordered_from_OTHER: "ordered_from OTHER_H_SECTION ts \<longleftrightarrow> list_all late_header ts"
proof (induction ts)
  case (Cons t ts)
  then show ?case by (cases t) (simp_all add: misplaced_def section_order max_def)
qed simp

lemma ordered_from_CPP:
  "ordered_from CPP_SECTION ts \<longleftrightarrow> list_all late_header (dropWhile ((=) CPP_SYS_HEADER) ts)"
proof (induction ts)
  case (Cons t ts)
  then show ?case
    by (cases t) (simp_all add: misplaced_def section_order max_def ordered_from_OTHER)
qed simp

lemma ordered_from_C:
  "ordered_from C_SECTION ts \<longleftrightarrow>
     list_all late_header (dropWhile ((=) CPP_SYS_HEADER) (dropWhile ((=) C_SYS_HEADER) ts))"
proof (induction ts)
  case (Cons t ts)
  then show ?case
    by (cases t) (simp_all add: misplaced_def section_order max_def ordered_from_OTHER ordered_from_CPP)
qed simp

lemma ordered_from_start:
  assumes "s \<le> MY_H_SECTION"
  shows "ordered_from s ts \<longleftrightarrow>
     list_all late_header (dropWhile ((=) CPP_SYS_HEADER)
       (dropWhile ((=) C_SYS_HEADER) (dropWhile my_header ts)))"
  using assms
proof (induction ts arbitrary: s)
  case (Cons t ts)
  from Cons.prems have s: "s = INITIAL_SECTION \<or> s = MY_H_SECTION" by (cases s) (simp_all add: section_order)
  have IH: "ordered_from MY_H_SECTION ts \<longleftrightarrow> list_all late_header (dropWhile ((=) CPP_SYS_HEADER)
       (dropWhile ((=) C_SYS_HEADER) (dropWhile my_header ts)))"
    by (rule Cons.IH) simp
  from s IH show ?case
    by (cases t) (auto simp: misplaced_def section_order max_def ordered_from_OTHER ordered_from_CPP ordered_from_C)
qed simp

section \<open>Lookup\<close>

lemma find_header_concat:
  "find_header h xss = (case find (\<lambda>f. fst f = h) (concat xss) of Some f \<Rightarrow> snd f | None \<Rightarrow> -1)"
proof (induction xss)
  case (Cons xs xss)
  have "find P (as @ bs) = (case find P as of None \<Rightarrow> find P bs | Some x \<Rightarrow> Some x)" for P and as bs :: "(string \<times> int) list"
    by (induction as) auto
  with Cons.IH show ?case by (simp split: option.splits)
qed simp

lemma find_none_iff: "find (\<lambda>f. fst f = h) fs = None \<longleftrightarrow> h \<notin> fst ` set fs"
  by (force simp: find_None_iff)

section \<open>Canonical paths\<close>

lemma replace_sub_single: "replace_sub [c] [d] s = map (\<lambda>x. if x = c then d else x) s"
  by (induction s) auto

lemma lower_chr_idem [simp]: "lower_chr (lower_chr c) = lower_chr c"
proof -
  have "of_char (char_of (n + 32) :: char) = (n + 32 :: nat)" if "n \<le> 222" for n
    using that by simp
  then show ?thesis by (auto simp: lower_chr_def ord_of_def)
qed

lemma lower_chr_dash [simp]: "lower_chr c = CHR ''-'' \<longleftrightarrow> c = CHR ''-''"
proof -
  have "char_of (n + 32) \<noteq> (CHR ''-'' :: char)" if "n \<in> {65..90} \<or> n \<in> {192..222}" for n :: nat
  proof
    assume "char_of (n + 32) = (CHR ''-'' :: char)"
    then have "of_char (char_of (n + 32) :: char) = (of_char (CHR ''-'') :: nat)" by simp
    with that show False by auto
  qed
  then show ?thesis by (auto simp: lower_chr_def ord_of_def)
qed

lemma canonical_no_dash: "CHR ''-'' \<notin> set (CanonicalizeAlphabeticalOrder p)"
  by (auto simp: CanonicalizeAlphabeticalOrder_def replace_sub_single lower_def
      dest: sym [of "CHR ''-''"] split: if_splits)

lemma canonical_idem:
  "CanonicalizeAlphabeticalOrder (CanonicalizeAlphabeticalOrder p) = CanonicalizeAlphabeticalOrder p"
proof -
  let ?q = "CanonicalizeAlphabeticalOrder p"
  have "\<not> contains ?q ''-inl.h''" using canonical_no_dash [of p] by (auto simp: contains_iff)
  moreover have "\<not> contains ?q ''-''" using canonical_no_dash [of p] by (auto simp: contains_iff)
  moreover have "lower ?q = ?q" by (simp add: CanonicalizeAlphabeticalOrder_def lower_def)
  ultimately show ?thesis
    by (subst CanonicalizeAlphabeticalOrder_def) (simp add: replace_sub_id)
qed

section \<open>Properties\<close>

lemma tl_closed_dropWhile:
  assumes "\<And>xs. S xs \<Longrightarrow> S (tl xs)" "S xs"
  shows "S (dropWhile P xs)"
  using assms(2) by (induction xs) (use assms(1) in force)+

lemma blocks_dropWhile:
  assumes S: "\<And>xs. S xs \<Longrightarrow> S (tl xs)"
  shows "S (dropWhile P ts) \<longleftrightarrow> (\<exists>as bs. ts = as @ bs \<and> list_all P as \<and> S bs)"
proof
  show "\<exists>as bs. ts = as @ bs \<and> list_all P as \<and> S bs" if "S (dropWhile P ts)"
    using that by (metis list_all_iff set_takeWhileD takeWhile_dropWhile_id)
  show "S (dropWhile P ts)" if "\<exists>as bs. ts = as @ bs \<and> list_all P as \<and> S bs"
    using that tl_closed_dropWhile [of S] S by (auto simp: list_all_iff dropWhile_append)
qed

lemma tl_closed_blocks:
  assumes S: "\<And>xs. S xs \<Longrightarrow> S (tl xs)" and "S (dropWhile P xs)"
  shows "S (dropWhile P (tl xs))"
  using assms(2) S tl_closed_dropWhile [of S] by (cases xs) (auto split: if_splits dest: S)

lemma ordered_from_blocks:
  "ordered_from INITIAL_SECTION ts \<longleftrightarrow>
     (\<exists>my cs cpps late. ts = my @ cs @ cpps @ late \<and> list_all my_header my \<and>
        list_all ((=) C_SYS_HEADER) cs \<and> list_all ((=) CPP_SYS_HEADER) cpps \<and> list_all late_header late)"
proof -
  let ?late = "list_all late_header"
  let ?cpp = "\<lambda>ts. ?late (dropWhile ((=) CPP_SYS_HEADER) ts)"
  let ?c = "\<lambda>ts. ?cpp (dropWhile ((=) C_SYS_HEADER) ts)"
  have 1: "?late (tl ts)" if "?late ts" for ts using that by (cases ts) auto
  have 2: "?cpp (tl ts)" if "?cpp ts" for ts
    by (rule tl_closed_blocks [of ?late]) (use 1 that in blast)+
  have 3: "?c (tl ts)" if "?c ts" for ts
    by (rule tl_closed_blocks [of ?cpp]) (use 2 that in blast)+
  have my: "?c (dropWhile my_header ts) \<longleftrightarrow> (\<exists>my us. ts = my @ us \<and> list_all my_header my \<and> ?c us)"
    by (rule blocks_dropWhile [of ?c]) (rule 3)
  have c: "?c us \<longleftrightarrow> (\<exists>cs vs. us = cs @ vs \<and> list_all ((=) C_SYS_HEADER) cs \<and> ?cpp vs)" for us
    by (rule blocks_dropWhile [of ?cpp]) (rule 2)
  have cpp: "?cpp us \<longleftrightarrow> (\<exists>cpps late. us = cpps @ late \<and> list_all ((=) CPP_SYS_HEADER) cpps \<and> ?late late)" for us
    by (rule blocks_dropWhile [of ?late]) (rule 1)
  have "ordered_from INITIAL_SECTION ts \<longleftrightarrow> ?c (dropWhile my_header ts)"
    by (simp add: ordered_from_start section_order)
  also have "\<dots> \<longleftrightarrow> (\<exists>my cs cpps late. ts = my @ cs @ cpps @ late \<and> list_all my_header my \<and>
        list_all ((=) C_SYS_HEADER) cs \<and> list_all ((=) CPP_SYS_HEADER) cpps \<and> ?late late)"
    unfolding my unfolding c unfolding cpp by (rule iffI; elim exE conjE; hypsubst; intro exI conjI; (rule refl | assumption))
  finally show ?thesis .
qed

text \<open>
  C9: Starting from a reset section, the headers of a file raise no order message
  exactly when they come in four blocks: headers the file implements, C system headers,
  C++ system headers, and then any mix of other headers and of headers that the file may
  implement. The comment in \<open>CheckIncludeLine\<close> splits the last block in two, with
  the header of the file in its deprecated location before the other headers, and says that a
  lower type after a higher one is complained about; the code puts both in one section and
  does not (\<open>late_headers_mixed\<close>).
\<close>
theorem include_order_accepted:
  "list_all (\<lambda>m. m = []) (snd (check_order ts (st\<lparr>cur_section := INITIAL_SECTION\<rparr>))) \<longleftrightarrow>
     (\<exists>my cs cpps late. ts = my @ cs @ cpps @ late \<and> list_all my_header my \<and>
        list_all ((=) C_SYS_HEADER) cs \<and> list_all ((=) CPP_SYS_HEADER) cpps \<and> list_all late_header late)"
  by (simp add: check_order_silent ordered_from_blocks)

text \<open>
  A header that the file may implement is accepted after other headers, where the comment
  at the call has types 4 and 5 in this order.
\<close>

lemma late_headers_mixed:
  "snd (check_order [CPP_SYS_HEADER, OTHER_HEADER, LIKELY_MY_HEADER, OTHER_HEADER]
     \<lparr>include_list = [[]], cur_section = INITIAL_SECTION, last_header = []\<rparr>) = [[], [], [], []]"
  by code_simp

text \<open>
  A header lookup returns the line of the first include of that header, over all
  sections, and -1 when no section includes it.
\<close>
theorem find_header_first:
  "FindHeader h st = (case filter (\<lambda>f. fst f = h) (concat (include_list st)) of [] \<Rightarrow> -1 | f # _ \<Rightarrow> snd f)"
proof -
  have "find P xs = (case filter P xs of [] \<Rightarrow> None | x # _ \<Rightarrow> Some x)" for P and xs :: "(string \<times> int) list"
    by (induction xs) auto
  then show ?thesis by (simp add: FindHeader_def find_header_concat split: list.splits)
qed

text \<open>
  The canonical form of a header path has no dash and is a fixed point of the
  canonicalisation, so comparing canonical paths does not depend on how often it is applied.
\<close>
theorem canonical_form:
  "CHR ''-'' \<notin> set (CanonicalizeAlphabeticalOrder p) \<and>
   CanonicalizeAlphabeticalOrder (CanonicalizeAlphabeticalOrder p) = CanonicalizeAlphabeticalOrder p"
  by (simp add: canonical_no_dash canonical_idem)

end
