(* ===== verification/File_Names.thy ===== *)
theory File_Names
  imports Checks Include_State
begin

text \<open>
  Names of files (\<open>scripts/cpplint.py\<close>: class \<open>FileInfo\<close>, \<open>GetHeaderGuardCPPVariable\<close>,
  \<open>CheckForHeaderGuard\<close>, \<open>CheckHeaderFileIncluded\<close>, \<open>_DropCommonSuffixes\<close>,
  \<open>_ClassifyInclude\<close>, \<open>FilesBelongToSameModule\<close>). The file system is an argument, a record
  of the current directory and of the answers of \<open>os.path\<close>; the functions of \<open>os.path\<close> on
  names are those of its POSIX version.

  The walk up a Subversion checkout stops only at a directory without the marker, which
  the root directory may not be. It is a partial function, and its client has the outcome
  \<open>Diverges\<close> besides the exceptions; the other walk always ends.
\<close>

section \<open>Paths\<close>

definition slash :: char where "slash = CHR ''/''"

definition rstrip_slash :: "string \<Rightarrow> string" where
  "rstrip_slash s = rev (dropWhile (\<lambda>c. c = slash) (rev s))"

definition path_split :: "string \<Rightarrow> string \<times> string" where
  "path_split p =
     (let i = nat (py_rfind p slash + 1); head = take i p; tail = drop i p
      in (if list_all (\<lambda>c. c = slash) head then head else rstrip_slash head, tail))"

definition dirname :: "string \<Rightarrow> string" where "dirname p = fst (path_split p)"

definition splitext :: "string \<Rightarrow> string \<times> string" where
  "splitext p =
     (let sep = py_rfind p slash; dot = py_rfind p (CHR ''.'')
      in if dot > sep \<and> list_ex (\<lambda>c. c \<noteq> CHR ''.'') (drop (nat (sep + 1)) (take (nat dot) p))
         then (take (nat dot) p, drop (nat dot) p) else (p, []))"

definition path_join :: "string \<Rightarrow> string \<Rightarrow> string" where
  "path_join a b =
     (if startswith b [slash] then b
      else if a = [] \<or> endswith a [slash] then a @ b else a @ [slash] @ b)"

fun norm_comps :: "bool \<Rightarrow> string list \<Rightarrow> string list \<Rightarrow> string list" where
  "norm_comps absolute acc [] = rev acc"
| "norm_comps absolute acc (part # parts) =
     (if part = [] \<or> part = ''.'' then norm_comps absolute acc parts
      else if part \<noteq> ''..'' \<or> (\<not> absolute \<and> acc = []) \<or> (acc \<noteq> [] \<and> hd acc = ''..'')
      then norm_comps absolute (part # acc) parts
      else norm_comps absolute (tl acc) parts)"

definition normpath :: "string \<Rightarrow> string" where
  "normpath p =
     (let absolute = startswith p ''/'';
          slashes = (if startswith p ''//'' \<and> \<not> startswith p ''///'' then ''//'' else if absolute then ''/'' else []);
          q = slashes @ join ''/'' (norm_comps absolute [] (split_chr slash p))
      in if q = [] then ''.'' else q)"

fun common_prefix :: "string \<Rightarrow> string \<Rightarrow> string" where
  "common_prefix (c # s) (d # t) = (if c = d then c # common_prefix s t else [])"
| "common_prefix _ _ = []"

record os_env =
  cwd :: string
  path_exists :: "string \<Rightarrow> bool"
  path_isfile :: "string \<Rightarrow> bool"
  read_file :: "string \<Rightarrow> string option"

definition abspath :: "os_env \<Rightarrow> string \<Rightarrow> string" where
  "abspath env p = normpath (if startswith p ''/'' then p else path_join (cwd env) p)"

lemma rstrip_slash_prefix: "prefix (rstrip_slash s) s"
  by (metis rev_rev_ident rstrip_slash_def suffix_dropWhile suffix_to_prefix)

lemma dirname_prefix: "prefix (dirname p) p"
  unfolding dirname_def path_split_def Let_def
  by (auto intro: prefix_order.trans [OF rstrip_slash_prefix] take_is_prefix)

lemma dirname_shorter: "dirname p \<noteq> p \<Longrightarrow> length (dirname p) < length p"
  using dirname_prefix [of p] by (metis prefix_length_less strict_prefix_def)

section \<open>The root of a checkout\<close>

definition marked :: "os_env \<Rightarrow> string \<Rightarrow> string \<Rightarrow> bool" where
  "marked env marker dir \<longleftrightarrow> path_exists env (path_join dir marker)"

text \<open>The topmost marked directory above a directory that is itself marked.\<close>

partial_function (option) svn_root :: "os_env \<Rightarrow> string \<Rightarrow> string \<Rightarrow> string option" where
  "svn_root env root_dir one_up_dir =
     (if marked env ''.svn'' one_up_dir
      then svn_root env (dirname root_dir) (dirname one_up_dir)
      else Some root_dir)"

declare svn_root.simps [code]

function vcs_root :: "os_env \<Rightarrow> string \<Rightarrow> string \<Rightarrow> string" where
  "vcs_root env root_dir current_dir =
     (if current_dir \<noteq> dirname current_dir
      then vcs_root env
             (if marked env ''.git'' current_dir \<or> marked env ''.hg'' current_dir \<or> marked env ''.svn'' current_dir
              then current_dir else root_dir) (dirname current_dir)
      else root_dir)"
  by pat_completeness auto
termination
  by (relation "measure (\<lambda>(_, _, d). length d)") (auto simp: dirname_shorter)

declare vcs_root.simps [simp del]

definition FullName :: "os_env \<Rightarrow> string \<Rightarrow> string" where
  "FullName env filename = replace_sub [bsl] ''/'' (abspath env filename)"

definition RepositoryName :: "os_env \<Rightarrow> string \<Rightarrow> string option" where
  "RepositoryName env filename =
     (let fullname = FullName env filename; project_dir = dirname fullname;
          below = (\<lambda>root_dir. drop (length (common_prefix root_dir project_dir) + 1) fullname)
      in if \<not> path_exists env fullname then Some fullname
         else if marked env ''.svn'' project_dir
         then map_option below (svn_root env project_dir (dirname project_dir))
         else
           (let root_dir = vcs_root env project_dir project_dir
            in Some (if marked env ''.git'' root_dir \<or> marked env ''.hg'' root_dir \<or> marked env ''.svn'' root_dir
                     then below root_dir else fullname)))"

section \<open>Parts of a name\<close>

definition repository_name :: "os_env \<Rightarrow> string \<Rightarrow> string res" where
  "repository_name env filename =
     (case RepositoryName env filename of None \<Rightarrow> Inl Diverges | Some name \<Rightarrow> Inr name)"

definition Split :: "os_env \<Rightarrow> string \<Rightarrow> (string \<times> string \<times> string) res" where
  "Split env filename =
     res_bind (repository_name env filename) (\<lambda>googlename.
       (let (project, rest) = path_split googlename in Inr (project, splitext rest)))"

definition BaseName :: "os_env \<Rightarrow> string \<Rightarrow> string res" where
  "BaseName env filename = res_bind (Split env filename) (\<lambda>(_, base, _). Inr base)"

definition Extension :: "os_env \<Rightarrow> string \<Rightarrow> string res" where
  "Extension env filename = res_bind (Split env filename) (\<lambda>(_, _, extension). Inr extension)"

definition NoExtension :: "os_env \<Rightarrow> string \<Rightarrow> string res" where
  "NoExtension env filename = res_bind (Split env filename) (\<lambda>(project, base, _). Inr (join ''/'' [project, base]))"

definition IsSourceExtension :: "string \<Rightarrow> bool" where
  "IsSourceExtension s \<longleftrightarrow> s \<in> set [''c'', ''cc'', ''cpp'', ''cxx'']"

definition IsSource :: "os_env \<Rightarrow> string \<Rightarrow> bool res" where
  "IsSource env filename =
     res_bind (Extension env filename) (\<lambda>extension. Inr (IsSourceExtension (drop 1 extension)))"

section \<open>Header guards\<close>

text \<open>A substitution whose pattern is given as a string; a pattern that does not compile raises.\<close>

definition sub_pat :: "string \<Rightarrow> (pymatch \<Rightarrow> string) \<Rightarrow> string \<Rightarrow> string res" where
  "sub_pat pattern rep s =
     (case compile pattern of None \<Rightarrow> Inl (ValueError pattern) | Some r \<Rightarrow> Inr (re_sub r rep s))"

definition guard_name :: "string \<Rightarrow> string" where
  "guard_name path = map upper_chr (ReplaceAll ''[^a-zA-Z0-9]'' ''_'' path) @ ''_''"

definition unflymake :: "string \<Rightarrow> string res" where
  "unflymake filename =
     res_bind (sub_pat (bs ''_flymake`.h$'') (\<lambda>_. ''.h'') filename) (\<lambda>name.
       sub_pat (bs ''/`.flymake/([^/]*)$'') (\<lambda>m. ''/'' @ grp m 1) name)"

definition GetHeaderGuardCPPVariable :: "os_env \<Rightarrow> string \<Rightarrow> string \<Rightarrow> string res" where
  "GetHeaderGuardCPPVariable env root filename =
     res_bind (unflymake filename) (\<lambda>name.
     res_bind (repository_name env (replace_sub ''c++'' ''cpp'' (replace_sub ''C++'' ''cpp'' name))) (\<lambda>path.
     res_bind (if root = [] then Inr path else sub_pat (''^'' @ root @ ''/'') (\<lambda>_. []) path) (\<lambda>from_root.
       Inr (guard_name from_root))))"

text \<open>
  What a file-level check does, in order: it reads the directives of a line, which may
  suppress what it reports afterwards, or reports.
\<close>

datatype lint_act = Directive string nat | Say report

record guard_scan =
  ifndef_arg :: string
  ifndef_linenum :: nat
  define_arg :: string
  endif_text :: string
  endif_linenum :: nat

definition scan_guard_line :: "nat \<times> string \<Rightarrow> guard_scan \<Rightarrow> guard_scan" where
  "scan_guard_line numbered s0 =
     (let (linenum, line) = numbered; linesplit = split_ws line;
          s1 = (if length linesplit \<ge> 2 \<and> ifndef_arg s0 = [] \<and> linesplit ! 0 = ''#ifndef''
                then s0\<lparr>ifndef_arg := linesplit ! 1, ifndef_linenum := linenum\<rparr> else s0);
          s2 = (if length linesplit \<ge> 2 \<and> define_arg s1 = [] \<and> linesplit ! 0 = ''#define''
                then s1\<lparr>define_arg := linesplit ! 1\<rparr> else s1)
      in if startswith line ''#endif'' then s2\<lparr>endif_text := line, endif_linenum := linenum\<rparr> else s2)"

definition scan_guard :: "string list \<Rightarrow> guard_scan" where
  "scan_guard raw_lines =
     fold scan_guard_line (enumerate 0 raw_lines)
       \<lparr>ifndef_arg = [], ifndef_linenum = 0, define_arg = [], endif_text = [], endif_linenum = 0\<rparr>"

definition SLASH_COMMENT :: string where
  "SLASH_COMMENT = ''^(?:(?:`'(?:`.|[^`'])*`')|(?:\"(?:`.|[^\"])*\")|[^`'\"])*//''"

definition endif_acts :: "string \<Rightarrow> string list \<Rightarrow> guard_scan \<Rightarrow> string \<Rightarrow> lint_act list" where
  "endif_acts filename raw_lines s cppvar =
     (let err = (\<lambda>level msg. [Say (Report filename (int (endif_linenum s)) ''build/header_guard'' level msg)]);
          line_comment = ''#endif line should be \"#endif  // '' @ cppvar @ [dq];
          no_single_line_comments = list_all (\<lambda>l. Match SLASH_COMMENT l = None) (drop 1 (butlast raw_lines))
      in case Match (''#endif`s*//`s*'' @ cppvar @ ''(_)?`b'') (endif_text s) of
           Some m \<Rightarrow> (if group m 1 = Some ''_'' then err 0 line_comment else [])
         | None \<Rightarrow>
             (case (if no_single_line_comments
                    then Match (''#endif`s*/`*`s*'' @ cppvar @ ''(_)?`s*`*/'') (endif_text s) else None) of
                Some m \<Rightarrow>
                  (if group m 1 = Some ''_''
                   then err 0 (''#endif line should be \"#endif  /* '' @ cppvar @ '' */'' @ [dq]) else [])
              | None \<Rightarrow> err 5 line_comment))"

definition CheckForHeaderGuard :: "os_env \<Rightarrow> string \<Rightarrow> string \<Rightarrow> cleansed_lines \<Rightarrow> lint_act list res" where
  "CheckForHeaderGuard env root filename clean_lines =
     (let raw_lines = cl_lines_without_raw_strings clean_lines; s = scan_guard raw_lines
      in if list_ex (\<lambda>l. Search ''//`s*NOLINT`(build/header_guard`)'' l \<noteq> None) raw_lines then Inr []
         else
           res_bind (GetHeaderGuardCPPVariable env root filename) (\<lambda>cppvar.
             if ifndef_arg s = [] \<or> define_arg s = [] \<or> ifndef_arg s \<noteq> define_arg s
             then Inr [Say (Report filename 0 ''build/header_guard'' 5
                              (''No #ifndef header guard found, suggested CPP variable is: '' @ cppvar))]
             else
               res_bind
                 (if ifndef_arg s = cppvar then Inr []
                  else
                    res_bind (py_nth raw_lines (int (ifndef_linenum s))) (\<lambda>raw.
                      Inr [Directive raw (ifndef_linenum s),
                           Say (Report filename (int (ifndef_linenum s)) ''build/header_guard''
                             (if ifndef_arg s = cppvar @ ''_'' then 0 else 5)
                             (''#ifndef header guard has wrong style, please use: '' @ cppvar))])) (\<lambda>ifndef_acts.
               res_bind (py_nth raw_lines (int (endif_linenum s))) (\<lambda>raw.
                 Inr (ifndef_acts @ Directive raw (endif_linenum s) # endif_acts filename raw_lines s cppvar)))))"

section \<open>Headers of a source file\<close>

definition TEST_FILE_SUFFIX :: string where "TEST_FILE_SUFFIX = ''(_test|_unittest|_regtest)$''"

definition CheckHeaderFileIncluded :: "os_env \<Rightarrow> string \<Rightarrow> include_state \<Rightarrow> report list res" where
  "CheckHeaderFileIncluded env filename st =
     res_bind (BaseName env filename) (\<lambda>base.
       if Search TEST_FILE_SUFFIX base \<noteq> None then Inr []
       else
         res_bind (Extension env filename) (\<lambda>extension.
           (let headerfile = py_slice filename 0 (int (length filename) - int (length extension)) @ ''.h''
            in if \<not> path_exists env headerfile then Inr []
               else
                 res_bind (repository_name env headerfile) (\<lambda>headername.
                   (let included = concat (include_list st);
                        first_include = (case find (\<lambda>l. l \<noteq> 0) (map snd included) of None \<Rightarrow> 0 | Some l \<Rightarrow> l)
                    in if list_ex (\<lambda>(f, _). contains f headername \<or> contains headername f) included then Inr []
                       else
                         res_bind (repository_name env filename) (\<lambda>name.
                           Inr [Report filename first_include ''build/include'' 5
                                  (name @ '' should include its header file '' @ headername)]))))))"

fun drop_suffix :: "string list \<Rightarrow> string \<Rightarrow> string" where
  "drop_suffix [] filename = fst (splitext filename)"
| "drop_suffix (ending # endings) filename =
     (if endswith filename ending \<and> length filename > length ending
         \<and> filename ! (length filename - length ending - 1) \<in> set ''-_''
      then take (length filename - length ending - 1) filename
      else drop_suffix endings filename)"

definition DropCommonSuffixes :: "string \<Rightarrow> string" where
  "DropCommonSuffixes filename =
     drop_suffix [''test.cc'', ''regtest.cc'', ''unittest.cc'', ''inl.h'', ''impl.h'', ''internal.h''] filename"

definition CPP_HEADERS :: "string list" where
  "CPP_HEADERS =
    [''algobase.h'', ''algo.h'', ''alloc.h'', ''builtinbuf.h'', ''bvector.h'', ''complex.h'', ''defalloc.h'',
     ''deque.h'', ''editbuf.h'', ''fstream.h'', ''function.h'', ''hash_map'', ''hash_map.h'', ''hash_set'',
     ''hash_set.h'', ''hashtable.h'', ''heap.h'', ''indstream.h'', ''iomanip.h'', ''iostream.h'', ''istream.h'',
     ''iterator.h'', ''list.h'', ''map.h'', ''multimap.h'', ''multiset.h'', ''ostream.h'', ''pair.h'',
     ''parsestream.h'', ''pfstream.h'', ''procbuf.h'', ''pthread_alloc'', ''pthread_alloc.h'', ''rope'', ''rope.h'',
     ''ropeimpl.h'', ''set.h'', ''slist'', ''slist.h'', ''stack.h'', ''stdiostream.h'', ''stl_alloc.h'',
     ''stl_relops.h'', ''streambuf.h'', ''stream.h'', ''strfile.h'', ''strstream.h'', ''tempbuf.h'', ''tree.h'',
     ''type_traits.h'', ''vector.h'', ''algorithm'', ''array'', ''atomic'', ''bitset'', ''chrono'', ''codecvt'',
     ''complex'', ''condition_variable'', ''deque'', ''exception'', ''forward_list'', ''fstream'', ''functional'',
     ''future'', ''initializer_list'', ''iomanip'', ''ios'', ''iosfwd'', ''iostream'', ''istream'', ''iterator'',
     ''limits'', ''list'', ''locale'', ''map'', ''memory'', ''mutex'', ''new'', ''numeric'', ''ostream'', ''queue'',
     ''random'', ''ratio'', ''regex'', ''scoped_allocator'', ''set'', ''sstream'', ''stack'', ''stdexcept'',
     ''streambuf'', ''string'', ''strstream'', ''system_error'', ''thread'', ''tuple'', ''typeindex'', ''typeinfo'',
     ''type_traits'', ''unordered_map'', ''unordered_set'', ''utility'', ''valarray'', ''vector'', ''cassert'',
     ''ccomplex'', ''cctype'', ''cerrno'', ''cfenv'', ''cfloat'', ''cinttypes'', ''ciso646'', ''climits'',
     ''clocale'', ''cmath'', ''csetjmp'', ''csignal'', ''cstdalign'', ''cstdarg'', ''cstdbool'', ''cstddef'',
     ''cstdint'', ''cstdio'', ''cstdlib'', ''cstring'', ''ctgmath'', ''ctime'', ''cuchar'', ''cwchar'', ''cwctype'']"

definition FIRST_COMPONENT :: string where "FIRST_COMPONENT = ''^[^-_.]+''"

definition ClassifyInclude :: "os_env \<Rightarrow> string \<Rightarrow> string \<Rightarrow> bool \<Rightarrow> header_type res" where
  "ClassifyInclude env filename include is_system =
     (if is_system then Inr (if include \<in> set CPP_HEADERS then CPP_SYS_HEADER else C_SYS_HEADER)
      else
        res_bind (repository_name env filename) (\<lambda>name.
          (let (target_dir, target_base) = path_split (DropCommonSuffixes name);
               (include_dir, include_base) = path_split (DropCommonSuffixes include)
           in if target_base = include_base \<and>
                 (include_dir = target_dir \<or> include_dir = normpath (target_dir @ ''/../public''))
              then Inr LIKELY_MY_HEADER
              else
                (case (Match FIRST_COMPONENT target_base, Match FIRST_COMPONENT include_base) of
                   (Some t, Some i) \<Rightarrow>
                     Inr (if m_text t = m_text i then POSSIBLE_MY_HEADER else OTHER_HEADER)
                 | _ \<Rightarrow> Inr OTHER_HEADER))))"

definition without_public :: "string \<Rightarrow> string" where
  "without_public name = replace_sub ''/internal/'' ''/'' (replace_sub ''/public/'' ''/'' name)"

definition FilesBelongToSameModule :: "os_env \<Rightarrow> string \<Rightarrow> string \<Rightarrow> (bool \<times> string) res" where
  "FilesBelongToSameModule env filename_cc filename_h =
     res_bind (IsSource env filename_cc) (\<lambda>is_source.
       if \<not> is_source then Inr (False, [])
       else
         res_bind (Extension env filename_cc) (\<lambda>extension.
         res_bind (BaseName env filename_cc) (\<lambda>base.
           (let cc0 = py_upto filename_cc (- int (length extension));
                cc1 = (case Search TEST_FILE_SUFFIX base of
                         None \<Rightarrow> cc0 | Some m \<Rightarrow> py_upto cc0 (- int (length (grp m 1))));
                cc = without_public cc1
            in if \<not> endswith filename_h ''.h'' then Inr (False, [])
               else
                 (let h0 = py_upto filename_h (-2);
                      h1 = (if endswith h0 ''-inl'' then py_upto h0 (-4) else h0);
                      h = without_public h1
                  in Inr (if endswith cc h then (True, py_upto cc (- int (length h))) else (False, [])))))))"

section \<open>The walks end\<close>

lemma svn_root_returns:
  assumes "\<And>d. dirname d = d \<Longrightarrow> prefix d dir \<Longrightarrow> \<not> marked env ''.svn'' d"
  shows "\<exists>root. svn_root env r dir = Some root"
  using assms
proof (induction "length dir" arbitrary: r dir rule: less_induct)
  case less
  show ?case
  proof (cases "marked env ''.svn'' dir")
    case True
    with less.prems [of dir] have "dirname dir \<noteq> dir" by auto
    have "\<not> marked env ''.svn'' d" if "dirname d = d" "prefix d (dirname dir)" for d
      using less.prems that dirname_prefix prefix_order.trans by blast
    from less.hyps [OF dirname_shorter [OF \<open>dirname dir \<noteq> dir\<close>] this] True show ?thesis
      by (simp add: svn_root.simps [of env r dir])
  qed (simp add: svn_root.simps [of env r dir])
qed

lemma svn_root_unmarked:
  assumes "svn_root env r dir = Some root"
  shows "\<exists>n. \<not> marked env ''.svn'' ((dirname ^^ n) dir)"
  using _ assms
proof (rule svn_root.raw_induct [where P = "\<lambda>env r dir root. \<exists>n. \<not> marked env ''.svn'' ((dirname ^^ n) dir)"])
  fix rec env r dir root
  assume IH: "\<And>env r dir root. rec env r dir = Some root \<Longrightarrow> \<exists>n. \<not> marked env ''.svn'' ((dirname ^^ n) dir)"
    and body: "(if marked env ''.svn'' dir then rec env (dirname r) (dirname dir) else Some r) = Some root"
  show "\<exists>n. \<not> marked env ''.svn'' ((dirname ^^ n) dir)"
  proof (cases "marked env ''.svn'' dir")
    case True
    with body IH obtain n where "\<not> marked env ''.svn'' ((dirname ^^ n) (dirname dir))" by (metis (no_types))
    then have "\<not> marked env ''.svn'' ((dirname ^^ Suc n) dir)" by (simp add: funpow_swap1)
    then show ?thesis by blast
  next
    case False
    then show ?thesis by (metis funpow_0)
  qed
qed

lemma dirname_root [simp]: "dirname ''/'' = ''/''"
  by code_simp

definition no_svn_at_root :: "os_env \<Rightarrow> bool" where
  "no_svn_at_root env \<longleftrightarrow> (\<forall>d. dirname d = d \<longrightarrow> \<not> marked env ''.svn'' d)"

lemma RepositoryName_returns: "no_svn_at_root env \<Longrightarrow> \<exists>name. RepositoryName env filename = Some name"
  using svn_root_returns [of "dirname (dirname (FullName env filename))" env]
  by (auto simp: RepositoryName_def no_svn_at_root_def Let_def)

lemma repository_name_total: "no_svn_at_root env \<Longrightarrow> returns (repository_name env filename)"
  using RepositoryName_returns by (fastforce simp: repository_name_def returns_def split: option.split)

lemma name_parts_total:
  assumes "no_svn_at_root env"
  shows "returns (Split env filename)" "returns (BaseName env filename)" "returns (Extension env filename)"
    "returns (IsSource env filename)"
  unfolding Split_def BaseName_def Extension_def IsSource_def
  by (intro oks repository_name_total assms)+

section \<open>The name of a guard\<close>

lemma match_at_Cls:
  "match_at (Cls neg cs) (b, c # a, []) =
     (if in_set neg cs c then Some \<lparr>m_start = length b, m_end = Suc (length b), m_text = [c], m_groups = []\<rparr> else None)"
  by (simp add: match_at_def)

lemma re_sub_Cls: "re_sub (Cls neg cs) (\<lambda>_. [d]) s = map (\<lambda>c. if in_set neg cs c then d else c) s"
proof -
  have "sub_from (Cls neg cs) (\<lambda>_. [d]) adj b a = map (\<lambda>c. if in_set neg cs c then d else c) a" for adj b a
    by (induction a arbitrary: adj b)
      (simp_all add: match_at_Cls match_at_def del: in_set.simps)
  then show ?thesis by (simp add: re_sub_def)
qed

definition guard_chr :: "char \<Rightarrow> bool" where
  "guard_chr c \<longleftrightarrow> is_digit c \<or> 65 \<le> ord_of c \<and> ord_of c \<le> 90 \<or> c = CHR ''_''"

lemma guard_tree: "compile (bs ''[^a-zA-Z0-9]'') = Some (Cls True [CRange (CHR ''a'') (CHR ''z''), CRange (CHR ''A'') (CHR ''Z''), CRange (CHR ''0'') (CHR ''9'')])"
  by code_simp

lemma guard_name_chars: "list_all guard_chr (guard_name path)"
proof -
  have "guard_chr (upper_chr (if in_set True [CRange (CHR ''a'') (CHR ''z''), CRange (CHR ''A'') (CHR ''Z''), CRange (CHR ''0'') (CHR ''9'')] c
      then CHR ''_'' else c))" for c
    by (auto simp: guard_chr_def upper_chr_def is_digit_def ord_of_def of_char_of)
  then show ?thesis
    by (auto simp: guard_name_def ReplaceAll_def guard_tree re_sub_Cls list_all_iff guard_chr_def simp del: in_set.simps)
qed

section \<open>Patterns around a word\<close>

lemma re_parse_word:
  "list_all is_word w \<Longrightarrow> re_parse f st n (w @ s) = re_parse (f\<lparr>f_seq := rev (map Chr w) @ f_seq f\<rparr>) st n s"
proof (induction w arbitrary: f)
  case (Cons c w)
  then have c: "is_word c" by simp
  then have "c \<noteq> CHR 0x5C" "c \<noteq> CHR ''[''" "c \<noteq> CHR ''(''" "c \<noteq> CHR '')''" "c \<noteq> CHR ''|''" "quantifier c t = None" "plain_re c = Chr c" for t
    by (auto simp: is_word_def is_digit_def ord_of_def quantifier_def plain_re_def)
  then have "re_parse f st n ((c # w) @ s) = re_parse (push_re (Chr c) f) st n (w @ s)" by simp
  also have "\<dots> = re_parse (f\<lparr>f_seq := rev (map Chr (c # w)) @ f_seq f\<rparr>) st n s"
    using Cons.IH [of "push_re (Chr c) f"] Cons.prems by (simp add: push_re_def)
  finally show ?case .
qed simp

lemma ms_seq_of_Cons:
  "y \<in> set (ms (seq_of (r # rs)) x) \<longleftrightarrow> (\<exists>z \<in> set (ms r x). y \<in> set (ms (seq_of rs) z))"
  by (cases rs) auto

lemma ms_seq_of_Chr:
  "y \<in> set (ms (seq_of (map Chr w @ rs)) (b, a, g)) \<longleftrightarrow> (\<exists>a'. a = w @ a' \<and> y \<in> set (ms (seq_of rs) (rev w @ b, a', g)))"
proof (induction w arbitrary: b a)
  case (Cons c w)
  then show ?case by (auto simp: ms_seq_of_Cons step1_mem simp del: seq_of.simps)
qed simp

abbreviation spaces_re :: re where "spaces_re \<equiv> Star True (Cls False [CSpace])"

definition endif_re :: "string \<Rightarrow> re" where
  "endif_re v = seq_of (map Chr ''#endif'' @ spaces_re # map Chr ''//'' @ spaces_re # map Chr v @
     [Alt (Seq (Grp 1 (Chr (CHR ''_''))) Eps) Eps, WordB])"

lemma bs_word: "list_all is_word v \<Longrightarrow> bs v = v"
  by (induction v) (auto simp: bs_def is_word_def is_digit_def ord_of_def)

lemmas parse_step = re_parse.simps(2) bs_def new_frame_def push_re_def plain_re_def quantifier_def esc_re_def
  is_digit_def ord_of_def repeat_re_def re_opt_def close_frame_def

lemma parse_endif_front:
  "\<not> prefix ''?'' s \<Longrightarrow> re_parse (new_frame FTop) [] 1 (bs ''#endif`s*//`s*'' @ s) =
     re_parse \<lparr>f_kind = FTop, f_alts = [], f_seq = rev (map Chr ''#endif'' @ spaces_re # map Chr ''//'' @ [spaces_re])\<rparr> [] 1 s"
  by (simp add: parse_step)

lemma parse_endif_back:
  "re_parse \<lparr>f_kind = FTop, f_alts = [], f_seq = q\<rparr> [] 1 (bs ''(_)?`b'') =
     Some (seq_of (rev q @ [Alt (Seq (Grp 1 (Chr (CHR ''_''))) Eps) Eps, WordB]))"
  by (simp add: parse_step)

lemma compile_endif:
  assumes "list_all is_word v" "v \<noteq> []"
  shows "compile (bs (''#endif`s*//`s*'' @ v @ ''(_)?`b'')) = Some (endif_re v)"
proof -
  from assms have q: "\<not> prefix ''?'' (v @ bs ''(_)?`b'')"
    by (cases v) (auto simp: is_word_def is_digit_def ord_of_def)
  have bs: "bs (''#endif`s*//`s*'' @ v @ ''(_)?`b'') = bs ''#endif`s*//`s*'' @ v @ bs ''(_)?`b''"
    using bs_word [OF assms(1)] by (simp add: bs_def)
  show ?thesis
    unfolding compile_def bs parse_endif_front [OF q] re_parse_word [OF assms(1)]
    by (simp only: frame.simps parse_endif_back endif_re_def rev_append rev_rev_ident append_assoc append_Cons rev.simps append_Nil)
qed

text \<open>The comment that the guard of a file asks for is recognised, and its deprecated form is not seen in it.\<close>

lemma endif_members:
  assumes "list_all is_word v" "v \<noteq> []"
  shows "y \<in> set (ms (endif_re v) ([], ''#endif  // '' @ v, [])) \<longleftrightarrow> y = (rev (''#endif  // '' @ v), [], [])"
proof -
  from assms obtain c w where v: "v = c # w" "is_word c" by (cases v) auto
  then have c: "c \<noteq> CHR '' ''" "\<not> is_space c" by (auto simp: is_word_def is_space_def is_digit_def ord_of_def)
  have sp: "is_space (CHR '' '')" "\<not> is_space (CHR ''/'')" by code_simp+
  obtain d x where "v = x @ [d]" using assms(2) by (cases v rule: rev_cases) auto
  with assms(1) have fin: "at_word (rev v @ b)" for b by simp
  have first: "''  // '' @ v = u @ ''//'' @ r \<and> list_all is_space u \<longleftrightarrow> u = ''  '' \<and> r = '' '' @ v" for u r
    using sp by (cases u; cases "tl u"; cases "tl (tl u)") auto
  have second: "CHR '' '' # v = u @ v @ r \<and> list_all is_space u \<longleftrightarrow> u = '' '' \<and> r = []" for u r
  proof (cases u)
    case Nil
    then show ?thesis using v c by auto
  next
    case (Cons d u')
    have "u' = [] \<and> r = []" if "v = u' @ v @ r" using arg_cong [OF that, of length] by simp
    with Cons show ?thesis using sp by auto
  qed
  have cls: "in_set False [CSpace] = is_space" by (intro ext) simp
  have star: "y \<in> set (ms (seq_of (spaces_re # rs)) (b, a, [])) \<longleftrightarrow>
      (\<exists>u r. a = u @ r \<and> list_all is_space u \<and> y \<in> set (ms (seq_of rs) (rev u @ b, r, [])))" for y rs b a
    unfolding ms_seq_of_Cons Bex_def ms_Star_Cls_mem cls by fastforce
  have tail: "y \<in> set (ms (seq_of [Alt (Seq (Grp 1 (Chr (CHR ''_''))) Eps) Eps, WordB]) (rev v @ b, [], [])) \<longleftrightarrow>
      y = (rev v @ b, [], [])" for y b
    using fin by auto
  have parts: "(\<exists>u r. x = u @ r \<and> list_all is_space u \<and> (\<exists>a. r = t @ a \<and> Q u a)) \<longleftrightarrow>
      (\<exists>u a. (x = u @ t @ a \<and> list_all is_space u) \<and> Q u a)" for x t Q by blast
  have lead: "(\<exists>a. ''#endif  // '' @ v = ''#endif'' @ a \<and> Q a) \<longleftrightarrow> Q (''  // '' @ v)" for Q by simp
  have point: "(\<exists>u a. (u = c \<and> a = d) \<and> Q u a) \<longleftrightarrow> Q c d" for c d :: string and Q by simp
  have blank: "'' '' @ v = CHR '' '' # v" by simp
  have "y \<in> set (ms (endif_re v) ([], ''#endif  // '' @ v, [])) \<longleftrightarrow>
      y \<in> set (ms (seq_of [Alt (Seq (Grp 1 (Chr (CHR ''_''))) Eps) Eps, WordB])
        (rev v @ rev '' '' @ rev ''//'' @ rev ''  '' @ rev ''#endif'' @ [], [], []))"
    unfolding endif_re_def ms_seq_of_Chr star parts lead first point blank second by (rule refl)
  then show ?thesis unfolding tail by simp
qed

lemma endif_match:
  assumes "list_all is_word v" "v \<noteq> []"
  shows "\<exists>m. Match (''#endif`s*//`s*'' @ v @ ''(_)?`b'') (''#endif  // '' @ v) = Some m \<and> group m 1 = None"
proof -
  note members = endif_members [OF assms]
  from members Match_None_iff [OF compile_endif [OF assms]] obtain m where
    m: "Match (''#endif`s*//`s*'' @ v @ ''(_)?`b'') (''#endif  // '' @ v) = Some m" by blast
  from Match_inv [OF m compile_endif [OF assms]] members have "m_groups m = []" by auto
  with m show ?thesis by (simp add: group_def)
qed

section \<open>The guard that is asked for is accepted\<close>

lemma split_ws_word: "list_all (\<lambda>c. \<not> uspace c) w \<Longrightarrow> split_ws_acc acc (w @ s) = split_ws_acc (rev w @ acc) s"
  by (induction w arbitrary: acc) auto

lemma split_ws_two:
  assumes "list_all (\<lambda>c. \<not> uspace c) u" "u \<noteq> []" "list_all (\<lambda>c. \<not> uspace c) v" "v \<noteq> []"
  shows "split_ws (u @ '' '' @ v) = [u, v]"
proof -
  have "uspace (CHR '' '')" by code_simp
  then show ?thesis
    using assms split_ws_word [OF assms(1), of "[]" "'' '' @ v"] split_ws_word [OF assms(3), of "[]" "[]"]
    by (simp add: split_ws_def)
qed

lemma scan_guard_line_keeps:
  assumes "ifndef_arg s \<noteq> []" "define_arg s \<noteq> []"
  shows "ifndef_arg (scan_guard_line x s) = ifndef_arg s \<and> define_arg (scan_guard_line x s) = define_arg s \<and>
    ifndef_linenum (scan_guard_line x s) = ifndef_linenum s"
  using assms by (cases x) (simp add: scan_guard_line_def Let_def)

lemma scan_guard_keeps:
  "ifndef_arg s \<noteq> [] \<Longrightarrow> define_arg s \<noteq> [] \<Longrightarrow>
    ifndef_arg (fold scan_guard_line xs s) = ifndef_arg s \<and> define_arg (fold scan_guard_line xs s) = define_arg s"
  by (induction xs arbitrary: s) (auto simp: scan_guard_line_keeps)

lemma guard_chr_word: "guard_chr c \<Longrightarrow> is_word c \<and> \<not> uspace c"
  by (auto simp: guard_chr_def is_word_def uspace_def is_digit_def ord_of_def)

lemma scan_guard_endif:
  "endif_text (scan_guard_line (n, l) s) = (if startswith l ''#endif'' then l else endif_text s)"
  "endif_linenum (scan_guard_line (n, l) s) = (if startswith l ''#endif'' then n else endif_linenum s)"
  by (simp_all add: scan_guard_line_def Let_def)

definition guarded :: "string \<Rightarrow> string list \<Rightarrow> string list" where
  "guarded v body =
     ''// marker so line numbers and indices both start at 1'' # (''#ifndef '' @ v) # (''#define '' @ v) # body
     @ [''#endif  // '' @ v, [], ''// marker so line numbers end in a known way'']"

lemma scan_guarded:
  assumes "list_all guard_chr v" "v \<noteq> []"
  shows "ifndef_arg (scan_guard (guarded v body)) = v" "define_arg (scan_guard (guarded v body)) = v"
    "endif_text (scan_guard (guarded v body)) = ''#endif  // '' @ v"
    "endif_linenum (scan_guard (guarded v body)) = length body + 3"
proof -
  from assms(1) have v: "list_all (\<lambda>c. \<not> uspace c) v" by (auto simp: list_all_iff guard_chr_word)
  have split: "split_ws (''#ifndef '' @ v) = [''#ifndef'', v]" "split_ws (''#define '' @ v) = [''#define'', v]"
    using split_ws_two [OF _ _ v assms(2), of "''#ifndef''"] split_ws_two [OF _ _ v assms(2), of "''#define''"]
    by (simp_all add: uspace_def ord_of_def)
  let ?m1 = "''// marker so line numbers and indices both start at 1''" and ?m2 = "''// marker so line numbers end in a known way''"
  have marker: "split_ws ?m1 ! 0 \<noteq> ''#ifndef''" "split_ws ?m1 ! 0 \<noteq> ''#define''" "\<not> startswith ?m1 ''#endif''"
    "\<not> startswith ?m2 ''#endif''" "\<not> startswith [] ''#endif''"
    by code_simp+
  have ends: "startswith (''#endif  // '' @ v) ''#endif''" "\<not> startswith (''#ifndef '' @ v) ''#endif''"
    "\<not> startswith (''#define '' @ v) ''#endif''" by (simp_all add: startswith_def)
  define s3 where "s3 = fold scan_guard_line (enumerate 0 [?m1, ''#ifndef '' @ v, ''#define '' @ v])
      \<lparr>ifndef_arg = [], ifndef_linenum = 0, define_arg = [], endif_text = [], endif_linenum = 0\<rparr>"
  have s3: "ifndef_arg s3 = v" "define_arg s3 = v"
    using marker split assms(2) ends by (simp_all add: s3_def scan_guard_line_def Let_def)
  define s4 where "s4 = fold scan_guard_line (enumerate 3 body) s3"
  have s4: "ifndef_arg s4 = v" "define_arg s4 = v"
    using scan_guard_keeps [of s3 "enumerate 3 body"] s3 assms(2) by (simp_all add: s4_def)
  have run: "scan_guard (guarded v body) =
      fold scan_guard_line (enumerate (length body + 3) [''#endif  // '' @ v, [], ?m2]) s4"
    by (simp add: scan_guard_def guarded_def s3_def s4_def enumerate_append_eq numeral_eq_Suc)
  have keep: "ifndef_arg (fold scan_guard_line xs s4) = v" "define_arg (fold scan_guard_line xs s4) = v" for xs
    using scan_guard_keeps [of s4 xs] s4 assms(2) by simp_all
  show "ifndef_arg (scan_guard (guarded v body)) = v" "define_arg (scan_guard (guarded v body)) = v"
    unfolding run by (rule keep)+
  show "endif_text (scan_guard (guarded v body)) = ''#endif  // '' @ v"
    "endif_linenum (scan_guard (guarded v body)) = length body + 3"
    unfolding run using marker(4,5) ends(1) by (simp_all add: scan_guard_endif)
qed


section \<open>Properties\<close>

text \<open>
  C10: A header whose guard is written as the linter asks for, around any body, draws no report
  about its guard: the name that is suggested is the name that is accepted.
\<close>
theorem suggested_guard_accepted:
  assumes "GetHeaderGuardCPPVariable env root filename = Inr v" "cl_lines_without_raw_strings cl = guarded v body"
  shows "\<exists>acts. CheckForHeaderGuard env root filename cl = Inr acts \<and> list_all (\<lambda>a. \<exists>l n. a = Directive l n) acts"
proof -
  from assms(1) obtain path where v: "v = guard_name path" by (auto simp: GetHeaderGuardCPPVariable_def)
  then have "v \<noteq> []" by (simp add: guard_name_def)
  moreover have chars: "list_all guard_chr v" by (simp add: v guard_name_chars)
  ultimately obtain m where m: "Match (''#endif`s*//`s*'' @ v @ ''(_)?`b'') (''#endif  // '' @ v) = Some m" "group m 1 = None"
    using endif_match [of v] by (auto simp: list_all_iff guard_chr_word)
  note scan = scan_guarded [OF chars \<open>v \<noteq> []\<close>, of body]
  have "endif_acts filename (guarded v body) (scan_guard (guarded v body)) v = []"
    unfolding endif_acts_def Let_def scan(3) m(1) using m(2) by simp
  moreover have "py_nth (guarded v body) (int (length body + 3)) = Inr (guarded v body ! (length body + 3))"
    by (rule py_nth_in_range) (simp add: guarded_def)
  ultimately show ?thesis
    unfolding CheckForHeaderGuard_def assms Let_def using scan \<open>v \<noteq> []\<close> by simp
qed

definition demo_env :: os_env where
  "demo_env = \<lparr>cwd = ''/repo'', path_exists = (\<lambda>p. p \<in> set [''/repo/.git'', ''/repo/io/a.h'', ''/repo/io/a.cc'']),
     path_isfile = (\<lambda>p. p \<in> set [''/repo/io/a.h'', ''/repo/io/a.cc'']), read_file = (\<lambda>_. None)\<rparr>"

theorem suggested_guard_accepted_witness:
  "GetHeaderGuardCPPVariable demo_env [] ''io/a.h'' = Inr ''IO_A_H_'' \<and>
   (\<exists>acts. CheckForHeaderGuard demo_env [] ''io/a.h'' (demo_cond\<lparr>cl_lines_without_raw_strings := guarded ''IO_A_H_'' [''int x;'']\<rparr>) = Inr acts \<and>
      list_all (\<lambda>a. \<exists>l n. a = Directive l n) acts)"
proof -
  have v: "GetHeaderGuardCPPVariable demo_env [] ''io/a.h'' = Inr ''IO_A_H_''" by code_simp
  from suggested_guard_accepted [OF v, of "demo_cond\<lparr>cl_lines_without_raw_strings := guarded ''IO_A_H_'' [''int x;'']\<rparr>"] v
  show ?thesis by simp
qed

text \<open>
  C28: A header guard consists of upper case letters, digits and underscores and ends with an
  underscore, for every path, file system and root option.
\<close>
theorem guard_is_macro_name:
  assumes "GetHeaderGuardCPPVariable env root filename = Inr v"
  shows "list_all guard_chr v \<and> v \<noteq> [] \<and> last v = CHR ''_''"
proof -
  from assms obtain path where v: "v = guard_name path" by (auto simp: GetHeaderGuardCPPVariable_def)
  then show ?thesis using guard_name_chars by (simp add: guard_name_def)
qed

theorem guard_is_macro_name_witness:
  "GetHeaderGuardCPPVariable demo_env ''io'' ''io/c++.h'' = Inr ''_REPO_IO_CPP_H_'' \<and> list_all guard_chr ''_REPO_IO_CPP_H_''"
proof -
  have v: "GetHeaderGuardCPPVariable demo_env ''io'' ''io/c++.h'' = Inr ''_REPO_IO_CPP_H_''" by code_simp
  from guard_is_macro_name [OF v] v show ?thesis by blast
qed

lemma all_nat_split: "(\<forall>n. Q n) \<longleftrightarrow> Q 0 \<and> (\<forall>n. Q (Suc n))" for Q :: "nat \<Rightarrow> bool"
  by (metis not0_implies_Suc)

lemma svn_root_at: "\<not> marked env ''.svn'' ((dirname ^^ n) dir) \<Longrightarrow> svn_root env r dir \<noteq> None"
proof (induction n arbitrary: r dir)
  case 0
  then show ?case by (simp add: svn_root.simps [of env r dir])
next
  case (Suc n)
  then have "svn_root env (dirname r) (dirname dir) \<noteq> None" by (simp add: funpow_swap1)
  then show ?case by (simp add: svn_root.simps [of env r dir])
qed

text \<open>
  C27: The name of a file relative to its checkout is found unless every directory above
  the file, the root directory included, carries a Subversion marker; then the search for
  the top of the checkout does not end.
\<close>
theorem repository_search_ends:
  "RepositoryName env filename = None \<longleftrightarrow>
     path_exists env (FullName env filename) \<and>
     (\<forall>n. marked env ''.svn'' ((dirname ^^ n) (dirname (FullName env filename))))"
proof -
  let ?d = "dirname (FullName env filename)"
  have "svn_root env ?d (dirname ?d) = None \<longleftrightarrow> (\<forall>n. marked env ''.svn'' ((dirname ^^ n) (dirname ?d)))"
    using svn_root_at svn_root_unmarked by (metis option.exhaust)
  moreover have "(\<forall>n. P ((dirname ^^ n) ?d)) \<longleftrightarrow> P ?d \<and> (\<forall>n. P ((dirname ^^ n) (dirname ?d)))" for P
    using funpow_swap1 [of dirname] by (subst all_nat_split) simp
  ultimately show ?thesis by (simp add: RepositoryName_def Let_def)
qed

end
