(* ===== verification/Style.thy ===== *)
theory Style
  imports Spacing File_Names
begin

text \<open>
  Braces, bodies and the other rules of style (\<open>scripts/cpplint.py\<close>:
  \<open>GetPreviousNonBlankLine\<close>, \<open>CheckBraces\<close>, \<open>CheckTrailingSemicolon\<close>,
  \<open>CheckEmptyBlockBody\<close>, \<open>FindCheckMacro\<close>, \<open>CheckCheck\<close>, \<open>CheckAltTokens\<close>,
  \<open>GetLineWidth\<close>, \<open>CheckStyle\<close>). The loops over the lines that follow are recursions over
  the rest of the file. The width limit, a module variable that options set, is an
  argument; the width of a line is its length, as the characters of the model are neither
  wide nor combining.
\<close>

section \<open>Braces\<close>

definition GetPreviousNonBlankLine :: "cleansed_lines \<Rightarrow> nat \<Rightarrow> (string \<times> int) res" where
  "GetPreviousNonBlankLine clean_lines linenum =
     res_bind (find_res (\<lambda>i. res_bind (py_nth (cl_elided clean_lines) (int i)) (\<lambda>l. Inr (\<not> IsBlankLine l)))
       (rev [0..<linenum])) (\<lambda>found.
       (case found of
          None \<Rightarrow> Inr ([], -1)
        | Some i \<Rightarrow> res_bind (py_nth (cl_elided clean_lines) (int i)) (\<lambda>prevline. Inr (prevline, int i))))"

definition GetLineWidth :: "string \<Rightarrow> nat" where "GetLineWidth line = length line"

definition brace_on_own_line :: "int \<Rightarrow> string \<Rightarrow> cleansed_lines \<Rightarrow> nat \<Rightarrow> string \<Rightarrow> report list res" where
  "brace_on_own_line line_length filename clean_lines linenum line =
     (if Match ''`s*{`s*$'' line = None then Inr []
      else res_bind (GetPreviousNonBlankLine clean_lines linenum) (\<lambda>(prevline, _).
        Inr (flag (Search ''[,;:}{(]`s*$'' prevline = None \<and> Match ''`s*#'' prevline = None \<and>
                   \<not> (int (GetLineWidth prevline) > line_length - 2 \<and> contains prevline ''[]''))
               filename linenum ''whitespace/braces'' 4
               ''{ should almost always be at the end of the previous line'')))"

definition else_on_own_line :: "string \<Rightarrow> cleansed_lines \<Rightarrow> nat \<Rightarrow> string \<Rightarrow> report list res" where
  "else_on_own_line filename clean_lines linenum line =
     (if Match ''`s*else`b`s*(?:if`b|`{|$)'' line = None then Inr []
      else res_bind (GetPreviousNonBlankLine clean_lines linenum) (\<lambda>(prevline, _).
        Inr (flag (Match ''`s*}`s*$'' prevline \<noteq> None) filename linenum ''whitespace/newline'' 4
               ''An else should appear on the same line as the preceding }'')))"

definition else_braces :: "string \<Rightarrow> cleansed_lines \<Rightarrow> nat \<Rightarrow> string \<Rightarrow> report list res" where
  "else_braces filename clean_lines linenum line =
     (let err = (\<lambda>b. flag b filename linenum ''readability/braces'' 5
                   ''If an else has a brace on one side, it should have it on both'')
      in if Search ''else if`s*`('' line \<noteq> None then
           (let brace_on_left = (Search ''}`s*else if`s*`('' line \<noteq> None);
                pos = py_find_from line ''('' (py_find line ''else if'')
            in if pos > 0 then
                 res_bind (CloseExpression clean_lines linenum (nat pos)) (\<lambda>(endline, _, endpos).
                   (let brace_on_right = contains (py_from endline endpos) ''{''
                    in Inr (err (brace_on_left \<noteq> brace_on_right))))
               else Inr [])
         else Inr (err (Search ''}`s*else[^{]*$'' line \<noteq> None \<or> Match ''[^}]*else`s*{'' line \<noteq> None)))"

text \<open>The line where the first semicolon after a position stands; the position counts on the first line only.\<close>

fun semicolon_line :: "string list \<Rightarrow> nat \<Rightarrow> int \<Rightarrow> nat option" where
  "semicolon_line [] i pos = None"
| "semicolon_line (l # ls) i pos = (if contains (py_from l pos) '';'' then Some i else semicolon_line ls (Suc i) 0)"

definition single_statement ::
  "string \<Rightarrow> cleansed_lines \<Rightarrow> nat \<Rightarrow> nat \<Rightarrow> bool \<Rightarrow> nat \<Rightarrow> report list res" where
  "single_statement filename clean_lines linenum if_indent if_match endlinenum =
     res_bind (py_nth (cl_elided clean_lines) (int endlinenum)) (\<lambda>endline.
       (let err = (\<lambda>b. flag b filename linenum ''readability/braces'' 4);
            several = ''If/else bodies with multiple statements require braces'';
            endpos = py_find endline '';''
        in if Match '';[`s}]*(``?)$'' (py_from endline endpos) = None
           then Inr (err (Match ''^[^{};]*`[[^`[`]]*`][^{}]*`{[^{}]*`}`s*`)*[;,]`s*$'' endline = None) several)
           else if int endlinenum < int (length (cl_elided clean_lines)) - 1 then
             res_bind (py_nth (cl_elided clean_lines) (int (Suc endlinenum))) (\<lambda>next_line.
               (let next_indent = GetIndentLevel next_line
                in Inr (if if_match \<and> Match ''`s*else`b'' next_line \<noteq> None \<and> next_indent \<noteq> if_indent
                        then err True ''Else clause should be indented at the same level as if. Ambiguous nested if/else chains require braces.''
                        else err (next_indent > if_indent) several)))
           else Inr []))"

definition braces_follow :: "cleansed_lines \<Rightarrow> string \<Rightarrow> nat \<Rightarrow> int \<Rightarrow> bool res" where
  "braces_follow clean_lines endline endlinenum endpos =
     (if Match ''`s*{'' (py_from endline endpos) \<noteq> None then Inr True
      else if Match ''`s*$'' (py_from endline endpos) \<noteq> None
              \<and> int endlinenum < int (length (cl_elided clean_lines)) - 1
      then res_bind (py_nth (cl_elided clean_lines) (int (Suc endlinenum))) (\<lambda>l. Inr (Match ''`s*{'' l \<noteq> None))
      else Inr False)"

definition if_else_body :: "string \<Rightarrow> cleansed_lines \<Rightarrow> nat \<Rightarrow> string \<Rightarrow> report list res" where
  "if_else_body filename clean_lines linenum line =
     (case Search ''`b(if`s*`(|else`b)'' line of
        None \<Rightarrow> Inr []
      | Some if_else_match \<Rightarrow>
          (if Match ''`s*#'' line \<noteq> None then Inr []
           else
             res_bind
               (case Search ''`bif`s*`('' line of
                  None \<Rightarrow> Inr (line, linenum, int (m_end if_else_match))
                | Some if_match \<Rightarrow> CloseExpression clean_lines linenum (m_end if_match - 1)) (\<lambda>(endline, endlinenum, endpos).
             res_bind (braces_follow clean_lines endline endlinenum endpos) (\<lambda>braces.
               if braces then Inr []
               else (case semicolon_line (drop endlinenum (cl_elided clean_lines)) endlinenum endpos of
                       None \<Rightarrow> Inr []
                     | Some k \<Rightarrow> single_statement filename clean_lines linenum (GetIndentLevel line)
                                   (Search ''`bif`s*`('' line \<noteq> None) k)))))"

definition CheckBraces :: "int \<Rightarrow> string \<Rightarrow> cleansed_lines \<Rightarrow> nat \<Rightarrow> report list res" where
  "CheckBraces line_length filename clean_lines linenum =
     res_bind (py_nth (cl_elided clean_lines) (int linenum)) (\<lambda>line.
     res_bind (brace_on_own_line line_length filename clean_lines linenum line) (\<lambda>r1.
     res_bind (else_on_own_line filename clean_lines linenum line) (\<lambda>r2.
     res_bind (else_braces filename clean_lines linenum line) (\<lambda>r3.
     res_bind (if_else_body filename clean_lines linenum line) (\<lambda>r4.
       Inr (r1 @ r2 @ r3 @
         flag (Search ''`belse [^`s{]'' line \<noteq> None \<and> Search ''`belse if`b'' line = None)
           filename linenum ''whitespace/newline'' 4
           ''Else clause should never be on same line as else (use 2 lines)'' @
         flag (Match ''`s*do [^`s{]'' line \<noteq> None) filename linenum ''whitespace/newline'' 4
           ''do/while clauses should not be on a single line'' @
         r4))))))"

section \<open>Semicolons after a block\<close>

text \<open>What stands before the parenthesis that a block follows, when it makes a semicolon legitimate.\<close>

definition needs_semicolon :: "string \<Rightarrow> bool" where
  "needs_semicolon line_prefix \<longleftrightarrow>
     (case Search ''`b([A-Z_][A-Z0-9_]*)`s*$'' line_prefix of
        None \<Rightarrow> False
      | Some macro \<Rightarrow> grp macro 1 \<notin> set [''TEST'', ''TEST_F'', ''MATCHER'', ''MATCHER_P'', ''TYPED_TEST'',
          ''EXCLUSIVE_LOCKS_REQUIRED'', ''SHARED_LOCKS_REQUIRED'', ''LOCKS_EXCLUDED'', ''INTERFACE_DEF'']) \<or>
     (case Match ''^(.*`])`s*$'' line_prefix of
        None \<Rightarrow> False
      | Some func \<Rightarrow> Search ''`boperator`s*`[`s*`]'' (grp func 1) = None) \<or>
     Search ''`b(?:struct|union)`s+alignas`s*$'' line_prefix \<noteq> None \<or>
     Search ''`bdecltype$'' line_prefix \<noteq> None \<or>
     Search ''`s+=`s*$'' line_prefix \<noteq> None"

definition block_start :: "cleansed_lines \<Rightarrow> nat \<Rightarrow> string \<Rightarrow> pymatch option res" where
  "block_start clean_lines linenum line =
     (case Match ''^(.*`)`s*)`{'' line of
        Some m \<Rightarrow>
          res_bind (ReverseCloseExpression clean_lines linenum (nat (py_rfind (grp m 1) (CHR '')'')))) (\<lambda>(text, opening, start).
            if start > -1 \<and> needs_semicolon (py_upto text start) then Inr None
            else if opening > 1 then
              res_bind (py_nth (cl_elided clean_lines) (int opening - 1)) (\<lambda>prev.
                Inr (if Search ''`]`s*$'' prev \<noteq> None then None else Some m))
            else Inr (Some m))
      | None \<Rightarrow>
          (case Match ''^(.*(?:else|`)`s*const)`s*)`{'' line of
             Some m \<Rightarrow> Inr (Some m)
           | None \<Rightarrow>
               res_bind (GetPreviousNonBlankLine clean_lines linenum) (\<lambda>(prevline, _).
                 Inr (if prevline \<noteq> [] \<and> Search ''[;{}]`s*$'' prevline \<noteq> None then Match ''^(`s*)`{'' line else None))))"

definition CheckTrailingSemicolon :: "string \<Rightarrow> cleansed_lines \<Rightarrow> nat \<Rightarrow> report list res" where
  "CheckTrailingSemicolon filename clean_lines linenum =
     res_bind (py_nth (cl_elided clean_lines) (int linenum)) (\<lambda>line.
     res_bind (block_start clean_lines linenum line) (\<lambda>start.
       (case start of
          None \<Rightarrow> Inr []
        | Some m \<Rightarrow>
            res_bind (CloseExpression clean_lines linenum (length (grp m 1))) (\<lambda>(endline, endlinenum, endpos).
              Inr (flag (endpos > -1 \<and> Match ''^`s*;'' (py_from endline endpos) \<noteq> None)
                     filename endlinenum ''readability/braces'' 4 (''You don'' @ [sq] @ ''t need a ; after a }''))))))"

section \<open>Empty bodies\<close>

text \<open>The line of the opening brace after a condition, when only white space is in between.\<close>

fun find_opening :: "string \<Rightarrow> string list \<Rightarrow> nat \<Rightarrow> (nat \<times> string) option" where
  "find_opening fragment later n =
     (if Search ''^`s*`{'' fragment \<noteq> None then Some (n, fragment)
      else if Search ''^(?!`s*$)'' fragment \<noteq> None then None
      else (case later of [] \<Rightarrow> None | l # ls \<Rightarrow> find_opening l ls (Suc n)))"

declare find_opening.simps [simp del]

fun else_follows :: "string \<Rightarrow> string list \<Rightarrow> bool" where
  "else_follows fragment later \<longleftrightarrow>
     Search ''^`s*$|^(?=`s*else)'' fragment \<noteq> None \<and>
     (Search ''^(?=`s*else)'' fragment \<noteq> None \<or>
      (case later of [] \<Rightarrow> False | l # ls \<Rightarrow> else_follows l ls))"

declare else_follows.simps [simp del]

definition EMPTY_CONDITIONAL_BODY :: string where "EMPTY_CONDITIONAL_BODY = ''^`s*$''"

definition body_text :: "cleansed_lines \<Rightarrow> nat \<Rightarrow> nat \<Rightarrow> string \<Rightarrow> nat \<Rightarrow> int \<Rightarrow> string res" where
  "body_text clean_lines opening_linenum opening_pos opening_line closing_linenum closing_pos =
     (if closing_linenum > opening_linenum then
        res_bind (py_nth (cl_elided clean_lines) (int closing_linenum)) (\<lambda>closing.
          Inr (join [nl] (map (\<lambda>c. [c]) (drop (opening_pos + 1) opening_line) @
            py_slice (cl_raw_lines clean_lines) (int opening_linenum + 1) (int closing_linenum) @
            [py_upto closing (closing_pos - 1)])))
      else Inr (py_slice opening_line (int opening_pos + 1) (closing_pos - 1)))"

definition empty_if_body :: "string \<Rightarrow> cleansed_lines \<Rightarrow> string \<Rightarrow> nat \<Rightarrow> int \<Rightarrow> report list res" where
  "empty_if_body filename clean_lines end_line end_linenum end_pos =
     (case find_opening (py_from end_line end_pos) (drop (Suc end_linenum) (cl_elided clean_lines)) end_linenum of
        None \<Rightarrow> Inr []
      | Some (opening_linenum, fragment) \<Rightarrow>
          res_bind (py_nth (cl_elided clean_lines) (int opening_linenum)) (\<lambda>opening_line.
            (let opening_pos = nat (py_find fragment ''{'' + (if opening_linenum = end_linenum then end_pos else 0))
             in res_bind (CloseExpression clean_lines opening_linenum opening_pos) (\<lambda>(closing_line, closing_linenum, closing_pos).
                  if closing_pos < 0 then Inr []
                  else res_bind (py_nth (cl_raw_lines clean_lines) (int opening_linenum)) (\<lambda>raw.
                    if raw \<noteq> CleanseComments raw then Inr []
                    else res_bind (body_text clean_lines opening_linenum opening_pos opening_line closing_linenum closing_pos) (\<lambda>body.
                      Inr (flag (Search EMPTY_CONDITIONAL_BODY body \<noteq> None \<and>
                                 \<not> else_follows (py_from closing_line closing_pos)
                                     (drop (Suc closing_linenum) (cl_elided clean_lines)))
                             filename end_linenum ''whitespace/empty_if_body'' 4
                             ''If statement had no body and no else clause'')))))))"

definition CheckEmptyBlockBody :: "string \<Rightarrow> cleansed_lines \<Rightarrow> nat \<Rightarrow> report list res" where
  "CheckEmptyBlockBody filename clean_lines linenum =
     res_bind (py_nth (cl_elided clean_lines) (int linenum)) (\<lambda>line.
       (case Match ''`s*(for|while|if)`s*`('' line of
          None \<Rightarrow> Inr []
        | Some matched \<Rightarrow>
            res_bind (CloseExpression clean_lines linenum (nat (py_find line ''(''))) (\<lambda>(end_line, end_linenum, end_pos).
            res_bind (if end_pos \<ge> 0 \<and> grp matched 1 = ''if''
                      then empty_if_body filename clean_lines end_line end_linenum end_pos else Inr []) (\<lambda>empty.
              Inr ((if end_pos \<ge> 0 \<and> Match '';'' (py_from end_line end_pos) \<noteq> None
                    then (if grp matched 1 = ''if''
                          then flag True filename end_linenum ''whitespace/empty_conditional_body'' 5
                                 ''Empty conditional bodies should use {}''
                          else flag True filename end_linenum ''whitespace/empty_loop_body'' 5
                                 ''Empty loop bodies should use {} or continue'')
                    else []) @ empty)))))"

section \<open>Check macros\<close>

definition CHECK_MACROS :: "string list" where
  "CHECK_MACROS = [''DCHECK'', ''CHECK'', ''EXPECT_TRUE'', ''ASSERT_TRUE'', ''EXPECT_FALSE'', ''ASSERT_FALSE'']"

definition CHECK_REPLACEMENT :: "string \<Rightarrow> (string \<rightharpoonup> string) option" where
  "CHECK_REPLACEMENT macro =
     (let replacements = (\<lambda>stem pairs. map_of (map (\<lambda>(op, r). (op, stem @ r)) pairs));
          same = [(''=='', ''EQ''), (''!='', ''NE''), (''>='', ''GE''), (''>'', ''GT''), (''<='', ''LE''), (''<'', ''LT'')];
          inverse = [(''=='', ''NE''), (''!='', ''EQ''), (''>='', ''LT''), (''>'', ''LE''), (''<='', ''GT''), (''<'', ''GE'')]
      in map_of [(''DCHECK'', replacements ''DCHECK_'' same), (''CHECK'', replacements ''CHECK_'' same),
           (''EXPECT_TRUE'', replacements ''EXPECT_'' same), (''ASSERT_TRUE'', replacements ''ASSERT_'' same),
           (''EXPECT_FALSE'', replacements ''EXPECT_'' inverse), (''ASSERT_FALSE'', replacements ''ASSERT_'' inverse)] macro)"

fun find_check_macro :: "string list \<Rightarrow> string \<Rightarrow> (string \<times> nat) option" where
  "find_check_macro [] line = None"
| "find_check_macro (macro # macros) line =
     (if \<not> contains line macro then find_check_macro macros line
      else (case Match (''^(.*`b'' @ macro @ ''`s*)`('') line of
              None \<Rightarrow> find_check_macro macros line
            | Some matched \<Rightarrow> Some (macro, length (grp matched 1))))"

definition FindCheckMacro :: "string \<Rightarrow> (string \<times> nat) option" where
  "FindCheckMacro line = find_check_macro CHECK_MACROS line"

definition CHECK_TOKEN :: string where
  "CHECK_TOKEN = ''^`s*(<<|<<=|>>|>>=|->`*|->|&&|`|`||==|!=|>=|>|<=|<|`()(.*)$''"

definition OPERAND :: string where "OPERAND = ''^([^-=!<>()&|]+)(.*)$''"
definition OPERAND_CHAR :: string where "OPERAND_CHAR = ''^(`s*`S)(.*)$''"

lemma check_patterns_shrink: "shrinks CHECK_TOKEN" "shrinks OPERAND" "shrinks OPERAND_CHAR"
  by code_simp+

text \<open>
  The loop that splits the condition: it returns nothing when the condition cannot be
  rewritten, and otherwise the left operand, the comparison if there is one, and the rest.
\<close>

function parse_check :: "string \<Rightarrow> string \<Rightarrow> (string \<times> string option \<times> string) option" where
  "parse_check expression lhs =
     (if expression = [] then Some (lhs, None, [])
      else
        (case Match CHECK_TOKEN expression of
           Some m \<Rightarrow>
             (if grp m 1 = ''('' then
                (let p = fst (FindEndOfExpressionInLine (grp m 2) 0 [CHR ''(''])
                 in if p < 0 then None
                    else parse_check (py_from (grp m 2) p) (lhs @ ''('' @ py_upto (grp m 2) p))
              else if grp m 1 \<in> set [''&&'', ''||''] then None
              else if grp m 1 \<in> set [''<<'', ''<<='', ''>>'', ''>>='', ''->*'', ''->'']
              then parse_check (grp m 2) (lhs @ grp m 1)
              else Some (lhs, Some (grp m 1), grp m 2))
         | None \<Rightarrow>
             (case Match OPERAND expression of
                Some m \<Rightarrow> parse_check (grp m 2) (lhs @ grp m 1)
              | None \<Rightarrow>
                  (case Match OPERAND_CHAR expression of
                     Some m \<Rightarrow> parse_check (grp m 2) (lhs @ grp m 1)
                   | None \<Rightarrow> Some (lhs, None, [])))))"
  by pat_completeness auto
termination
  by (relation "measure (\<lambda>(e, _). length e)")
    (auto simp: py_from_def less_imp_diff_less Match_shrinks [OF _ check_patterns_shrink(1)]
      Match_shrinks [OF _ check_patterns_shrink(2)] Match_shrinks [OF _ check_patterns_shrink(3)])

declare parse_check.simps [simp del]

definition condition_text :: "cleansed_lines \<Rightarrow> nat \<Rightarrow> nat \<Rightarrow> string \<Rightarrow> nat \<Rightarrow> int \<Rightarrow> string res" where
  "condition_text clean_lines linenum start_pos closing end_line end_pos =
     res_bind (py_nth (cl_elided clean_lines) (int linenum)) (\<lambda>first.
       if linenum = end_line then Inr (py_slice first (int start_pos + 1) (end_pos - 1))
       else res_bind (map_res (\<lambda>i. py_nth (cl_elided clean_lines) (int i)) [Suc linenum..<end_line]) (\<lambda>middle.
              Inr (drop (start_pos + 1) first @ concat middle @ py_slice closing 0 (end_pos - 1))))"

definition CONSTANT :: string where
  "CONSTANT = ''^([-+]?(`d+|0[xX][0-9a-fA-F]+)[lLuU]{0,3}|\".*\"|`'.*`')$''"

definition suggest_macro :: "string \<Rightarrow> nat \<Rightarrow> string \<Rightarrow> string \<Rightarrow> report list res" where
  "suggest_macro filename linenum check_macro expression =
     (case parse_check expression [] of
        Some (lhs, Some operator, rhs) \<Rightarrow>
          (if lhs = [] \<or> rhs = [] \<or> contains rhs ''&&'' \<or> contains rhs ''||'' then Inr []
           else if Match CONSTANT (strip lhs) = None \<and> Match CONSTANT (strip rhs) = None then Inr []
           else
             (case CHECK_REPLACEMENT check_macro of
                None \<Rightarrow> Inl KeyError
              | Some by_operator \<Rightarrow>
                  (case by_operator operator of
                     None \<Rightarrow> Inl KeyError
                   | Some replacement \<Rightarrow>
                       Inr [Report filename (int linenum) ''readability/check'' 2
                              (''Consider using '' @ replacement @ '' instead of '' @ check_macro @ ''(a '' @ operator @ '' b)'')])))
      | _ \<Rightarrow> Inr [])"

definition CheckCheck :: "string \<Rightarrow> cleansed_lines \<Rightarrow> nat \<Rightarrow> report list res" where
  "CheckCheck filename clean_lines linenum =
     res_bind (py_nth (cl_elided clean_lines) (int linenum)) (\<lambda>line.
       (case FindCheckMacro line of
          None \<Rightarrow> Inr []
        | Some (check_macro, start_pos) \<Rightarrow>
            res_bind (CloseExpression clean_lines linenum start_pos) (\<lambda>(closing, end_line, end_pos).
              if end_pos < 0 \<or> Match ''`s*;'' (py_from closing end_pos) = None then Inr []
              else res_bind (condition_text clean_lines linenum start_pos closing end_line end_pos) (\<lambda>expression.
                     suggest_macro filename linenum check_macro expression))))"

section \<open>Alternative tokens\<close>

definition ALT_TOKEN_REPLACEMENT :: "(string \<times> string) list" where
  "ALT_TOKEN_REPLACEMENT =
     [(''and'', ''&&''), (''bitor'', ''|''), (''or'', ''||''), (''xor'', ''^''), (''compl'', ''~''), (''bitand'', ''&''),
      (''and_eq'', ''&=''), (''or_eq'', ''|=''), (''xor_eq'', ''^=''), (''not'', ''!''), (''not_eq'', ''!='')]"

text \<open>
  The pattern joins the keys of the dictionary in an order that the interpreter chooses. The
  character that must follow a token lets at most one key match at a place, so the order
  of the alternatives does not matter; here it is the order of the source.
\<close>

definition ALT_TOKEN_PATTERN :: string where
  "ALT_TOKEN_PATTERN = ''[ =()]('' @ join ''|'' (map fst ALT_TOKEN_REPLACEMENT) @ '')(?=[ (]|$)''"

definition CheckAltTokens :: "string \<Rightarrow> cleansed_lines \<Rightarrow> nat \<Rightarrow> report list res" where
  "CheckAltTokens filename clean_lines linenum =
     res_bind (py_nth (cl_elided clean_lines) (int linenum)) (\<lambda>line.
       if Match ''^`s*#'' line \<noteq> None \<or> contains line ''/*'' \<or> contains line ''*/'' then Inr []
       else map_res (\<lambda>m.
              (case map_of ALT_TOKEN_REPLACEMENT (grp m 1) of
                 None \<Rightarrow> Inl KeyError
               | Some operator \<Rightarrow>
                   Inr (Report filename (int linenum) ''readability/alt_tokens'' 2
                     (''Use operator '' @ operator @ '' instead of '' @ grp m 1)))) (finditer ALT_TOKEN_PATTERN line))"

section \<open>All rules of style\<close>

definition is_guard_line :: "os_env \<Rightarrow> string \<Rightarrow> string \<Rightarrow> string \<Rightarrow> string \<Rightarrow> bool res" where
  "is_guard_line env root filename file_extension line =
     (if file_extension = ''h''
      then res_bind (GetHeaderGuardCPPVariable env root filename) (\<lambda>cppvar.
             Inr (startswith line (''#ifndef '' @ cppvar) \<or> startswith line (''#define '' @ cppvar) \<or>
                  startswith line (''#endif  // '' @ cppvar)))
      else Inr False)"

definition long_line :: "int \<Rightarrow> bool \<Rightarrow> string \<Rightarrow> bool" where
  "long_line line_length is_header_guard line \<longleftrightarrow>
     \<not> startswith line ''#include'' \<and> \<not> is_header_guard \<and>
     Match ''^`s*//.*http(s?)://`S*$'' line = None \<and> Match ''^`s*//`s*[^`s]*$'' line = None \<and>
     Match ''^// `$Id:.*#[0-9]+ `$$'' line = None \<and> int (GetLineWidth line) > line_length"

definition several_commands :: "string \<Rightarrow> string \<Rightarrow> bool" where
  "several_commands cleansed_line prevline \<longleftrightarrow>
     count_sub '';'' cleansed_line > 1 \<and> \<not> contains cleansed_line ''for'' \<and>
     (\<not> contains prevline ''for'' \<or> contains prevline '';'') \<and>
     \<not> ((contains cleansed_line ''case '' \<or> contains cleansed_line ''default:'') \<and> contains cleansed_line ''break;'')"

definition line_style ::
  "os_env \<Rightarrow> string \<Rightarrow> int \<Rightarrow> string \<Rightarrow> string \<Rightarrow> cleansed_lines \<Rightarrow> nat \<Rightarrow> report list res" where
  "line_style env root line_length file_extension filename clean_lines linenum =
     res_bind (py_nth (cl_lines_without_raw_strings clean_lines) (int linenum)) (\<lambda>line.
     res_bind (if linenum > 0 then py_nth (cl_lines_without_raw_strings clean_lines) (int linenum - 1) else Inr []) (\<lambda>prev.
     res_bind (py_nth (cl_elided clean_lines) (int linenum)) (\<lambda>cleansed_line.
     res_bind (py_nth (cl_raw_lines clean_lines) (int linenum)) (\<lambda>raw.
     res_bind (is_guard_line env root filename file_extension line) (\<lambda>is_header_guard.
     res_bind (GetPreviousNonBlankLine clean_lines linenum) (\<lambda>(prevline, _).
       (let initial_spaces = length (takeWhile (\<lambda>c. c = CHR '' '') line)
        in Inr (
          flag (contains line [CHR 0x09]) filename linenum ''whitespace/tab'' 1 ''Tab found; better to use spaces'' @
          flag (Search ''[\",=><] *$'' prev = None \<and> (initial_spaces = 1 \<or> initial_spaces = 3) \<and>
                Match ''`s*`w+`s*:`s*``?$'' cleansed_line = None \<and>
                \<not> (raw \<noteq> line \<and> Match ''^`s*\"\"'' line \<noteq> None))
            filename linenum ''whitespace/indent'' 3
            ''Weird number of spaces at line-start.  Are you using a 2-space indent?'' @
          flag (line \<noteq> [] \<and> uspace (last line)) filename linenum ''whitespace/end_of_line'' 4
            ''Line ends in whitespace.  Consider deleting these extra spaces.'' @
          flag (long_line line_length is_header_guard line) filename linenum ''whitespace/line_length'' 2
            (''Lines should be <= '' @ int_str line_length @ '' characters long'') @
          flag (several_commands cleansed_line prevline) filename linenum ''whitespace/newline'' 0
            ''More than one command on the same line''))))))))"

definition section_spacing :: check where
  "section_spacing filename clean_lines linenum st =
     (case InnermostClass st of
        None \<Rightarrow> Inr []
      | Some b \<Rightarrow>
          (case kind b of
             ClassInfo c \<Rightarrow> CheckSectionSpacing filename clean_lines b c linenum
           | _ \<Rightarrow> Inr []))"

definition style_checks :: "os_env \<Rightarrow> string \<Rightarrow> int \<Rightarrow> string \<Rightarrow> check list" where
  "style_checks env root line_length file_extension =
     [\<lambda>f cl n st. line_style env root line_length file_extension f cl n,
      \<lambda>f cl n st. CheckBraces line_length f cl n,
      \<lambda>f cl n st. CheckTrailingSemicolon f cl n,
      \<lambda>f cl n st. CheckEmptyBlockBody f cl n,
      CheckAccess,
      CheckSpacing,
      \<lambda>f cl n st. CheckOperatorSpacing f cl n,
      \<lambda>f cl n st. CheckParenthesisSpacing f cl n,
      \<lambda>f cl n st. CheckCommaSpacing f cl n,
      CheckBracesSpacing,
      \<lambda>f cl n st. CheckSpacingForFunctionCall f cl n,
      \<lambda>f cl n st. CheckCheck f cl n,
      \<lambda>f cl n st. CheckAltTokens f cl n,
      section_spacing]"

definition CheckStyle :: "os_env \<Rightarrow> string \<Rightarrow> int \<Rightarrow> string \<Rightarrow> check" where
  "CheckStyle env root line_length file_extension = run_checks (style_checks env root line_length file_extension)"

section \<open>The checks return\<close>

lemma GetPreviousNonBlankLine_total [oks]:
  "n \<le> length (cl_elided cl) \<Longrightarrow> returns (GetPreviousNonBlankLine cl n)"
  unfolding GetPreviousNonBlankLine_def by (intro oks; auto dest: find_res_Some)

lemma close_rest_found:
  "close_rest ls num line n s = (l, m, p) \<Longrightarrow>
     m = num \<and> p = -1 \<or> n < m \<and> m \<le> n + length ls \<and> l = ls ! (m - Suc n) \<and> 0 \<le> p \<and> p \<le> int (length l)"
proof (induction ls num line n s rule: close_rest.induct)
  case (2 nxt later num line n stack)
  obtain q s' where find: "FindEndOfExpressionInLine nxt 0 (the stack) = (q, s')" by fastforce
  note bounds = FindEndOfTemplate_bounds [OF find]
  consider "stack = None \<or> stack = Some []" | t ts where "stack = Some (t # ts)" by (metis list.exhaust option.exhaust)
  then show ?case
  proof cases
    case 1
    with 2(2) show ?thesis by auto
  next
    case (2 t ts)
    show ?thesis
    proof (cases "q > -1")
      case True
      with "2.prems" 2 find bounds show ?thesis by auto
    next
      case False
      with "2.prems" 2 find have rec: "close_rest later num nxt (Suc n) s' = (l, m, p)" by simp
      have "m = num \<and> p = -1 \<or> Suc n < m \<and> m \<le> Suc n + length later \<and> l = later ! (m - Suc (Suc n)) \<and> 0 \<le> p \<and> p \<le> int (length l)"
        using "2.IH" [OF 2 refl _ refl False] find 2 rec by auto
      then show ?thesis by (auto simp: nth_Cons' Suc_diff_Suc)
    qed
  qed
qed auto

lemma CloseExpression_cases:
  assumes "CloseExpression cl n pos = Inr (l, m, p)" "lines_ok cl"
  shows "m = cl_num_lines cl \<and> p = -1 \<or>
    n \<le> m \<and> m < cl_num_lines cl \<and> l = cl_elided cl ! m \<and> 0 \<le> p \<and> p \<le> int (length l)"
proof -
  obtain q s where find: "FindEndOfExpressionInLine (cl_elided cl ! n) pos [] = (q, s)" by fastforce
  have n: "n < length (cl_elided cl)" using assms(1) by (auto simp: CloseExpression_def py_nth_def split: if_splits)
  let ?later = "take (cl_num_lines cl - 1 - n) (drop (Suc n) (cl_elided cl))"
  from n assms(1) find have "m = cl_num_lines cl \<and> p = -1 \<or> (l, m, p) = (cl_elided cl ! n, n, q) \<and> q > -1 \<or>
      close_rest ?later (cl_num_lines cl) (cl_elided cl ! n) n s = (l, m, p)"
    by (auto simp: CloseExpression_def NumLines_def split: if_splits)
  then show ?thesis
  proof (elim disjE)
    assume "close_rest ?later (cl_num_lines cl) (cl_elided cl ! n) n s = (l, m, p)"
    from close_rest_found [OF this] n assms(2) show ?thesis by (auto simp: lines_ok_def)
  qed (use FindEndOfTemplate_bounds [OF find] n assms(2) in \<open>auto simp: lines_ok_def\<close>)
qed

lemma reverse_rest_line: "reverse_rest ls line s = (l, m, p) \<Longrightarrow> m \<le> length ls"
  by (induction ls line s rule: reverse_rest.induct)
    (fastforce split: option.splits list.splits prod.splits if_splits)+

lemma ReverseCloseExpression_line_le:
  assumes "ReverseCloseExpression cl n pos = Inr (l, m, p)"
  shows "m \<le> n"
  using assms by (auto simp: ReverseCloseExpression_def split: if_splits prod.splits dest: reverse_rest_line)

lemma semicolon_line_bound: "semicolon_line ls i pos = Some k \<Longrightarrow> k < i + length ls"
  by (induction ls i pos rule: semicolon_line.induct) (auto split: if_splits)

lemma brace_on_own_line_ok [oks]:
  "n < num \<Longrightarrow> n \<le> length (cl_elided cl) \<Longrightarrow> gives (list_all (report_ok f num)) (brace_on_own_line len f cl n line)"
  unfolding brace_on_own_line_def by (intro oks; simp)

lemma else_on_own_line_ok [oks]:
  "n < num \<Longrightarrow> n \<le> length (cl_elided cl) \<Longrightarrow> gives (list_all (report_ok f num)) (else_on_own_line f cl n line)"
  unfolding else_on_own_line_def by (intro oks; simp)

lemma else_braces_ok:
  "n < num \<Longrightarrow> n < length (cl_elided cl) \<Longrightarrow> cl_elided cl ! n = line \<Longrightarrow> gives (list_all (report_ok f num)) (else_braces f cl n line)"
  unfolding else_braces_def
  by (intro oks; simp) (metis py_find_from_bound less_irrefl neg_less_0_iff_less not_one_less_zero zero_less_one order.asym)

lemma single_statement_ok [oks]:
  "n < num \<Longrightarrow> k < length (cl_elided cl) \<Longrightarrow> gives (list_all (report_ok f num)) (single_statement f cl n i b k)"
  unfolding single_statement_def by (intro oks; simp)

lemma braces_follow_total [oks]: "returns (braces_follow cl l n p)"
  unfolding braces_follow_def by (intro oks) simp

lemma if_pattern: "pattern_must (CHR ''('') ''`bif`s*`(''"
  by code_simp

lemma if_else_body_ok:
  assumes "n < num" "n < length (cl_elided cl)" "cl_elided cl ! n = line"
  shows "gives (list_all (report_ok f num)) (if_else_body f cl n line)"
proof -
  have pos: "m_end m - 1 < length line" if "Search ''`bif`s*`('' line = Some m" for m line
    using Search_end [OF that if_pattern] by simp
  have line: "k < length (cl_elided cl)" if "semicolon_line (drop e (cl_elided cl)) e p = Some k" for e p k
    using semicolon_line_bound [OF that] that by (cases "e \<le> length (cl_elided cl)") auto
  show ?thesis
    unfolding if_else_body_def using assms
    by (intro oks; simp add: pos line del: One_nat_def)
qed

interpretation braces_check: line_check "\<lambda>f cl n st. CheckBraces len f cl n" for len
proof (rule line_checkI)
  fix f cl n st assume ctx: "line_ctx cl n st"
  show "gives (list_all (report_ok f (cl_num_lines cl))) (CheckBraces len f cl n)"
    unfolding CheckBraces_def
    by (intro bind_reports oks; insert line_ctxD [OF ctx], simp add: else_braces_ok if_else_body_ok)
qed

section \<open>Blocks and bodies\<close>

lemma block_start_leads:
  "leads ''^(.*`)`s*)`{'' (CHR ''{'')" "leads ''^(.*(?:else|`)`s*const)`s*)`{'' (CHR ''{'')" "leads ''^(`s*)`{'' (CHR ''{'')"
  by code_simp+

abbreviation closing_block_tree :: re where
  "closing_block_tree \<equiv> Seq Bol (Seq (Grp 1 (Seq (Star True Any) (Seq (Chr (CHR '')'')) (Star True (Cls False [CSpace]))))) (Chr (CHR ''{'')))"

lemma closing_block_inv:
  assumes "Match ''^(.*`)`s*)`{'' line = Some m"
  shows "CHR '')'' \<in> set (grp m 1)"
proof -
  have tree: "compile (bs ''^(.*`)`s*)`{'') = Some closing_block_tree" by code_simp
  from Match_inv [OF assms tree] show ?thesis
    by (auto simp: ms_inv grp_def group_def simp del: ms.simps in_set.simps)
qed

lemma block_start_pos:
  assumes "Match ''^(.*`)`s*)`{'' line = Some m"
  shows "nat (py_rfind (grp m 1) (CHR '')'')) < length line"
proof -
  from closing_block_inv [OF assms] have "py_rfind (grp m 1) (CHR '')'') \<noteq> -1" using py_rfind_neg [of "grp m 1" "CHR '')''"] by auto
  from py_rfind_bound [OF refl this] leads_pos [OF assms block_start_leads(1)] show ?thesis by simp
qed

lemma block_start_gives:
  assumes "n < length (cl_elided cl)" "cl_elided cl ! n = line"
  shows "gives (\<lambda>m. \<forall>x. m = Some x \<longrightarrow> length (grp x 1) < length line) (block_start cl n line)"
  unfolding block_start_def using assms
  by (intro oks; auto simp: block_start_pos leads_pos [OF _ block_start_leads(1)] leads_pos [OF _ block_start_leads(2)]
      leads_pos [OF _ block_start_leads(3)] dest!: ReverseCloseExpression_line_le intro!: py_nth_prev_total simp del: One_nat_def)

lemma close_line_ok:
  "CloseExpression cl n pos = Inr (l, m, p) \<Longrightarrow> lines_ok cl \<Longrightarrow> p \<noteq> -1 \<Longrightarrow> m < cl_num_lines cl"
  by (auto dest: CloseExpression_cases)

interpretation trailing_semicolon: line_check "\<lambda>f cl n st. CheckTrailingSemicolon f cl n"
proof (rule line_checkI)
  fix f cl n st assume ctx: "line_ctx cl n st"
  note facts = line_ctxD [OF ctx]
  have line: "py_nth (cl_elided cl) (int n) = Inr (cl_elided cl ! n)" using facts by simp
  have close: "gives (list_all (report_ok f (cl_num_lines cl)))
      (res_bind (CloseExpression cl n pos) (\<lambda>(endline, endlinenum, endpos).
         Inr (flag (endpos > -1 \<and> Match ''^`s*;'' (py_from endline endpos) \<noteq> None) f endlinenum ''readability/braces'' 4 msg)))"
    if "pos < length (cl_elided cl ! n)" for pos msg
    using CloseExpression_total [OF facts(1) that] facts(6)
    by (auto simp: returns_def flag_def split: prod.split dest: close_line_ok)
  show "gives (list_all (report_ok f (cl_num_lines cl))) (CheckTrailingSemicolon f cl n)"
    unfolding CheckTrailingSemicolon_def line res_bind_simps
    by (rule gives_bind_gives [OF block_start_gives [OF facts(1) refl]]) (intro oks close; simp)
qed

lemma brace_pattern: "pattern_must (CHR ''{'') ''^`s*`{''" "pattern_must (CHR ''('') ''`s*(for|while|if)`s*`(''"
  by code_simp+

lemma Search_must_line: "Search p s = Some m \<Longrightarrow> pattern_must c p \<Longrightarrow> c \<in> set s"
  using Search_must Search_text(1) by fastforce

lemma find_opening_found:
  "find_opening fragment later n = Some (k, fr) \<Longrightarrow>
     CHR ''{'' \<in> set fr \<and> (k = n \<and> fr = fragment \<or> n < k \<and> k \<le> n + length later \<and> fr = later ! (k - Suc n))"
proof (induction fragment later n rule: find_opening.induct)
  case (1 fragment later n)
  show ?case
  proof (cases "Search ''^`s*`{'' fragment")
    case None
    with 1(2) obtain l ls where "later = l # ls" "find_opening l ls (Suc n) = Some (k, fr)"
      "Search ''^(?!`s*$)'' fragment = None"
      by (subst (asm) find_opening.simps) (auto split: list.splits if_splits)
    with 1(1)[of l ls] None show ?thesis by (auto simp: nth_Cons' Suc_diff_Suc)
  next
    case (Some m)
    with 1(2) Search_must_line [OF Some brace_pattern(1)] show ?thesis
      by (subst (asm) find_opening.simps) simp
  qed
qed

lemma py_find_single: "c \<in> set s \<Longrightarrow> 0 \<le> py_find s [c] \<and> nat (py_find s [c]) < length s"
  by (cases "find_sub [c] s") (auto simp: py_find_def py_index_def find_sub_single_None dest: find_sub_bound)

lemma opening_pos:
  assumes "find_opening (py_from (cl_elided cl ! m) p) (drop (Suc m) (cl_elided cl)) m = Some (k, fr)"
    "m < length (cl_elided cl)" "0 \<le> p" "p \<le> int (length (cl_elided cl ! m))"
  shows "k < length (cl_elided cl) \<and> nat (py_find fr ''{'' + (if k = m then p else 0)) < length (cl_elided cl ! k)"
proof -
  note found = find_opening_found [OF assms(1)]
  note pos = py_find_single [OF conjunct1 [OF found]]
  from found assms(2) consider "k = m" "fr = py_from (cl_elided cl ! m) p"
    | "m < k" "k < length (cl_elided cl)" "fr = cl_elided cl ! k"
    by (auto simp: Suc_diff_Suc)
  then show ?thesis
  proof cases
    case 1
    from assms(3) have "fr = drop (nat p) (cl_elided cl ! m)" unfolding 1 by (metis int_nat_eq py_from_nonneg)
    with pos assms(2,3,4) 1(1) show ?thesis by (auto simp: nat_add_distrib)
  next
    case 2
    with pos show ?thesis by simp
  qed
qed

lemma body_text_total [oks]:
  "k < length (cl_elided cl) \<Longrightarrow> returns (body_text cl a b l k p)"
  unfolding body_text_def by (intro oks; simp)

lemma empty_if_body_ok:
  assumes "lines_ok cl" "m < cl_num_lines cl" "l = cl_elided cl ! m" "0 \<le> p" "p \<le> int (length l)"
  shows "gives (list_all (report_ok f (cl_num_lines cl))) (empty_if_body f cl l m p)"
proof (cases "find_opening (py_from l p) (drop (Suc m) (cl_elided cl)) m")
  case None
  then show ?thesis by (simp add: empty_if_body_def)
next
  case (Some found)
  obtain k fr where kfr: "found = (k, fr)" by (cases found)
  have len: "length (cl_elided cl) = cl_num_lines cl" "length (cl_raw_lines cl) = cl_num_lines cl"
    using assms(1) by (auto simp: lines_ok_def)
  define pos where "pos = nat (py_find fr ''{'' + (if k = m then p else 0))"
  have pos: "k < length (cl_elided cl)" "pos < length (cl_elided cl ! k)"
    using opening_pos [of cl m p k fr] Some assms len by (simp_all add: kfr pos_def)
  obtain cl' cn cp where close: "CloseExpression cl k pos = Inr (cl', cn, cp)"
    using CloseExpression_total [OF pos] by (auto elim!: returnsE)
  note bounds = CloseExpression_cases [OF close assms(1)]
  show ?thesis
    unfolding empty_if_body_def Some kfr option.case prod.case
    using pos len assms(2) bounds
    by (simp add: Let_def pos_def [symmetric] close) (intro impI oks; auto)
qed

interpretation empty_body: line_check "\<lambda>f cl n st. CheckEmptyBlockBody f cl n"
proof (rule line_checkI)
  fix f cl n st assume ctx: "line_ctx cl n st"
  note facts = line_ctxD [OF ctx]
  have line: "py_nth (cl_elided cl) (int n) = Inr (cl_elided cl ! n)" using facts by simp
  show "gives (list_all (report_ok f (cl_num_lines cl))) (CheckEmptyBlockBody f cl n)"
  proof (cases "Match ''`s*(for|while|if)`s*`('' (cl_elided cl ! n)")
    case None
    then show ?thesis unfolding CheckEmptyBlockBody_def line res_bind_simps by simp
  next
    case (Some m)
    have pos: "nat (py_find (cl_elided cl ! n) ''('') < length (cl_elided cl ! n)"
      using py_find_single [OF Match_must_line [OF Some brace_pattern(2)]] by blast
    obtain l k p where close: "CloseExpression cl n (nat (py_find (cl_elided cl ! n) ''('')) = Inr (l, k, p)"
      using CloseExpression_total [OF facts(1) pos] by (auto elim!: returnsE)
    note bounds = CloseExpression_cases [OF close facts(6)]
    show ?thesis
      unfolding CheckEmptyBlockBody_def line res_bind_simps Some option.case close prod.case
      using bounds by (intro bind_reports oks; auto simp: flag_def intro!: empty_if_body_ok facts(6))
  qed
qed

section \<open>Check macros and tokens\<close>

lemma macro_leads:
  "list_all (\<lambda>macro. leads (''^(.*`b'' @ macro @ ''`s*)`('') (CHR ''('')) CHECK_MACROS"
  by code_simp

lemma find_check_macro_found:
  "find_check_macro macros line = Some (macro, pos) \<Longrightarrow>
     list_all (\<lambda>macro. leads (''^(.*`b'' @ macro @ ''`s*)`('') (CHR ''('')) macros \<Longrightarrow>
     macro \<in> set macros \<and> pos < length line"
  by (induction macros) (auto split: if_splits option.splits dest: leads_pos)

lemmas FindCheckMacro_found = find_check_macro_found [OF _ macro_leads, folded FindCheckMacro_def]

text \<open>
  The three patterns of the loop take a text apart into white space, a first group and the
  rest.
\<close>

abbreviation head_rest :: "re \<Rightarrow> re" where
  "head_rest r \<equiv> Seq (Grp 1 r) (Seq (Grp 2 (Star True Any)) Eol)"

lemma ms_head_rest:
  assumes "(b', a', g') \<in> set (ms (head_rest r) (b, a, g))" "nl \<notin> set a"
  shows "\<exists>t u i j. a = t @ u \<and> map_of g' 1 = Some (i, t) \<and> map_of g' 2 = Some (j, u)"
proof -
  from assms(1) obtain b1 a1 g1 where r: "(b1, a1, g1) \<in> set (ms r (b, a, g))"
    and rest: "(b', a', g') \<in> set (ms (Seq (Grp 2 (Star True Any)) Eol) (b1, a1, (1, length b, take (length a - length a1) a) # g1))"
    unfolding ms_Seq_mem [of _ "Grp 1 r"] ms_Grp_mem [of _ 1] by blast
  from ms_consumes [OF r] obtain w where "a = w @ a1" "b1 = rev w @ b" by blast
  with rest assms(2) show ?thesis by (auto simp: ms_inv simp del: ms.simps)
qed

lemma head_rest_inv:
  assumes "Match p s = Some m" "compile (bs p) = Some (Seq Bol (head_rest r))" "nl \<notin> set s"
  shows "s = grp m 1 @ grp m 2"
  using Match_inv [OF assms(1,2)] assms(3)
  by (auto simp: ms_Seq_mem [of _ Bol] ms_at_mem grp_def group_def simp del: ms.simps One_nat_def dest!: ms_head_rest)

lemma space_head_rest_inv:
  assumes "Match p s = Some m" "compile (bs p) = Some (Seq Bol (Seq (Star True (Cls False [CSpace])) (head_rest r)))" "nl \<notin> set s"
  shows "\<exists>u. s = u @ grp m 1 @ grp m 2 \<and> list_all is_space u"
  using Match_inv [OF assms(1,2)] assms(3)
  by (auto simp: ms_Seq_mem [of _ Bol] ms_Seq_mem [of _ "Star True (Cls False [CSpace])"] ms_Star_Cls_mem ms_at_mem
      list_all_iff grp_def group_def simp del: ms.simps One_nat_def dest!: ms_head_rest)

definition operator_tokens :: "string list" where
  "operator_tokens = [''<<'', ''<<='', ''>>'', ''>>='', ''->*'', ''->'', ''&&'', ''||'', ''=='', ''!='', ''>='', ''>'', ''<='', ''<'', ''('']"

definition comparisons :: "string list" where
  "comparisons = [''=='', ''!='', ''>='', ''>'', ''<='', ''<'']"

lemma check_token_words: "group_words CHECK_TOKEN 1 = Some operator_tokens"
  by code_simp

lemma check_token_trees:
  "compile (bs CHECK_TOKEN) = Some (Seq Bol (Seq (Star True (Cls False [CSpace]))
     (head_rest (alt_of (map (\<lambda>w. seq_of (map Chr w)) operator_tokens)))))"
  "compile (bs OPERAND) = Some (Seq Bol (head_rest
     (let c = Cls True (map CChr ''-=!<>()&|'') in Seq c (Star True c))))"
  "compile (bs OPERAND_CHAR) = Some (Seq Bol (head_rest (Seq (Star True (Cls False [CSpace])) (Cls False [CNSpace]))))"
  by code_simp+

lemma parse_check_operator: "parse_check e lhs = Some (l, Some op, rhs) \<Longrightarrow> op \<in> set comparisons"
proof (induction e lhs rule: parse_check.induct)
  case (1 e lhs)
  show ?case
  proof (cases "Match CHECK_TOKEN e")
    case None
    with 1 show ?thesis by (subst (asm) (5) parse_check.simps) (auto split: if_splits option.splits)
  next
    case (Some m)
    from Match_group_words [OF Some check_token_words] have "grp m 1 \<in> set operator_tokens" by simp
    with 1 Some show ?thesis
      by (subst (asm) (5) parse_check.simps)
        (auto simp: operator_tokens_def comparisons_def Let_def split: if_splits simp del: One_nat_def)
  qed
qed

definition unspaced :: "string \<Rightarrow> string" where "unspaced s = filter (\<lambda>c. \<not> is_space c) s"

lemma unspaced_append [simp]: "unspaced (s @ t) = unspaced s @ unspaced t"
  by (simp add: unspaced_def)

lemma unspaced_spaces [simp]: "list_all is_space u \<Longrightarrow> unspaced u = []"
  by (auto simp: unspaced_def list_all_iff filter_empty_conv)

lemma py_split: "0 \<le> p \<Longrightarrow> py_upto s p @ py_from s p = s"
  by (metis append_take_drop_id int_nat_eq py_from_nonneg py_upto_nonneg)

lemma parse_check_operands:
  "parse_check e lhs = Some (l, Some op, rhs) \<Longrightarrow> nl \<notin> set e \<Longrightarrow>
     unspaced (l @ op @ rhs) = unspaced (lhs @ e)"
proof (induction e lhs rule: parse_check.induct)
  case (1 e lhs)
  note IH = 1(1-4) and split = 1(5) [unfolded parse_check.simps [of e lhs]] and nl = 1(6)
  from split have e: "e \<noteq> []" by auto
  show ?case
  proof (cases "Match CHECK_TOKEN e")
    case token: (Some m)
    then obtain u where u: "e = u @ grp m 1 @ grp m 2" "list_all is_space u"
      using space_head_rest_inv [OF _ check_token_trees(1) nl] by blast
    with nl have rest: "nl \<notin> set (grp m 2)" by auto
    let ?p = "fst (FindEndOfExpressionInLine (grp m 2) 0 ''('')"
    show ?thesis
    proof (cases "grp m 1 = ''(''")
      case True
      with split e token have p: "\<not> ?p < 0" 
        and rec: "parse_check (py_from (grp m 2) ?p) (lhs @ ''('' @ py_upto (grp m 2) ?p) = Some (l, Some op, rhs)"
        by (auto simp: Let_def split: if_splits)
      from py_split [of ?p "grp m 2"] p have parts: "grp m 2 = py_upto (grp m 2) ?p @ py_from (grp m 2) ?p" by simp
      with rest have "nl \<notin> set (py_from (grp m 2) ?p)" by (metis UnCI set_append)
      from IH(3) [OF e token True refl p rec this] u True parts show ?thesis
        by (metis append_assoc append_self_conv2 unspaced_append unspaced_spaces)
    next
      case False
      with split e token u rest IH(4) show ?thesis
        by (auto split: if_splits simp del: One_nat_def)
    qed
  next
    case None
    note no_token = this
    show ?thesis
    proof (cases "Match OPERAND e")
      case (Some m)
      with head_rest_inv [OF Some check_token_trees(2) nl] nl split e no_token IH(2) show ?thesis
        by auto
    next
      case None
      with split e no_token obtain m where m: "Match OPERAND_CHAR e = Some m" "parse_check (grp m 2) (lhs @ grp m 1) = Some (l, Some op, rhs)"
        by (auto split: option.splits)
      with head_rest_inv [OF m(1) check_token_trees(3) nl] nl IH(1) [OF e no_token None m(1)] show ?thesis
        by (metis UnCI set_append unspaced_append append_assoc)
    qed
  qed
qed

lemma replacement_known:
  "list_all (\<lambda>macro. list_all (\<lambda>op. \<exists>r. Option.bind (CHECK_REPLACEMENT macro) (\<lambda>f. f op) = Some r) comparisons) CHECK_MACROS"
  by (simp add: CHECK_MACROS_def comparisons_def CHECK_REPLACEMENT_def)

lemma suggest_macro_ok:
  assumes "macro \<in> set CHECK_MACROS" "n < num"
  shows "gives (list_all (report_ok f num)) (suggest_macro f n macro e)"
proof (cases "parse_check e []")
  case (Some split)
  obtain l op rhs where s: "split = (l, op, rhs)" by (cases split)
  show ?thesis
  proof (cases op)
    case (Some oper)
    from replacement_known assms(1) parse_check_operator [of e "[]" l oper rhs] \<open>parse_check e [] = Some split\<close> s Some
    obtain r g where "CHECK_REPLACEMENT macro = Some g" "g oper = Some r"
      by (fastforce simp: list_all_iff bind_eq_Some_conv)
    with \<open>parse_check e [] = Some split\<close> s Some assms(2) show ?thesis by (simp add: suggest_macro_def)
  qed (use Some s in \<open>simp add: suggest_macro_def\<close>)
qed (simp add: suggest_macro_def)

lemma condition_text_total:
  "n < length (cl_elided cl) \<Longrightarrow> k \<le> length (cl_elided cl) \<Longrightarrow> returns (condition_text cl n p l k q)"
  unfolding condition_text_def by (intro oks; simp)

interpretation check_macro: line_check "\<lambda>f cl n st. CheckCheck f cl n"
proof (rule line_checkI)
  fix f cl n st assume ctx: "line_ctx cl n st"
  note facts = line_ctxD [OF ctx]
  have line: "py_nth (cl_elided cl) (int n) = Inr (cl_elided cl ! n)" using facts by simp
  show "gives (list_all (report_ok f (cl_num_lines cl))) (CheckCheck f cl n)"
  proof (cases "FindCheckMacro (cl_elided cl ! n)")
    case None
    then show ?thesis unfolding CheckCheck_def line res_bind_simps by simp
  next
    case (Some found)
    obtain macro pos where mp: "found = (macro, pos)" by (cases found)
    note macro = FindCheckMacro_found [OF Some [unfolded mp]]
    obtain l k p where close: "CloseExpression cl n pos = Inr (l, k, p)"
      using CloseExpression_total [OF facts(1) conjunct2 [OF macro]] by (auto elim!: returnsE)
    note bounds = CloseExpression_cases [OF close facts(6)]
    then show ?thesis
      unfolding CheckCheck_def line res_bind_simps Some mp option.case prod.case close
      using macro facts(1,5,8) by (intro oks condition_text_total suggest_macro_ok; auto)
  qed
qed

lemma alt_token_words: "group_words ALT_TOKEN_PATTERN 1 = Some (map fst ALT_TOKEN_REPLACEMENT)"
  by code_simp

lemma map_res_gives [oks]: "(\<And>x. x \<in> set xs \<Longrightarrow> gives P (h x)) \<Longrightarrow> gives (list_all P) (map_res h xs)"
  by (induction xs) (fastforce simp: gives_def)+

lemma map_of_known: "k \<in> set (map fst kvs) \<Longrightarrow> \<exists>v. map_of kvs k = Some v"
  by (cases "map_of kvs k") (auto simp: map_of_eq_None_iff)

lemma alt_token_report:
  assumes "m \<in> set (finditer ALT_TOKEN_PATTERN line)"
  shows "\<exists>operator. map_of ALT_TOKEN_REPLACEMENT (grp m 1) = Some operator"
  by (rule map_of_known) (rule finditer_group_words [OF assms alt_token_words], simp)

interpretation alt_tokens: line_check "\<lambda>f cl n st. CheckAltTokens f cl n"
proof (rule line_checkI)
  fix f cl n st assume ctx: "line_ctx cl n st"
  show "gives (list_all (report_ok f (cl_num_lines cl))) (CheckAltTokens f cl n)"
    unfolding CheckAltTokens_def
    by (intro oks; auto simp: line_ctxD [OF ctx] simp del: One_nat_def dest!: alt_token_report)
qed

text \<open>
  The name of the include guard is looked up for every line of a header; it exists when the
  search for the repository ends and the root option compiles as a pattern.
\<close>

definition guards_known :: "os_env \<Rightarrow> string \<Rightarrow> bool" where
  "guards_known env root \<longleftrightarrow> no_svn_at_root env \<and> (root = [] \<or> compile (''^'' @ root @ ''/'') \<noteq> None)"

lemma flymake_patterns: "compile (bs ''_flymake`.h$'') \<noteq> None" "compile (bs ''/`.flymake/([^/]*)$'') \<noteq> None"
  by code_simp+

lemma sub_pat_total: "compile p \<noteq> None \<Longrightarrow> returns (sub_pat p h s)"
  by (auto simp: sub_pat_def)

lemma GetHeaderGuardCPPVariable_total: "guards_known env root \<Longrightarrow> returns (GetHeaderGuardCPPVariable env root filename)"
  unfolding GetHeaderGuardCPPVariable_def unflymake_def guards_known_def
  by (intro oks repository_name_total sub_pat_total flymake_patterns; auto)

lemma is_guard_line_total: "guards_known env root \<Longrightarrow> returns (is_guard_line env root f e l)"
  unfolding is_guard_line_def by (intro oks GetHeaderGuardCPPVariable_total)

lemma line_style_check: "guards_known env root \<Longrightarrow> line_check (\<lambda>f cl n st. line_style env root len e f cl n)"
  by (rule line_checkI, unfold line_style_def)
    (intro oks is_guard_line_total py_nth_prev_total; simp add: line_ctxD less_imp_le [OF line_ctxD(5)])

interpretation sections: line_check section_spacing
proof (rule line_checkI)
  fix f cl n st assume ctx: "line_ctx cl n st"
  show "gives (list_all (report_ok f (cl_num_lines cl))) (section_spacing f cl n st)"
    unfolding section_spacing_def
    by (intro oks; auto split: block_kind.split intro: CheckSectionSpacing_ok [OF ctx])
qed

lemma CheckStyle_check: "guards_known env root \<Longrightarrow> line_check (CheckStyle env root len e)"
  unfolding CheckStyle_def style_checks_def
  by (intro run_checks_ok; simp)
    (intro conjI line_style_check; unfold_locales)

section \<open>Properties\<close>

text \<open>
  C21: The rules of style never raise: for a file as the linter reads it and the blocks that
  its lines up to \<open>n\<close> open, all fourteen of them return at line \<open>n\<close>, and each report is about a line of this file, under
  a category that filters and directives know, with a confidence from 0 to 5. The
  hypotheses on the environment make the name of an include guard exist.
\<close>
theorem style_checks_return:
  assumes "CleansedLines ls = Inr cl" "Updates f cl [0..<Suc n] NestingState = Inr (st, rs)" "n < length ls"
    and "guards_known env root"
  shows "\<exists>qs. CheckStyle env root line_length file_extension f cl n st = Inr qs \<and> list_all (report_ok f (length ls)) qs"
proof -
  from Updates_starts [OF starts_ok_init assms(2), of 0] have "starts_ok n st"
    by (simp add: sorted_append)
  with CleansedLines_full [OF assms(1)] assms(3) have ctx: "line_ctx cl n st" by (simp add: line_ctx_def)
  from line_check.result [OF CheckStyle_check [OF assms(4)] ctx] CleansedLines_full [OF assms(1)]
  show ?thesis by (auto simp: gives_def)
qed

lemma returns_code [code]: "returns m = (case m of Inl _ \<Rightarrow> False | Inr _ \<Rightarrow> True)"
  by (simp add: returns_def split: sum.split)

lemma demo_env_guards: "guards_known demo_env []"
proof -
  have "last (path_join d ''.svn'') = CHR ''n''" for d by (simp add: path_join_def)
  moreover have "last p \<noteq> CHR ''n''" if "path_exists demo_env p" for p using that by (auto simp: demo_env_def)
  ultimately show ?thesis by (auto simp: guards_known_def no_svn_at_root_def marked_def)
qed

theorem style_checks_return_witness:
  "\<exists>cl st rs qs. CleansedLines [''// c'', ''if (x) { '', ''}'', ''// c''] = Inr cl \<and>
     Updates ''io/a.h'' cl [0..<Suc 1] NestingState = Inr (st, rs) \<and>
     CheckStyle demo_env [] 80 ''h'' ''io/a.h'' cl 1 st = Inr qs \<and> list_all (report_ok ''io/a.h'' 4) qs"
proof -
  let ?ls = "[''// c'', ''if (x) { '', ''}'', ''// c'']"
  have "returns (res_bind (CleansedLines ?ls) (\<lambda>cl. Updates ''io/a.h'' cl [0..<Suc 1] NestingState))"
    by code_simp
  then obtain cl st rs where 1: "CleansedLines ?ls = Inr cl" and 2: "Updates ''io/a.h'' cl [0..<Suc 1] NestingState = Inr (st, rs)"
    unfolding returns_def res_bind_eq_Inr by auto
  have 3: "1 < length ?ls" and 4: "length ?ls = 4" by simp_all
  from style_checks_return [OF 1 2 3 demo_env_guards, of 80 "''h''", unfolded 4] 1 2 show ?thesis by blast
qed

text \<open>
  C12: When the loop over the condition of a \<open>CHECK\<close> finds a comparison, the operator is one
  of the six that have a replacement, and the operands and the operator, put together
  again, are the condition up to white space.
\<close>
theorem check_condition_split:
  assumes "parse_check expression [] = Some (lhs, Some operator, rhs)" "nl \<notin> set expression"
  shows "operator \<in> set comparisons \<and> unspaced (lhs @ operator @ rhs) = unspaced expression"
  using parse_check_operator [OF assms(1)] parse_check_operands [OF assms] by simp

theorem check_condition_split_witness:
  "parse_check ''f(a < b) << 2  == 42'' [] = Some (''f(a < b)<< 2  '', Some ''=='', '' 42'') \<and>
   unspaced (''f(a < b)<< 2  '' @ ''=='' @ '' 42'') = unspaced ''f(a < b) << 2  == 42''"
proof -
  have split: "parse_check ''f(a < b) << 2  == 42'' [] = Some (''f(a < b)<< 2  '', Some ''=='', '' 42'')" by code_simp
  have "nl \<notin> set ''f(a < b) << 2  == 42''" by (simp add: nl_def)
  from check_condition_split [OF split this] split show ?thesis by blast
qed

end
