(* ===== verification/Casts.thy ===== *)
theory Casts
  imports Style
begin

text \<open>
  Casts, references, virtual functions and calls that the guide forbids
  (\<open>scripts/cpplint.py\<close>: \<open>_GetTextInside\<close>, \<open>CheckGlobalStatic\<close>,
  \<open>CheckPrintf\<close>, \<open>IsDerivedFunction\<close>, \<open>IsOutOfLineMethodDefinition\<close>, \<open>IsInitializerList\<close>,
  \<open>CheckForNonConstReference\<close>, \<open>CheckCasts\<close>, \<open>CheckCStyleCast\<close>,
  \<open>ExpectingFunctionArgs\<close>, \<open>CheckMakePairUsesDeduction\<close>, \<open>CheckRedundantVirtual\<close>,
  \<open>CheckRedundantOverrideOrFinal\<close>). The loops that look back over a bounded number of lines
  are searches in the list of these line numbers, in the order in which the source visits
  them.
\<close>

section \<open>Text between brackets\<close>

fun closer :: "char \<Rightarrow> char option" where
  "closer c =
     (if c = CHR ''('' then Some (CHR '')'') else if c = CHR ''{'' then Some (CHR ''}'')
      else if c = CHR ''['' then Some (CHR '']'') else None)"

text \<open>The number of characters up to the bracket that closes the last one, if it is found.\<close>

fun inside_length :: "char list \<Rightarrow> string \<Rightarrow> nat option" where
  "inside_length [] text = Some 0"
| "inside_length (p # punctuation_stack) [] = None"
| "inside_length (p # punctuation_stack) (c # text) =
     (if c = p then map_option Suc (inside_length punctuation_stack text)
      else if c \<in> set '')}]'' then None
      else map_option Suc
        (inside_length ((case closer c of None \<Rightarrow> [] | Some q \<Rightarrow> [q]) @ p # punctuation_stack) text))"

text \<open>
  The search of the opening passes \<open>re.M\<close>, which changes the meaning of the anchors of a pattern
  only; the one pattern that the program passes, \<open>PRINTF_CALL\<close>, has none, and the flag is left out.
\<close>

definition search_flags :: "string \<Rightarrow> string \<Rightarrow> pymatch option" where
  "search_flags pattern s =
     (if startswith pattern ''(?i)'' then SearchI (drop 4 pattern) s else Search pattern s)"

definition GetTextInside :: "string \<Rightarrow> string \<Rightarrow> string option res" where
  "GetTextInside text start_pattern =
     (case search_flags start_pattern text of
        None \<Rightarrow> Inr None
      | Some matched \<Rightarrow>
          (let start_position = m_end matched
           in if start_position = 0 then Inl AssertionError
              else
                res_bind (py_nth text (int start_position - 1)) (\<lambda>opening.
                  (case closer opening of
                     None \<Rightarrow> Inl AssertionError
                   | Some p \<Rightarrow>
                       Inr (map_option (\<lambda>k. take (k - 1) (drop start_position text))
                              (inside_length [p] (drop start_position text)))))))"

section \<open>Strings and printf\<close>

definition CheckGlobalStatic :: "string \<Rightarrow> cleansed_lines \<Rightarrow> nat \<Rightarrow> report list res" where
  "CheckGlobalStatic filename clean_lines linenum =
     res_bind (py_nth (cl_elided clean_lines) (int linenum)) (\<lambda>first.
     res_bind (if linenum + 1 < NumLines clean_lines \<and> Search ''[;({]'' first = None
               then res_bind (py_nth (cl_elided clean_lines) (int linenum + 1)) (\<lambda>l. Inr (first @ strip l))
               else Inr first) (\<lambda>line.
       Inr (
         (case Match (''((?:|static +)(?:|const +))(?::*std::)?string( +const)? +'' @ ''([a-zA-Z0-9_:]+)`b(.*)'') line of
            None \<Rightarrow> []
          | Some matched \<Rightarrow>
              (if Search ''`bstring`b(`s+const)?`s*[`*`&]`s*(const`s+)?`w'' line = None \<and>
                  Search ''`boperator`W'' line = None \<and>
                  Match ''`s*(<.*>)?(::[a-zA-Z0-9_]+)*`s*`(([^\"]|$)'' (grp matched 4) = None
               then (if Search ''`bconst`b'' line \<noteq> None
                     then flag True filename linenum ''runtime/string'' 4
                            (''For a static/global string constant, use a C style string '' @
                             ''instead: \"'' @ grp matched 1 @ ''char'' @ grp matched 2 @ '' '' @ grp matched 3 @ ''[]\".'')
                     else flag True filename linenum ''runtime/string'' 4
                            ''Static/global string variables are not permitted.'')
               else [])) @
         flag (Search ''`b([A-Za-z0-9_]*_)`(`1`)'' line \<noteq> None \<or>
               Search ''`b([A-Za-z0-9_]*_)`(CHECK_NOTNULL`(`1`)`)'' line \<noteq> None)
           filename linenum ''runtime/init'' 4 ''You seem to be initializing a member variable with itself.'')))"

definition CheckPrintf :: "string \<Rightarrow> cleansed_lines \<Rightarrow> nat \<Rightarrow> report list res" where
  "CheckPrintf filename clean_lines linenum =
     res_bind (py_nth (cl_elided clean_lines) (int linenum)) (\<lambda>line.
       Inr (
         (case Search ''snprintf`s*`(([^,]*),`s*([0-9]*)`s*,'' line of
            None \<Rightarrow> []
          | Some matched \<Rightarrow>
              flag (grp matched 2 \<noteq> ''0'') filename linenum ''runtime/printf'' 3
                (''If you can, use sizeof('' @ grp matched 1 @ '') instead of '' @ grp matched 2 @ '' as the 2nd arg to snprintf.'')) @
         flag (Search ''`bsprintf`s*`('' line \<noteq> None) filename linenum ''runtime/printf'' 5
           ''Never use sprintf. Use snprintf instead.'' @
         (case Search ''`b(strcpy|strcat)`s*`('' line of
            None \<Rightarrow> []
          | Some matched \<Rightarrow>
              flag True filename linenum ''runtime/printf'' 4
                (''Almost always, snprintf is better than '' @ grp matched 1))))"

section \<open>References\<close>

definition FUNCTION_START :: string where "FUNCTION_START = ''^([^()]*`w+)`(''"

text \<open>The line where the current function starts, at most nine lines above.\<close>

definition function_start :: "cleansed_lines \<Rightarrow> nat \<Rightarrow> nat option res" where
  "function_start clean_lines linenum =
     find_res (\<lambda>i. res_bind (py_nth (cl_elided clean_lines) (int i)) (\<lambda>l. Inr (Match FUNCTION_START l \<noteq> None)))
       (rev [Suc linenum - 10..<Suc linenum])"

definition IsDerivedFunction :: "cleansed_lines \<Rightarrow> nat \<Rightarrow> bool res" where
  "IsDerivedFunction clean_lines linenum =
     res_bind (function_start clean_lines linenum) (\<lambda>start.
       (case start of
          None \<Rightarrow> Inr False
        | Some i \<Rightarrow>
            res_bind (py_nth (cl_elided clean_lines) (int i)) (\<lambda>l.
              (case Match FUNCTION_START l of
                 None \<Rightarrow> Inr False
               | Some matched \<Rightarrow>
                   res_bind (CloseExpression clean_lines i (length (grp matched 1))) (\<lambda>(line, _, closing_paren).
                     Inr (closing_paren \<ge> 0 \<and> Search ''`boverride`b'' (py_from line closing_paren) \<noteq> None))))))"

definition IsOutOfLineMethodDefinition :: "cleansed_lines \<Rightarrow> nat \<Rightarrow> bool res" where
  "IsOutOfLineMethodDefinition clean_lines linenum =
     res_bind (function_start clean_lines linenum) (\<lambda>start.
       (case start of
          None \<Rightarrow> Inr False
        | Some i \<Rightarrow>
            res_bind (py_nth (cl_elided clean_lines) (int i)) (\<lambda>l. Inr (Match ''^[^()]*`w+::`w+`('' l \<noteq> None))))"

text \<open>What a line above tells about an initializer list; nothing, if the search goes on.\<close>

definition initializer_hint :: "string \<Rightarrow> bool option" where
  "initializer_hint line =
     (if Search ''`s:`s*`w+[({]'' line \<noteq> None then Some True
      else if Search ''`}`s*,`s*$'' line \<noteq> None then Some True
      else if Search ''[{};]`s*$'' line \<noteq> None then Some False
      else None)"

fun initializer_scan :: "cleansed_lines \<Rightarrow> nat \<Rightarrow> nat list \<Rightarrow> bool res" where
  "initializer_scan clean_lines linenum [] = Inr False"
| "initializer_scan clean_lines linenum (i # earlier) =
     res_bind (py_nth (cl_elided clean_lines) (int i)) (\<lambda>l.
       (let line = (if i = linenum
                    then (case Match ''^(.*)`{`s*$'' l of None \<Rightarrow> l | Some remove_function_body \<Rightarrow> grp remove_function_body 1)
                    else l)
        in (case initializer_hint line of
              None \<Rightarrow> initializer_scan clean_lines linenum earlier
            | Some answer \<Rightarrow> Inr answer)))"

definition IsInitializerList :: "cleansed_lines \<Rightarrow> nat \<Rightarrow> bool res" where
  "IsInitializerList clean_lines linenum = initializer_scan clean_lines linenum (rev [2..<Suc linenum])"

definition RE_PATTERN_IDENT :: string where "RE_PATTERN_IDENT = ''[_a-zA-Z]`w*''"

definition RE_PATTERN_TYPE :: string where
  "RE_PATTERN_TYPE =
     ''(?:const`s+)?(?:typename`s+|class`s+|struct`s+|union`s+|enum`s+)?'' @
     ''(?:`w|'' @ ''`s*<(?:<(?:<[^<>]*>|[^<>])*>|[^<>])*>|'' @ ''::)+''"

definition RE_PATTERN_REF_PARAM :: string where
  "RE_PATTERN_REF_PARAM =
     ''('' @ RE_PATTERN_TYPE @ ''(?:`s*(?:`bconst`b|[*]))*`s*'' @ ''&`s*'' @ RE_PATTERN_IDENT @ '')`s*(?:=[^,()]+)?[,)]''"

definition RE_PATTERN_CONST_REF_PARAM :: string where
  "RE_PATTERN_CONST_REF_PARAM =
     ''(?:.*`s*`bconst`s*&`s*'' @ RE_PATTERN_IDENT @ ''|const`s+'' @ RE_PATTERN_TYPE @ ''`s*&`s*'' @ RE_PATTERN_IDENT @ '')''"

definition RE_PATTERN_REF_STREAM_PARAM :: string where
  "RE_PATTERN_REF_STREAM_PARAM = ''(?:.*stream`s*&`s*'' @ RE_PATTERN_IDENT @ '')''"

definition whitelisted_functions :: string where
  "whitelisted_functions =
     ''(?:[sS]wap(?:<`w:+>)?|'' @ ''operator`s*[<>][<>]|'' @ ''static_assert|COMPILE_ASSERT'' @ '')`s*`(''"

text \<open>The line with the part of a long type that stands on the lines before it.\<close>

definition joined_type :: "cleansed_lines \<Rightarrow> nat \<Rightarrow> string \<Rightarrow> string res" where
  "joined_type clean_lines linenum line =
     (if linenum \<le> 1 then Inr line
      else
        res_bind (if Match ''`s*::(?:[`w<>]|::)+`s*&`s*`S'' line \<noteq> None
                  then res_bind (py_nth (cl_elided clean_lines) (int linenum - 1)) (\<lambda>p.
                         Inr (Search ''`b((?:const`s*)?(?:[`w<>]|::)+[`w<>])`s*$'' p))
                  else if Match ''`s*[a-zA-Z_]([`w<>]|::)+`s*&`s*`S'' line \<noteq> None
                  then res_bind (py_nth (cl_elided clean_lines) (int linenum - 1)) (\<lambda>p.
                         Inr (Search ''`b((?:const`s*)?(?:[`w<>]|::)+::)`s*$'' p))
                  else Inr None) (\<lambda>previous.
          (case previous of
             Some m \<Rightarrow> Inr (grp m 1 @ lstrip line)
           | None \<Rightarrow>
               (let endpos = py_rfind line (CHR ''>'')
                in if endpos > -1
                   then res_bind (ReverseCloseExpression clean_lines linenum (nat endpos)) (\<lambda>(_, startline, startpos).
                          if startpos > -1 \<and> startline < linenum
                          then res_bind (map_res (\<lambda>i. py_nth (cl_elided clean_lines) (int i)) [startline..<Suc linenum]) (\<lambda>pieces.
                                 Inr (concat (map strip pieces)))
                          else Inr line)
                   else Inr line))))"

text \<open>Whether the lines above, as long as they end in a bracket or a comma, start an initializer list.\<close>

fun after_colon :: "cleansed_lines \<Rightarrow> nat list \<Rightarrow> bool res" where
  "after_colon clean_lines [] = Inr False"
| "after_colon clean_lines (i # earlier) =
     res_bind (py_nth (cl_elided clean_lines) (int i)) (\<lambda>previous_line.
       if Search ''[),]`s*$'' previous_line = None then Inr False
       else if Match ''^`s*:`s+`S'' previous_line \<noteq> None then Inr True
       else after_colon clean_lines earlier)"

definition whitelisted :: "cleansed_lines \<Rightarrow> nat \<Rightarrow> string \<Rightarrow> bool res" where
  "whitelisted clean_lines linenum line =
     (if Search whitelisted_functions line \<noteq> None then Inr True
      else if Search ''`S+`([^)]*$'' line \<noteq> None then Inr False
      else
        res_bind (find_res (\<lambda>i.
          if linenum > i
          then res_bind (py_nth (cl_elided clean_lines) (int linenum - int i - 1)) (\<lambda>l.
                 Inr (Search whitelisted_functions l \<noteq> None))
          else Inr False) [0..<2]) (\<lambda>found. Inr (found \<noteq> None)))"

definition inside_function :: "nesting_state \<Rightarrow> bool" where
  "inside_function st \<longleftrightarrow>
     (case previous_stack_top st of
        None \<Rightarrow> False
      | Some b \<Rightarrow> (case kind b of ClassInfo _ \<Rightarrow> False | NamespaceInfo _ \<Rightarrow> False | _ \<Rightarrow> True))"

definition reference_reports :: "string \<Rightarrow> nat \<Rightarrow> string \<Rightarrow> report list" where
  "reference_reports filename linenum line =
     (let decls = ReplaceAll ''{[^}]*}'' '' '' line
      in concat (map (\<lambda>parameter.
           flag (Match RE_PATTERN_CONST_REF_PARAM parameter = None \<and> Match RE_PATTERN_REF_STREAM_PARAM parameter = None)
             filename linenum ''runtime/references'' 2
             (''Is this a non-const reference? If so, make const or use a pointer: '' @ ReplaceAll '' *<'' ''<'' parameter))
           (map (\<lambda>m. grp m 1) (finditer RE_PATTERN_REF_PARAM decls))))"

text \<open>The reasons not to report references on a line, in the order in which they are tested.\<close>

fun unless :: "bool res list \<Rightarrow> 'a list \<Rightarrow> 'a list res" where
  "unless [] rs = Inr rs"
| "unless (b # reasons) rs = res_bind b (\<lambda>holds. if holds then Inr [] else unless reasons rs)"

definition CheckForNonConstReference :: "string \<Rightarrow> cleansed_lines \<Rightarrow> nat \<Rightarrow> nesting_state \<Rightarrow> report list res" where
  "CheckForNonConstReference filename clean_lines linenum st =
     res_bind (py_nth (cl_elided clean_lines) (int linenum)) (\<lambda>first.
       if \<not> contains first ''&'' then Inr []
       else
         res_bind (IsDerivedFunction clean_lines linenum) (\<lambda>derived.
         if derived then Inr []
         else
           res_bind (IsOutOfLineMethodDefinition clean_lines linenum) (\<lambda>out_of_line.
           if out_of_line then Inr []
           else
             res_bind (joined_type clean_lines linenum first) (\<lambda>line.
               unless
                 [Inr (inside_function st),
                  (if linenum > 0 then after_colon clean_lines (rev [Suc (linenum - 10)..<linenum]) else Inr False),
                  Inr (Search ''```s*$'' line \<noteq> None),
                  IsInitializerList clean_lines linenum,
                  whitelisted clean_lines linenum line]
                 (reference_reports filename linenum line)))))"

section \<open>Casts\<close>

definition group_start :: "pymatch \<Rightarrow> nat \<Rightarrow> int" where
  "group_start m n = (case map_of (m_groups m) n of None \<Rightarrow> -1 | Some (i, t) \<Rightarrow> int i)"

definition CheckCStyleCast :: "string \<Rightarrow> cleansed_lines \<Rightarrow> nat \<Rightarrow> string \<Rightarrow> string \<Rightarrow> report list res" where
  "CheckCStyleCast filename clean_lines linenum cast_type pattern =
     res_bind (py_nth (cl_elided clean_lines) (int linenum)) (\<lambda>line.
       (case Search pattern line of
          None \<Rightarrow> Inr []
        | Some matched \<Rightarrow>
            (let context = py_slice line 0 (group_start matched 1 - 1)
             in if Match ''.*`b(?:sizeof|alignof|alignas|[_A-Z][_A-Z0-9]*)`s*$'' context \<noteq> None then Inr []
                else
                  res_bind (if linenum > 0
                            then map_res (\<lambda>i. py_nth (cl_elided clean_lines) (int i)) [Suc (linenum - 5)..<linenum]
                            else Inr []) (\<lambda>before.
                    (let context2 = concat before @ context;
                         remainder = drop (m_end matched) line
                     in if Match ''.*`b[_A-Z][_A-Z0-9]*`s*`((?:`([^()]*`)|[^()])*$'' context2 \<noteq> None then Inr []
                        else if endswith context2 '' operator++'' \<or> endswith context2 '' operator--'' then Inr []
                        else if Match ''^`s*(?:;|const`b|throw`b|final`b|override`b|[=>{),]|->)'' remainder \<noteq> None then Inr []
                        else Inr (flag True filename linenum ''readability/casting'' 4
                               (''Using C-style cast.  Use '' @ cast_type @ ''<'' @ grp matched 1 @ ''>(...) instead'')))))))"

definition ExpectingFunctionArgs :: "cleansed_lines \<Rightarrow> nat \<Rightarrow> bool res" where
  "ExpectingFunctionArgs clean_lines linenum =
     res_bind (py_nth (cl_elided clean_lines) (int linenum)) (\<lambda>line.
       if Match ''^`s*MOCK_(CONST_)?METHOD`d+(_T)?`('' line \<noteq> None then Inr True
       else if linenum < 2 then Inr False
       else
         res_bind (py_nth (cl_elided clean_lines) (int linenum - 1)) (\<lambda>before1.
         res_bind (py_nth (cl_elided clean_lines) (int linenum - 2)) (\<lambda>before2.
           Inr (Match ''^`s*MOCK_(?:CONST_)?METHOD`d+(?:_T)?`((?:`S+,)?`s*$'' before1 \<noteq> None \<or>
                Match ''^`s*MOCK_(?:CONST_)?METHOD`d+(?:_T)?`(`s*$'' before2 \<noteq> None \<or>
                Search ''`bstd::m?function`s*`<`s*$'' before1 \<noteq> None))))"

definition CONVERSION :: string where
  "CONVERSION =
     ''(`bnew`s+(?:const`s+)?|`S<`s*(?:const`s+)?)?`b'' @ ''(int|float|double|bool|char|int32|uint32|int64|uint64)'' @
     ''(`([^)].*)''"

text \<open>A conversion function cast: nothing, when the brackets of an array end the whole check.\<close>

definition conversion_cast :: "string \<Rightarrow> nat \<Rightarrow> string \<Rightarrow> bool \<Rightarrow> report list option" where
  "conversion_cast filename linenum line expecting_function =
     (case Search CONVERSION line of
        None \<Rightarrow> Some []
      | Some matched \<Rightarrow>
          (let matched_type = grp matched 2; matched_funcptr = grp matched 3
           in if expecting_function then Some []
              else if Match ''`([^()]+`)`s*`['' matched_funcptr \<noteq> None then None
              else Some (flag
                (group matched 1 = None \<and>
                 \<not> (matched_funcptr \<noteq> [] \<and>
                    (Match ''`((?:[^() ]+::`s*`*`s*)?[^() ]+`)`s*`('' matched_funcptr \<noteq> None \<or>
                     startswith matched_funcptr ''(*)'')) \<and>
                 Match (''`s*using`s+`S+`s*=`s*'' @ matched_type) line = None \<and>
                 Search (''new`(`S+`)`s*'' @ matched_type) line = None)
                filename linenum ''readability/casting'' 4
                (''Using deprecated casting style.  Use static_cast<'' @ matched_type @ ''>(...) instead''))))"

definition ADDRESS_OF_CAST :: string where
  "ADDRESS_OF_CAST =
     ''(?:[^`w]&`(([^)*][^)]*)`)[`w(])|'' @ ''(?:[^`w]&(static|dynamic|down|reinterpret)_cast`b)''"

definition CAST_OPERATOR :: string where
  "CAST_OPERATOR = ''^(.*&(?:static|dynamic|down|reinterpret)_cast`b)<''"

definition dereferenced_cast :: "cleansed_lines \<Rightarrow> nat \<Rightarrow> string \<Rightarrow> bool res" where
  "dereferenced_cast clean_lines linenum line =
     (case Match CAST_OPERATOR line of
        None \<Rightarrow> Inr False
      | Some matched \<Rightarrow>
          res_bind (CloseExpression clean_lines linenum (length (grp matched 1))) (\<lambda>(_, y1, x1).
            if x1 < 0 then Inr False
            else
              res_bind (py_nth (cl_elided clean_lines) (int y1)) (\<lambda>l1.
              res_bind (py_nth l1 x1) (\<lambda>c.
                if c \<noteq> CHR ''('' then Inr False
                else
                  res_bind (CloseExpression clean_lines y1 (nat x1)) (\<lambda>(_, y2, x2).
                    if x2 < 0 then Inr False
                    else
                      res_bind (py_nth (cl_elided clean_lines) (int y2)) (\<lambda>l2.
                      res_bind (if int y2 < int (NumLines clean_lines) - 1
                                then res_bind (py_nth (cl_elided clean_lines) (int y2 + 1)) (\<lambda>l3. Inr (py_from l2 x2 @ l3))
                                else Inr (py_from l2 x2)) (\<lambda>extended_line.
                        Inr (Match ''`s*(?:->|`[)'' extended_line \<noteq> None))))))))"

definition address_of_cast :: "string \<Rightarrow> cleansed_lines \<Rightarrow> nat \<Rightarrow> string \<Rightarrow> report list res" where
  "address_of_cast filename clean_lines linenum line =
     (if Search ADDRESS_OF_CAST line = None then Inr []
      else
        res_bind (dereferenced_cast clean_lines linenum line) (\<lambda>parenthesis_error.
          Inr (if parenthesis_error
               then flag True filename linenum ''readability/casting'' 4
                      (''Are you taking an address of something dereferenced '' @
                       ''from a cast?  Wrapping the dereferenced expression in '' @
                       ''parentheses will make the binding more obvious'')
               else flag True filename linenum ''runtime/casting'' 4
                      (''Are you taking an address of a cast?  '' @ ''This is dangerous: could be a temp var.  '' @
                       ''Take the address before doing the cast, rather than after''))))"

definition CheckCasts :: "string \<Rightarrow> cleansed_lines \<Rightarrow> nat \<Rightarrow> report list res" where
  "CheckCasts filename clean_lines linenum =
     res_bind (py_nth (cl_elided clean_lines) (int linenum)) (\<lambda>line.
     res_bind (ExpectingFunctionArgs clean_lines linenum) (\<lambda>expecting_function.
       (case conversion_cast filename linenum line expecting_function of
          None \<Rightarrow> Inr []
        | Some conversion \<Rightarrow>
            res_bind (if expecting_function then Inr []
                      else CheckCStyleCast filename clean_lines linenum ''static_cast''
                             ''`((int|float|double|bool|char|u?int(16|32|64))`)'') (\<lambda>static_casts.
            res_bind (CheckCStyleCast filename clean_lines linenum ''const_cast'' ''`((char`s?`*+`s?)`)`s*\"'') (\<lambda>const_casts.
            res_bind (if const_casts \<noteq> [] then Inr []
                      else CheckCStyleCast filename clean_lines linenum ''reinterpret_cast'' ''`((`w+`s?`*+`s?)`)'') (\<lambda>pointer_casts.
            res_bind (address_of_cast filename clean_lines linenum line) (\<lambda>addresses.
              Inr (conversion @ static_casts @ const_casts @ pointer_casts @ addresses))))))))"

section \<open>Inheritance and pairs\<close>

definition CheckMakePairUsesDeduction :: "string \<Rightarrow> cleansed_lines \<Rightarrow> nat \<Rightarrow> report list res" where
  "CheckMakePairUsesDeduction filename clean_lines linenum =
     res_bind (py_nth (cl_elided clean_lines) (int linenum)) (\<lambda>line.
       Inr (flag (Search ''`bmake_pair`s*<'' line \<noteq> None) filename linenum ''build/explicit_make_pair'' 4
         (''For C++11-compatibility, omit template arguments from make_pair'' @
          '' OR use pair directly OR if appropriate, construct a pair directly'')))"

text \<open>The end of the parameter list that starts on one of the given lines.\<close>

fun parameter_end :: "cleansed_lines \<Rightarrow> nat \<Rightarrow> nat list \<Rightarrow> (nat \<times> int) option res" where
  "parameter_end clean_lines start_col [] = Inr None"
| "parameter_end clean_lines start_col (start_line # later) =
     res_bind (py_nth (cl_elided clean_lines) (int start_line)) (\<lambda>l.
       (case Match ''^([^(]*)`('' (drop start_col l) of
          Some parameter_list \<Rightarrow>
            res_bind (CloseExpression clean_lines start_line (start_col + length (grp parameter_list 1))) (\<lambda>(_, end_line, end_col).
              Inr (Some (end_line, end_col)))
        | None \<Rightarrow> parameter_end clean_lines 0 later))"

fun specifiers_after :: "string \<Rightarrow> cleansed_lines \<Rightarrow> nat \<Rightarrow> nat \<Rightarrow> nat list \<Rightarrow> report list res" where
  "specifiers_after filename clean_lines linenum end_col [] = Inr []"
| "specifiers_after filename clean_lines linenum end_col (i # later) =
     res_bind (py_nth (cl_elided clean_lines) (int i)) (\<lambda>l.
       (let line = drop end_col l;
            found = (case Search ''`b(override|final)`b'' line of
                       None \<Rightarrow> []
                     | Some m \<Rightarrow> flag True filename linenum ''readability/inheritance'' 4
                         (''\"virtual\" is redundant since function is already declared as \"'' @ grp m 1 @ ''\"''))
        in if Search ''[^`w]`s*$'' line \<noteq> None then Inr found
           else res_bind (specifiers_after filename clean_lines linenum 0 later) (\<lambda>rs. Inr (found @ rs))))"

definition CheckRedundantVirtual :: "string \<Rightarrow> cleansed_lines \<Rightarrow> nat \<Rightarrow> report list res" where
  "CheckRedundantVirtual filename clean_lines linenum =
     res_bind (py_nth (cl_elided clean_lines) (int linenum)) (\<lambda>line.
       (case Match ''^(.*)(`bvirtual`b)(.*)$'' line of
          None \<Rightarrow> Inr []
        | Some virtual \<Rightarrow>
            (if Search ''`b(public|protected|private)`s+$'' (grp virtual 1) \<noteq> None \<or>
                Match ''^`s+(public|protected|private)`b'' (grp virtual 3) \<noteq> None then Inr []
             else if Match ''^.*[^:]:[^:].*$'' line \<noteq> None then Inr []
             else
               res_bind (parameter_end clean_lines (length (grp virtual 2))
                           [linenum..<min (linenum + 3) (NumLines clean_lines)]) (\<lambda>found.
                 (case found of
                    None \<Rightarrow> Inr []
                  | Some (end_line, end_col) \<Rightarrow>
                      (if end_col < 0 then Inr []
                       else specifiers_after filename clean_lines linenum (nat end_col)
                              [end_line..<min (end_line + 3) (NumLines clean_lines)]))))))"

definition CheckRedundantOverrideOrFinal :: "string \<Rightarrow> cleansed_lines \<Rightarrow> nat \<Rightarrow> report list res" where
  "CheckRedundantOverrideOrFinal filename clean_lines linenum =
     res_bind (py_nth (cl_elided clean_lines) (int linenum)) (\<lambda>line.
     res_bind (let declarator_end = py_rfind line (CHR '')'')
               in if declarator_end \<ge> 0 then Inr (Some (py_from line declarator_end))
                  else if linenum > 1
                  then res_bind (py_nth (cl_elided clean_lines) (int linenum - 1)) (\<lambda>before.
                         Inr (if py_rfind before (CHR '')'') \<ge> 0 then Some line else None))
                  else Inr None) (\<lambda>fragment.
       (case fragment of
          None \<Rightarrow> Inr []
        | Some text \<Rightarrow>
            Inr (flag (Search ''`boverride`b'' text \<noteq> None \<and> Search ''`bfinal`b'' text \<noteq> None)
              filename linenum ''readability/inheritance'' 4
              ''\"override\" is redundant since function is already declared as \"final\"''))))"

section \<open>Balanced text\<close>

text \<open>The brackets of a text match when they close in the reverse of the order in which they open.\<close>

inductive brackets_match :: "string \<Rightarrow> bool" where
  empty: "brackets_match []"
| other: "c \<notin> set ''(){}[]'' \<Longrightarrow> brackets_match s \<Longrightarrow> brackets_match (c # s)"
| nested: "closer c = Some d \<Longrightarrow> brackets_match s \<Longrightarrow> brackets_match t \<Longrightarrow> brackets_match (c # s @ d # t)"

lemma closer_cases:
  "closer c = Some d \<longleftrightarrow> c = CHR ''('' \<and> d = CHR '')'' \<or> c = CHR ''{'' \<and> d = CHR ''}'' \<or> c = CHR ''['' \<and> d = CHR '']''"
  "closer c = None \<longleftrightarrow> c \<notin> set ''({[''"
  by (auto split: if_splits)

declare closer.simps [simp del]

lemma closer_closes: "closer c = Some d \<Longrightarrow> d \<in> set '')}]'' \<and> c \<notin> set '')}]''"
  by (auto simp: closer_cases)

lemma inside_length_balanced:
  "inside_length (p # st) s = Some k \<Longrightarrow>
     \<exists>u v j. s = u @ p # v \<and> brackets_match u \<and> inside_length st v = Some j \<and> k = Suc (length u) + j"
proof (induction "length s" arbitrary: p st s k rule: less_induct)
  case less
  from less.prems obtain c rest where cons: "s = c # rest" by (cases s) auto
  show ?case
  proof (cases "c = p")
    case True
    with less.prems cons show ?thesis by (fastforce intro: brackets_match.empty)
  next
    case False
    with less.prems cons have c: "c \<notin> set '')}]''" by (auto split: if_splits)
    show ?thesis
    proof (cases "closer c")
      case None
      with less.prems cons False c obtain j where j: "inside_length (p # st) rest = Some j" "k = Suc j" by auto
      from less.hyps [OF _ j(1)] cons obtain u v i where
        "rest = u @ p # v" "brackets_match u" "inside_length st v = Some i" "j = Suc (length u) + i" by auto
      with cons j(2) brackets_match.other [of c u] None c show ?thesis
        by (intro exI [of _ "c # u"] exI [of _ v] exI [of _ i]) (auto simp: closer_cases)
    next
      case (Some q)
      with less.prems cons False c obtain j where j: "inside_length (q # p # st) rest = Some j" "k = Suc j" by auto
      from less.hyps [OF _ j(1)] cons obtain u v i where
        1: "rest = u @ q # v" "brackets_match u" "inside_length (p # st) v = Some i" "j = Suc (length u) + i" by auto
      from less.hyps [OF _ 1(3)] cons 1(1) obtain u' v' i' where
        "v = u' @ p # v'" "brackets_match u'" "inside_length st v' = Some i'" "i = Suc (length u') + i'" by auto
      with cons j(2) 1 brackets_match.nested [OF Some 1(2), of u'] show ?thesis
        by (intro exI [of _ "c # u @ q # u'"] exI [of _ v'] exI [of _ i']) auto
    qed
  qed
qed

lemma balanced_inside_length:
  "brackets_match u \<Longrightarrow> p \<in> set '')}]'' \<Longrightarrow>
     inside_length (p # st) (u @ v) = map_option ((+) (length u)) (inside_length (p # st) v)"
proof (induction u arbitrary: p st v rule: brackets_match.induct)
  case empty
  then show ?case by (simp add: option.map_ident)
next
  case (other c s)
  then have "c \<noteq> p" "c \<notin> set '')}]''" "closer c = None" by (auto simp: closer_cases)
  with other show ?case by (simp add: option.map_comp comp_def)
next
  case (nested c d s t)
  from closer_closes [OF nested(1)] nested.prems have c: "c \<noteq> p" "c \<notin> set '')}]''" "d \<in> set '')}]''" by auto
  have "inside_length (d # p # st) (s @ d # t @ v) = map_option ((+) (length s)) (inside_length (d # p # st) (d # t @ v))"
    using nested.IH(1)[OF c(3)] .
  also have "inside_length (d # p # st) (d # t @ v) = map_option Suc (inside_length (p # st) (t @ v))" by simp
  finally show ?case using c nested.hyps(1) nested.IH(2)[OF nested.prems]
    by (simp add: option.map_comp comp_def add.assoc)
qed

lemma inside_length_iff:
  assumes "p \<in> set '')}]''"
  shows "inside_length [p] text = Some k \<longleftrightarrow> (\<exists>u v. text = u @ p # v \<and> brackets_match u \<and> k = Suc (length u))"
proof
  assume "inside_length [p] text = Some k"
  from inside_length_balanced [OF this] show "\<exists>u v. text = u @ p # v \<and> brackets_match u \<and> k = Suc (length u)" by auto
next
  assume "\<exists>u v. text = u @ p # v \<and> brackets_match u \<and> k = Suc (length u)"
  with balanced_inside_length [OF _ assms, of _ "[]"] show "inside_length [p] text = Some k" by auto
qed

lemma GetTextInside_iff:
  assumes "search_flags start_pattern text = Some m" "text = pre @ c # rest" "m_end m = Suc (length pre)" "closer c = Some d"
  shows "GetTextInside text start_pattern = Inr (Some u) \<longleftrightarrow> brackets_match u \<and> (\<exists>v. rest = u @ d # v)"
proof -
  have d: "d \<in> set '')}]''" using closer_closes [OF assms(4)] by simp
  have "GetTextInside text start_pattern = Inr (map_option (\<lambda>k. take (k - 1) rest) (inside_length [d] rest))"
    using assms by (simp add: GetTextInside_def Let_def)
  then have "GetTextInside text start_pattern = Inr (Some u) \<longleftrightarrow> (\<exists>k. inside_length [d] rest = Some k \<and> u = take (k - 1) rest)"
    by auto
  also have "\<dots> \<longleftrightarrow> brackets_match u \<and> (\<exists>v. rest = u @ d # v)" unfolding inside_length_iff [OF d]
    by (auto intro!: exI [of _ "Suc (length u)"])
  finally show ?thesis .
qed

text \<open>A pattern whose every match ends in one of the given characters.\<close>

fun ends_in :: "string \<Rightarrow> re \<Rightarrow> bool" where
  "ends_in w (Chr c) \<longleftrightarrow> c \<in> set w"
| "ends_in w (Cls neg ks) \<longleftrightarrow> \<not> neg \<and> list_all (\<lambda>k. \<exists>c \<in> set w. k = CChr c) ks"
| "ends_in w (Seq p q) \<longleftrightarrow> ends_in w q"
| "ends_in w _ \<longleftrightarrow> False"

lemma ends_in_last: "(b', a', g') \<in> set (ms r x) \<Longrightarrow> ends_in w r \<Longrightarrow> \<exists>c b''. c \<in> set w \<and> b' = c # b''"
proof (induction r arbitrary: x)
  case (Cls neg ks)
  then show ?case by (cases x) (fastforce simp: step1_mem list_all_iff list_ex_iff)
next
  case (Chr c)
  then show ?case by (cases x) (auto simp: step1_mem)
qed fastforce+

lemma re_search_ends:
  assumes "re_search r s = Some m" "ends_in w r"
  shows "\<exists>pre c rest. s = pre @ c # rest \<and> c \<in> set w \<and> m_end m = Suc (length pre)"
proof -
  from assms(1) obtain p a where s: "s = p @ a" and m: "match_at r (rev p, a, []) = Some m"
    unfolding re_search_def by (metis search_from_SomeE append_Nil2)
  from m obtain b' a' where b: "(b', a', m_groups m) \<in> set (ms r (rev p, a, []))" "a = m_text m @ a'"
    "b' = rev (m_text m) @ rev p" "m_end m = length p + length (m_text m)"
    by (rule match_at_SomeE) auto
  from ends_in_last [OF b(1) assms(2)] obtain c b'' where c: "c \<in> set w" "b' = c # b''" by blast
  with b(3) have "p @ m_text m = rev b'' @ [c]" by (metis rev.simps(2) rev_append rev_rev_ident)
  moreover from this b(4) have "m_end m = Suc (length (rev b''))" by (metis length_append length_append_singleton)
  ultimately show ?thesis using s b(2) c(1) by (metis append_Cons append_Nil append_assoc)
qed

definition PRINTF_CALL :: string where "PRINTF_CALL = ''(?i)`b(string)?printf`s*`(''"

lemma printf_ends: "\<exists>r. compile (bs ''`b(string)?printf`s*`('') = Some r \<and> ends_in ''('' (ignore_case r)"
proof -
  have "case compile (bs ''`b(string)?printf`s*`('') of None \<Rightarrow> False | Some r \<Rightarrow> ends_in ''('' (ignore_case r)" by code_simp
  then show ?thesis by (auto split: option.splits)
qed

lemma printf_call:
  assumes "search_flags PRINTF_CALL text = Some m"
  shows "\<exists>pre rest. text = pre @ CHR ''('' # rest \<and> m_end m = Suc (length pre)"
proof -
  have "search_flags PRINTF_CALL text = SearchI ''`b(string)?printf`s*`('' text"
    by (simp add: search_flags_def PRINTF_CALL_def startswith_def)
  with assms printf_ends show ?thesis by (fastforce simp: SearchI_def dest: re_search_ends)
qed

lemma GetTextInside_printf: "returns (GetTextInside text PRINTF_CALL)"
proof (cases "search_flags PRINTF_CALL text")
  case (Some m)
  from printf_call [OF this] obtain pre rest where "text = pre @ CHR ''('' # rest" "m_end m = Suc (length pre)" by blast
  with Some show ?thesis by (simp add: GetTextInside_def Let_def closer.simps)
qed (simp add: GetTextInside_def)

section \<open>The checks return\<close>

interpretation global_static: line_check "\<lambda>f cl n st. CheckGlobalStatic f cl n"
proof (rule line_checkI)
  fix f cl n st assume ctx: "line_ctx cl n st"
  have "returns (py_nth (cl_elided cl) (int n + 1))" if "n + 1 < NumLines cl"
    using that line_ctxD(8)[OF ctx] returns_py_nth [of "n + 1" "cl_elided cl"] by (simp add: NumLines_def add.commute)
  then show "gives (list_all (report_ok f (cl_num_lines cl))) (CheckGlobalStatic f cl n)"
    unfolding CheckGlobalStatic_def by (intro oks; simp add: line_ctxD [OF ctx])
qed

interpretation printf: line_check "\<lambda>f cl n st. CheckPrintf f cl n"
  by (rule line_checkI, unfold CheckPrintf_def) (intro oks; simp add: line_ctxD)

interpretation make_pair: line_check "\<lambda>f cl n st. CheckMakePairUsesDeduction f cl n"
  by (rule line_checkI, unfold CheckMakePairUsesDeduction_def) (intro oks; simp add: line_ctxD)

interpretation override_or_final: line_check "\<lambda>f cl n st. CheckRedundantOverrideOrFinal f cl n"
  by (rule line_checkI, unfold CheckRedundantOverrideOrFinal_def) (intro oks py_nth_prev_total; simp add: line_ctxD)

lemma function_start_gives:
  "n < length (cl_elided cl) \<Longrightarrow> gives (\<lambda>r. \<forall>i. r = Some i \<longrightarrow> i \<le> n) (function_start cl n)"
proof -
  assume "n < length (cl_elided cl)"
  then have "returns (function_start cl n)" unfolding function_start_def by (intro oks) auto
  moreover have "i \<le> n" if "function_start cl n = Inr (Some i)" for i
    using find_res_Some [OF that [unfolded function_start_def]] by auto
  ultimately show ?thesis by (auto simp: returns_def gives_def)
qed

lemma function_start_leads: "leads FUNCTION_START (CHR ''('')" "leads ''^([^(]*)`('' (CHR ''('')" "leads CAST_OPERATOR (CHR ''<'')"
  by code_simp+

lemma IsDerivedFunction_total [oks]:
  assumes "n < length (cl_elided cl)"
  shows "returns (IsDerivedFunction cl n)"
proof -
  from function_start_gives [OF assms] obtain r where r: "function_start cl n = Inr r" "\<And>i. r = Some i \<Longrightarrow> i \<le> n"
    by (auto simp: gives_def)
  show ?thesis
    unfolding IsDerivedFunction_def r res_bind_simps
    by (intro oks; use assms r(2) leads_pos [OF _ function_start_leads(1)] in fastforce)
qed

lemma IsOutOfLineMethodDefinition_total [oks]:
  assumes "n < length (cl_elided cl)"
  shows "returns (IsOutOfLineMethodDefinition cl n)"
proof -
  from function_start_gives [OF assms] obtain r where r: "function_start cl n = Inr r" "\<And>i. r = Some i \<Longrightarrow> i \<le> n"
    by (auto simp: gives_def)
  show ?thesis unfolding IsOutOfLineMethodDefinition_def r res_bind_simps by (intro oks; use assms r(2) in fastforce)
qed

lemma initializer_scan_total: "\<forall>i \<in> set is. i < length (cl_elided cl) \<Longrightarrow> returns (initializer_scan cl n is)"
  by (induction "is") (auto simp: Let_def split: option.split)

lemma after_colon_total: "\<forall>i \<in> set is. i < length (cl_elided cl) \<Longrightarrow> returns (after_colon cl is)"
  by (induction "is") auto

lemma joined_type_total:
  assumes "n < length (cl_elided cl)"
  shows "returns (joined_type cl n (cl_elided cl ! n))"
proof -
  have pos: "nat (py_rfind s (CHR ''>'')) < length s" if "py_rfind s (CHR ''>'') > -1" for s
    using py_rfind_bound [OF refl, of s "CHR ''>''"] that by linarith
  show ?thesis
    unfolding joined_type_def by (intro oks py_nth_prev_total; use assms pos in auto)
qed

lemma py_nth_back: "i < n \<Longrightarrow> n < length xs \<Longrightarrow> returns (py_nth xs (int n - int i - 1))"
  using returns_py_nth [of "n - i - 1" xs] by (simp add: of_nat_diff algebra_simps)

lemma whitelisted_total: "n < length (cl_elided cl) \<Longrightarrow> returns (whitelisted cl n line)"
  unfolding whitelisted_def by (intro oks py_nth_back; simp)

lemma unless_gives:
  "\<forall>b \<in> set reasons. returns b \<Longrightarrow> list_all P rs \<Longrightarrow> gives (list_all P) (unless reasons rs)"
  by (induction reasons) (auto elim!: returnsE)

interpretation references: line_check CheckForNonConstReference
proof (rule line_checkI)
  fix f cl n st assume ctx: "line_ctx cl n st"
  note facts = line_ctxD [OF ctx]
  have reports: "list_all (report_ok f (cl_num_lines cl)) (reference_reports f n line)" for line
    unfolding reference_reports_def by (intro oks; simp add: facts)
  have line: "py_nth (cl_elided cl) (int n) = Inr (cl_elided cl ! n)" using facts by simp
  have reasons: "returns (IsInitializerList cl n)" "returns (after_colon cl (rev [Suc (n - 10)..<n]))"
    unfolding IsInitializerList_def using facts(1) by (intro initializer_scan_total after_colon_total; auto)+
  show "gives (list_all (report_ok f (cl_num_lines cl))) (CheckForNonConstReference f cl n st)"
    unfolding CheckForNonConstReference_def line res_bind_simps
    by (intro oks joined_type_total unless_gives reports; use facts(1) reasons whitelisted_total in simp)
qed

lemma parameter_end_gives:
  assumes "lines_ok cl" "\<forall>i \<in> set is. i < length (cl_elided cl)"
  shows "returns (parameter_end cl col is)"
  using assms(2)
proof (induction "is" arbitrary: col)
  case (Cons i later)
  have pos: "col + length (grp m 1) < length l" if "Match ''^([^(]*)`('' (drop col l) = Some m" for m l
    using leads_pos [OF that function_start_leads(2)] by simp
  from Cons show ?case
    unfolding parameter_end.simps by (intro oks; simp add: pos del: One_nat_def)
qed simp

lemma specifiers_after_ok:
  "\<forall>i \<in> set is. i < length (cl_elided cl) \<Longrightarrow> n < num \<Longrightarrow> gives (list_all (report_ok f num)) (specifiers_after f cl n col is)"
proof (induction "is" arbitrary: col)
  case (Cons i later)
  then show ?case
    unfolding specifiers_after.simps by (intro bind_reports oks; simp)
qed simp

interpretation virtual: line_check "\<lambda>f cl n st. CheckRedundantVirtual f cl n"
proof (rule line_checkI)
  fix f cl n st assume ctx: "line_ctx cl n st"
  note facts = line_ctxD [OF ctx]
  show "gives (list_all (report_ok f (cl_num_lines cl))) (CheckRedundantVirtual f cl n)"
    unfolding CheckRedundantVirtual_def
    by (intro oks parameter_end_gives specifiers_after_ok; simp add: facts NumLines_def)
qed

section \<open>Casts at the end of a line\<close>

lemma CheckCStyleCast_ok [oks]:
  "n < length (cl_elided cl) \<Longrightarrow> n < num \<Longrightarrow> gives (list_all (report_ok f num)) (CheckCStyleCast f cl n t p)"
  unfolding CheckCStyleCast_def by (intro oks; simp)

lemma ExpectingFunctionArgs_total: "n < length (cl_elided cl) \<Longrightarrow> returns (ExpectingFunctionArgs cl n)"
proof -
  assume "n < length (cl_elided cl)"
  then have "returns (py_nth (cl_elided cl) (int n - 2))" if "\<not> n < 2"
    using returns_py_nth [of "n - 2" "cl_elided cl"] that by (simp add: of_nat_diff)
  with \<open>n < length (cl_elided cl)\<close> show ?thesis
    unfolding ExpectingFunctionArgs_def by (intro oks py_nth_prev_total; simp)
qed

text \<open>The template argument of the cast whose address is taken is closed by the last character of a line.\<close>

definition cast_ends_line :: "cleansed_lines \<Rightarrow> nat \<Rightarrow> string \<Rightarrow> bool" where
  "cast_ends_line cl n line \<longleftrightarrow>
     (case Match CAST_OPERATOR line of
        None \<Rightarrow> False
      | Some m \<Rightarrow>
          (case CloseExpression cl n (length (grp m 1)) of
             Inl _ \<Rightarrow> False
           | Inr (l, _, x) \<Rightarrow> x = int (length l)))"

lemma py_nth_length: "py_nth xs (int (length xs)) = Inl IndexError"
  by (simp add: py_nth_def)

lemma dereferenced_cast_result:
  assumes "lines_ok cl" "n < cl_num_lines cl" "line = cl_elided cl ! n"
  shows "if cast_ends_line cl n line then dereferenced_cast cl n line = Inl IndexError
    else returns (dereferenced_cast cl n line)"
proof (cases "Match CAST_OPERATOR line")
  case None
  then show ?thesis by (simp add: cast_ends_line_def dereferenced_cast_def)
next
  case (Some m)
  have len: "length (cl_elided cl) = cl_num_lines cl" using assms(1) by (simp add: lines_ok_def)
  from assms leads_pos [OF Some function_start_leads(3)] len obtain l y x where
    close: "CloseExpression cl n (length (grp m 1)) = Inr (l, y, x)"
    using CloseExpression_total [of n cl "length (grp m 1)"] by (auto elim!: returnsE)
  note bounds = CloseExpression_cases [OF close assms(1)]
  show ?thesis
  proof (cases "x = int (length l)")
    case True
    with bounds len have "y < length (cl_elided cl)" "l = cl_elided cl ! y" by auto
    with True show ?thesis by (simp add: cast_ends_line_def dereferenced_cast_def Some close py_nth_length del: One_nat_def)
  next
    case False
    have inner: "returns (dereferenced_cast cl n line)"
      unfolding dereferenced_cast_def Some option.case close res_bind_simps prod.case
    proof (intro returns_cases, goal_cases)
      case 1
      then have x: "y < cl_num_lines cl" "l = cl_elided cl ! y" "nat x < length l" "x = int (nat x)" using bounds False by auto
      obtain l2 y2 x2 where c2: "CloseExpression cl y (nat x) = Inr (l2, y2, x2)"
        using CloseExpression_total [of y cl "nat x"] x len by (auto elim!: returnsE)
      have next_line: "returns (py_nth (cl_elided cl) (int y2 + 1))" if "int y2 < int (NumLines cl) - 1"
        using returns_py_nth [of "y2 + 1" "cl_elided cl"] that len by (simp add: NumLines_def add.commute)
      have char: "returns (py_nth l x)" using returns_py_nth [OF x(3)] x(4) by simp
      from CloseExpression_cases [OF c2 assms(1)] x len next_line char show ?case
        by (intro oks; simp add: c2)
    qed
    with False show ?thesis by (simp add: cast_ends_line_def Some close del: One_nat_def)
  qed
qed

lemma conversion_cast_ok: "n < num \<Longrightarrow> conversion_cast f n line e = Some rs \<Longrightarrow> list_all (report_ok f num) rs"
  by (auto simp: conversion_cast_def Let_def flag_def split: option.splits if_splits)

lemma address_of_cast_result:
  assumes "lines_ok cl" "n < cl_num_lines cl" "line = cl_elided cl ! n"
  shows "if Search ADDRESS_OF_CAST line \<noteq> None \<and> cast_ends_line cl n line
    then address_of_cast f cl n line = Inl IndexError
    else gives (list_all (report_ok f (cl_num_lines cl))) (address_of_cast f cl n line)"
  using dereferenced_cast_result [OF assms] assms(2)
  by (auto simp: address_of_cast_def flag_def elim!: returnsE)

lemma CheckCasts_result:
  assumes ctx: "line_ctx cl n st" and e: "ExpectingFunctionArgs cl n = Inr expecting"
  shows "if conversion_cast f n (cl_elided cl ! n) expecting \<noteq> None \<and> Search ADDRESS_OF_CAST (cl_elided cl ! n) \<noteq> None \<and>
      cast_ends_line cl n (cl_elided cl ! n)
    then CheckCasts f cl n = Inl IndexError
    else gives (list_all (report_ok f (cl_num_lines cl))) (CheckCasts f cl n)"
proof -
  note facts = line_ctxD [OF ctx]
  have line: "py_nth (cl_elided cl) (int n) = Inr (cl_elided cl ! n)" using facts by simp
  note addr = address_of_cast_result [OF facts(6,5) refl, of f]
  obtain s c p where
    s: "CheckCStyleCast f cl n ''static_cast'' ''`((int|float|double|bool|char|u?int(16|32|64))`)'' = Inr s" "list_all (report_ok f (cl_num_lines cl)) s"
    and c: "CheckCStyleCast f cl n ''const_cast'' ''`((char`s?`*+`s?)`)`s*\"'' = Inr c" "list_all (report_ok f (cl_num_lines cl)) c"
    and p: "CheckCStyleCast f cl n ''reinterpret_cast'' ''`((`w+`s?`*+`s?)`)'' = Inr p" "list_all (report_ok f (cl_num_lines cl)) p"
    using CheckCStyleCast_ok [OF facts(1,5)] unfolding gives_def by metis
  show ?thesis
  proof (cases "conversion_cast f n (cl_elided cl ! n) expecting")
    case None
    then show ?thesis by (simp add: CheckCasts_def line e)
  next
    case (Some rs)
    with addr s(2) c(2) p(2) conversion_cast_ok [OF facts(5) Some] show ?thesis
      unfolding CheckCasts_def line e res_bind_simps Some option.case s(1) c(1) p(1)
      by (auto simp: gives_def)
  qed
qed

lemma flag_line: "list_all (\<lambda>r. r_line r = int n) (flag b f n c k msg)"
  by (simp add: flag_def)

lemma CheckCStyleCast_line: "yields (list_all (\<lambda>r. r_line r = int n)) (CheckCStyleCast f cl n t p)"
  unfolding CheckCStyleCast_def by (intro oks flag_line; simp)

lemma conversion_cast_line: "conversion_cast f n line e = Some rs \<Longrightarrow> list_all (\<lambda>r. r_line r = int n) rs"
  by (auto simp: conversion_cast_def Let_def flag_def split: option.splits if_splits)

lemma address_of_cast_line: "yields (list_all (\<lambda>r. r_line r = int n)) (address_of_cast f cl n line)"
  unfolding address_of_cast_def by (intro oks flag_line; simp add: flag_def)

lemma CheckCasts_line: "yields (list_all (\<lambda>r. r_line r = int n)) (CheckCasts f cl n)"
  unfolding CheckCasts_def
  by (intro oks; auto dest!: yieldsD [OF CheckCStyleCast_line] yieldsD [OF address_of_cast_line] conversion_cast_line split: if_splits)

interpretation casts: line_reports "\<lambda>f cl n st. CheckCasts f cl n"
proof unfold_locales
  fix cl n st f rs assume ctx: "line_ctx cl n st" and run: "CheckCasts f cl n = Inr rs"
  obtain e where "ExpectingFunctionArgs cl n = Inr e"
    using ExpectingFunctionArgs_total [OF line_ctxD(1)[OF ctx]] by (auto elim: returnsE)
  from CheckCasts_result [OF ctx this, of f] run show "list_all (report_ok f (cl_num_lines cl)) rs"
    by (auto split: if_splits)
qed

section \<open>Properties\<close>

text \<open>
  C11: The text inside a bracket is the text after it whose own brackets match and
  which the closing bracket of the same kind follows; the function finds it exactly when
  there is one.
\<close>
theorem text_inside_brackets:
  assumes "search_flags start_pattern txt = Some m" "txt = pre @ opening # rest" "m_end m = Suc (length pre)"
    and "closer opening = Some closing"
  shows "GetTextInside txt start_pattern = Inr (Some u) \<longleftrightarrow> brackets_match u \<and> (\<exists>v. rest = u @ closing # v)"
  using assms by (rule GetTextInside_iff)

theorem text_inside_brackets_witness:
  "GetTextInside ''printf(a(), b[c()]); f()'' PRINTF_CALL = Inr (Some ''a(), b[c()]'') \<and> brackets_match ''a(), b[c()]''"
proof -
  let ?s = "''printf(a(), b[c()]); f()''"
  have "map_option m_end (search_flags PRINTF_CALL ?s) = Some 7" by code_simp
  then obtain m where m: "search_flags PRINTF_CALL ?s = Some m" "m_end m = Suc (length ''printf'')" by auto
  have split: "?s = ''printf'' @ CHR ''('' # ''a(), b[c()]); f()''" by simp
  have closer: "closer (CHR ''('') = Some (CHR '')'')" by (simp add: closer.simps)
  have run: "GetTextInside ?s PRINTF_CALL = Inr (Some ''a(), b[c()]'')" by code_simp
  from text_inside_brackets [OF m(1) split m(2) closer, of "''a(), b[c()]''"] run show ?thesis by blast
qed

text \<open>
  C22: The check of casts raises on exactly the lines where the address of a cast operator is
  taken and the bracket that closes its template argument is the last character of a line
  (unless an array of a basic type ends the check before); on every other line it returns,
  and every report it gives is about this file and this very line, with a known category and
  a confidence from 0 to 5.
\<close>
theorem cast_check_raises:
  assumes "line_ctx cl n st" "ExpectingFunctionArgs cl n = Inr expecting"
  shows "if conversion_cast f n (cl_elided cl ! n) expecting \<noteq> None \<and> Search ADDRESS_OF_CAST (cl_elided cl ! n) \<noteq> None \<and>
      cast_ends_line cl n (cl_elided cl ! n)
    then CheckCasts f cl n = Inl IndexError
    else gives (list_all (\<lambda>r. report_ok f (cl_num_lines cl) r \<and> r_line r = int n)) (CheckCasts f cl n)"
  using CheckCasts_result [OF assms, of f] CheckCasts_line [of n f cl]
  by (auto simp: gives_def yields_def list_all_iff)

definition demo_cast :: "string list" where
  "demo_cast = [''// c'', ''  Foo** p = &static_cast<Foo*>'', ''      (q);'', ''// c'']"

theorem cast_check_raises_witness:
  "\<exists>cl. CleansedLines demo_cast = Inr cl \<and> CheckCasts ''a.cc'' cl 1 = Inl IndexError"
proof -
  have "case CleansedLines demo_cast of Inl _ \<Rightarrow> False | Inr cl \<Rightarrow>
      ExpectingFunctionArgs cl 1 = Inr False \<and> conversion_cast ''a.cc'' 1 (cl_elided cl ! 1) False \<noteq> None \<and>
      Search ADDRESS_OF_CAST (cl_elided cl ! 1) \<noteq> None \<and> cast_ends_line cl 1 (cl_elided cl ! 1)"
    by code_simp
  then obtain cl where cl: "CleansedLines demo_cast = Inr cl" "ExpectingFunctionArgs cl 1 = Inr False"
    and bad: "conversion_cast ''a.cc'' 1 (cl_elided cl ! 1) False \<noteq> None \<and>
      Search ADDRESS_OF_CAST (cl_elided cl ! 1) \<noteq> None \<and> cast_ends_line cl 1 (cl_elided cl ! 1)"
    by (auto split: sum.splits)
  have "line_ctx cl 1 NestingState"
    using CleansedLines_full [OF cl(1)] starts_ok_init by (simp add: line_ctx_def demo_cast_def)
  from cast_check_raises [OF this cl(2), of "''a.cc''"] bad cl(1) show ?thesis by metis
qed

end
