(* ===== verification/Language.thy ===== *)
theory Language
  imports Casts "HOL-Library.AList" "HOL-Library.Multiset"
begin

text \<open>
  Includes and the language rules (\<open>scripts/cpplint.py\<close>: \<open>CheckIncludeLine\<close>,
  \<open>CheckLanguage\<close>, the tables of standard headers, \<open>UpdateIncludeState\<close>,
  \<open>CheckForIncludeWhatYouUse\<close>). The state of the includes is passed along and returned with
  the reports. A dictionary is an association list; the order in which the interpreter
  walks through one is a function \<open>order\<close>, an argument of the check, of which only
  \<open>permutes\<close> is known: it rearranges the keys.
\<close>

section \<open>Include lines\<close>

definition THIRD_PARTY_HEADERS_PATTERN :: string where
  "THIRD_PARTY_HEADERS_PATTERN = ''^(?:[^/]*[A-Z][^/]*`.h|lua`.h|lauxlib`.h|lualib`.h)$''"

definition add_include :: "string \<Rightarrow> nat \<Rightarrow> include_state \<Rightarrow> include_state res" where
  "add_include include linenum st =
     (if include_list st = [] then Inl IndexError
      else Inr (st\<lparr>include_list := butlast (include_list st) @ [last (include_list st) @ [(include, int linenum)]]\<rparr>))"

definition include_order ::
  "os_env \<Rightarrow> string \<Rightarrow> cleansed_lines \<Rightarrow> nat \<Rightarrow> string \<Rightarrow> bool \<Rightarrow> include_state \<Rightarrow> (include_state \<times> report list) res" where
  "include_order env filename clean_lines linenum include is_system st =
     res_bind (add_include include linenum st) (\<lambda>st1.
     res_bind (ClassifyInclude env filename include is_system) (\<lambda>header_type.
       (let (st2, error_message) = CheckNextIncludeOrder header_type st1
        in res_bind (if error_message = [] then Inr []
                     else res_bind (BaseName env filename) (\<lambda>base.
                       Inr (flag True filename linenum ''build/include_order'' 4
                         (error_message @ ''. Should be: '' @ base @ ''.h, c system, c++ system, other.'')))) (\<lambda>misplaced.
           (let canonical_include = CanonicalizeAlphabeticalOrder include
            in res_bind (IsInAlphabeticalOrder (cl_elided clean_lines) (int linenum) canonical_include st2) (\<lambda>in_order.
                 Inr (SetLastHeader canonical_include st2,
                      misplaced @ flag (\<not> in_order) filename linenum ''build/include_alpha'' 4
                        (''Include \"'' @ include @ ''\" not in alphabetical order''))))))))"

definition CheckIncludeLine ::
  "os_env \<Rightarrow> string \<Rightarrow> cleansed_lines \<Rightarrow> nat \<Rightarrow> include_state \<Rightarrow> (include_state \<times> report list) res" where
  "CheckIncludeLine env filename clean_lines linenum st =
     res_bind (py_nth (cl_lines clean_lines) (int linenum)) (\<lambda>line.
       (let directory =
              (case Match ''#include`s*\"([^/]+`.h)\"'' line of
                 None \<Rightarrow> []
               | Some m \<Rightarrow> flag (Match THIRD_PARTY_HEADERS_PATTERN (grp m 1) = None) filename linenum ''build/include'' 4
                             ''Include the directory when naming .h files'')
        in (case Search RE_PATTERN_INCLUDE line of
              None \<Rightarrow> Inr (st, directory)
            | Some matched \<Rightarrow>
                (let include = grp matched 2;
                     is_system = (grp matched 1 = ''<'');
                     duplicate_line = FindHeader include st
                 in if duplicate_line \<ge> 0
                    then Inr (st, directory @ flag True filename linenum ''build/include'' 4
                           (''\"'' @ include @ ''\" already included at '' @ filename @ '':'' @ int_str duplicate_line))
                    else
                      res_bind (if endswith include ''.cc''
                                then res_bind (repository_name env filename) (\<lambda>name. Inr (dirname name \<noteq> dirname include))
                                else Inr False) (\<lambda>other_package.
                        if other_package
                        then Inr (st, directory @ flag True filename linenum ''build/include'' 4
                               ''Do not include .cc files from other packages'')
                        else if Match THIRD_PARTY_HEADERS_PATTERN include \<noteq> None then Inr (st, directory)
                        else res_bind (include_order env filename clean_lines linenum include is_system st) (\<lambda>(st', rs).
                               Inr (st', directory @ rs)))))))"

section \<open>Language rules\<close>

definition basic_types :: "string \<Rightarrow> nat \<Rightarrow> string \<Rightarrow> report list" where
  "basic_types filename linenum line =
     (if Search ''`bshort port`b'' line \<noteq> None
      then flag (Search ''`bunsigned short port`b'' line = None) filename linenum ''runtime/int'' 4
             ''Use \"unsigned short\" for ports, not \"short\"''
      else (case Search ''`b(short|long(?! +double)|long long)`b'' line of
              None \<Rightarrow> []
            | Some m \<Rightarrow> flag True filename linenum ''runtime/int'' 4
                (''Use int16/int64/etc, rather than the C type '' @ grp m 1)))"

definition format_string :: "string \<Rightarrow> nat \<Rightarrow> string \<Rightarrow> report list res" where
  "format_string filename linenum line =
     res_bind (GetTextInside line PRINTF_CALL) (\<lambda>printf_args.
       (case printf_args of
          None \<Rightarrow> Inr []
        | Some args \<Rightarrow>
            (if args = [] then Inr []
             else
               (case Match ''([`w.`->()]+)$'' args of
                  None \<Rightarrow> Inr []
                | Some m \<Rightarrow>
                    (if grp m 1 = ''__VA_ARGS__'' then Inr []
                     else
                       (case SearchI ''`b((?:string)?printf)`s*`('' line of
                          None \<Rightarrow> Inl AttributeError
                        | Some call \<Rightarrow>
                            Inr (flag True filename linenum ''runtime/printf'' 4
                              (''Potential format string bug. Do '' @ grp call 1 @ ''(\"%s\", '' @ grp m 1 @ '') instead.'')))))))) "

text \<open>Whether all tokens of the size of an array are compile-time constants; the flag skips a token.\<close>

fun constant_size :: "bool \<Rightarrow> string list \<Rightarrow> bool" where
  "constant_size skip_next [] \<longleftrightarrow> True"
| "constant_size skip_next (token # tokens) \<longleftrightarrow>
     (if skip_next then constant_size False tokens
      else if Search ''sizeof`(.+`)'' token \<noteq> None \<or> Search ''arraysize`(`w+`)'' token \<noteq> None
      then constant_size False tokens
      else
        (let tok = rstrip_set '')'' (lstrip_set ''('' token)
         in if tok = [] \<or> Match ''`d+'' tok \<noteq> None \<or> Match ''0[xX][0-9a-fA-F]+'' tok \<noteq> None \<or>
               Match ''k[A-Z0-9]`w*'' tok \<noteq> None \<or> Match ''(.+::)?k[A-Z0-9]`w*'' tok \<noteq> None \<or>
               Match ''(.+::)?[A-Z][A-Z0-9_]*'' tok \<noteq> None
            then constant_size False tokens
            else if startswith tok ''sizeof'' then constant_size True tokens
            else False))"

definition variable_array :: "string \<Rightarrow> nat \<Rightarrow> string \<Rightarrow> report list" where
  "variable_array filename linenum line =
     (case Match ''`s*(.+::)?(`w+) [a-z]`w*`[(.+)];'' line of
        None \<Rightarrow> []
      | Some m \<Rightarrow>
          flag (grp m 2 \<noteq> ''return'' \<and> grp m 2 \<noteq> ''delete'' \<and> py_find (grp m 3) '']'' = -1 \<and>
                \<not> constant_size False (re_split ''`s|`+|`-|`*|`/|<<|>>]'' (grp m 3)))
            filename linenum ''runtime/arrays'' 1
            (''Do not use variable-length arrays.  Use an appropriately named '' @
             ''('' @ [sq] @ ''k'' @ [sq] @ '' followed by CamelCase) compile-time constant for the size.''))"

definition language_rules :: "string \<Rightarrow> string \<Rightarrow> nat \<Rightarrow> string \<Rightarrow> report list res" where
  "language_rules file_extension filename linenum line =
     res_bind (format_string filename linenum line) (\<lambda>format.
       Inr (
         basic_types filename linenum line @
         flag (Search ''`boperator`s*&`s*`(`s*`)'' line \<noteq> None) filename linenum ''runtime/operator'' 4
           ''Unary operator& is dangerous.  Do not use it.'' @
         flag (Search ''`}`s*if`s*`('' line \<noteq> None) filename linenum ''readability/braces'' 4
           ''Did you mean \"else if\"? If not, start a new line for \"if\".'' @
         format @
         (case Search ''memset`s*`(([^,]*),`s*([^,]*),`s*0`s*`)'' line of
            None \<Rightarrow> []
          | Some m \<Rightarrow>
              flag (Match (''^'' @ [sq, sq] @ ''|-?[0-9]+|0x[0-9A-Fa-f]$'') (grp m 2) = None) filename linenum ''runtime/memset'' 4
                (''Did you mean \"memset('' @ grp m 1 @ '', 0, '' @ grp m 2 @ '')\"?'')) @
         flag (Search ''`busing namespace`b'' line \<noteq> None) filename linenum ''build/namespaces'' 5
           (''Do not use namespace using-directives.  '' @ ''Use using-declarations instead.'') @
         variable_array filename linenum line @
         flag (file_extension = ''h'' \<and> Search ''`bnamespace`s*{'' line \<noteq> None \<and> last line \<noteq> bsl)
           filename linenum ''build/namespaces'' 4
           (''Do not use unnamed namespaces in header files.  See '' @
            ''https://google-styleguide.googlecode.com/svn/trunk/cppguide.xml#Namespaces'' @ '' for more information.'')))"

definition CheckLanguage ::
  "os_env \<Rightarrow> string \<Rightarrow> string \<Rightarrow> cleansed_lines \<Rightarrow> nat \<Rightarrow> include_state \<Rightarrow> (include_state \<times> report list) res" where
  "CheckLanguage env file_extension filename clean_lines linenum st =
     res_bind (py_nth (cl_elided clean_lines) (int linenum)) (\<lambda>line.
       if line = [] then Inr (st, [])
       else if Search RE_PATTERN_INCLUDE line \<noteq> None then CheckIncludeLine env filename clean_lines linenum st
       else
         res_bind (case Match ''^`s*#`s*(if|ifdef|ifndef|elif|else|endif)`b'' line of
                     None \<Rightarrow> Inr st | Some m \<Rightarrow> ResetSection (grp m 1) st) (\<lambda>st'.
         res_bind (CheckCasts filename clean_lines linenum) (\<lambda>casts.
         res_bind (CheckGlobalStatic filename clean_lines linenum) (\<lambda>statics.
         res_bind (CheckPrintf filename clean_lines linenum) (\<lambda>printfs.
         res_bind (language_rules file_extension filename linenum line) (\<lambda>rules.
           Inr (st', casts @ statics @ printfs @ rules)))))))"

section \<open>Include what you use\<close>

definition HEADERS_CONTAINING_TEMPLATES :: "(string \<times> string list) list" where
  "HEADERS_CONTAINING_TEMPLATES =
     [(''<deque>'', [''deque'']),
      (''<functional>'', [''unary_function'', ''binary_function'', ''plus'', ''minus'', ''multiplies'', ''divides'', ''modulus'',
         ''negate'', ''equal_to'', ''not_equal_to'', ''greater'', ''less'', ''greater_equal'', ''less_equal'',
         ''logical_and'', ''logical_or'', ''logical_not'', ''unary_negate'', ''not1'', ''binary_negate'', ''not2'',
         ''bind1st'', ''bind2nd'', ''pointer_to_unary_function'', ''pointer_to_binary_function'', ''ptr_fun'',
         ''mem_fun_t'', ''mem_fun'', ''mem_fun1_t'', ''mem_fun1_ref_t'', ''mem_fun_ref_t'',
         ''const_mem_fun_t'', ''const_mem_fun1_t'', ''const_mem_fun_ref_t'', ''const_mem_fun1_ref_t'', ''mem_fun_ref'']),
      (''<limits>'', [''numeric_limits'']),
      (''<list>'', [''list'']),
      (''<map>'', [''map'', ''multimap'']),
      (''<memory>'', [''allocator'']),
      (''<queue>'', [''queue'', ''priority_queue'']),
      (''<set>'', [''set'', ''multiset'']),
      (''<stack>'', [''stack'']),
      (''<string>'', [''char_traits'', ''basic_string'']),
      (''<tuple>'', [''tuple'']),
      (''<utility>'', [''pair'']),
      (''<vector>'', [''vector'']),
      (''<hash_map>'', [''hash_map'', ''hash_multimap'']),
      (''<hash_set>'', [''hash_set'', ''hash_multiset'']),
      (''<slist>'', [''slist''])]"

definition HEADERS_MAYBE_TEMPLATES :: "(string \<times> string list) list" where
  "HEADERS_MAYBE_TEMPLATES =
     [(''<algorithm>'', [''copy'', ''max'', ''min'', ''min_element'', ''sort'', ''transform'']),
      (''<utility>'', [''swap''])]"

definition patterns_headers_maybe_templates :: "(string \<times> string \<times> string) list" where
  "patterns_headers_maybe_templates =
     concat (map (\<lambda>(header, templates). map (\<lambda>template.
       (''[^>.]`b'' @ template @ ''(<.*?>)?`([^`)]'', template, header)) templates) HEADERS_MAYBE_TEMPLATES)"

definition patterns_templates :: "(string \<times> string \<times> string) list" where
  "patterns_templates =
     concat (map (\<lambda>(header, templates). map (\<lambda>template.
       (''(`<|`b)'' @ template @ ''`s*`<'', template @ ''<>'', header)) templates) HEADERS_CONTAINING_TEMPLATES)"

definition found_in :: "(string \<times> string \<times> string) list \<Rightarrow> string \<Rightarrow> (string \<times> string) list" where
  "found_in patterns line =
     map (\<lambda>(_, template, header). (header, template)) (filter (\<lambda>(pattern, _, _). Search pattern line \<noteq> None) patterns)"

text \<open>The headers a line requires, with the name that requires each, in the order of the assignments.\<close>

definition line_needs :: "string \<Rightarrow> (string \<times> string) list" where
  "line_needs line =
     (if line = [] \<or> hd line = CHR ''#'' then []
      else
        (case Search ''`bstring`b'' line of
           None \<Rightarrow> []
         | Some matched \<Rightarrow>
             (let before = take (m_start matched) line
              in if endswith before ''std::'' \<or> \<not> endswith before ''::'' then [(''<string>'', ''string'')] else [])) @
        found_in patterns_headers_maybe_templates line @
        (if contains line ''<'' then found_in patterns_templates line else []))"

definition dict_of :: "('k \<times> 'v) list \<Rightarrow> ('k \<times> 'v) list" where
  "dict_of items = fold (\<lambda>(k, v). AList.update k v) items []"

definition required_headers :: "cleansed_lines \<Rightarrow> (string \<times> nat \<times> string) list res" where
  "required_headers clean_lines =
     res_bind (map_res (\<lambda>i. py_nth (cl_elided clean_lines) (int i)) [0..<NumLines clean_lines]) (\<lambda>ls.
       Inr (dict_of (concat (map (\<lambda>(i, l). map (\<lambda>(header, template). (header, i, template)) (line_needs l)) (enumerate 0 ls)))))"

text \<open>The lines of a file that is read line by line, with their ends.\<close>

definition line_break :: "char \<Rightarrow> bool" where
  "line_break c \<longleftrightarrow> ord_of c \<in> {10, 11, 12, 13, 28, 29, 30, 133}"

fun splitlines :: "string \<Rightarrow> string \<Rightarrow> string list" where
  "splitlines w [] = (if w = [] then [] else [rev w])"
| "splitlines w (c # s) =
     (if c = CHR 0x0D \<and> startswith s [nl] then splitlines (c # w) s
      else if line_break c then rev (c # w) # splitlines [] s
      else splitlines (c # w) s)"

definition setdefault :: "'k \<Rightarrow> 'v \<Rightarrow> ('k \<times> 'v) list \<Rightarrow> ('k \<times> 'v) list" where
  "setdefault k v d = (if k \<in> fst ` set d then d else d @ [(k, v)])"

definition UpdateIncludeState :: "os_env \<Rightarrow> string \<Rightarrow> (string \<times> int) list \<Rightarrow> bool \<times> (string \<times> int) list" where
  "UpdateIncludeState env filename include_dict =
     (case read_file env filename of
        None \<Rightarrow> (False, include_dict)
      | Some content \<Rightarrow>
          (True, fold (\<lambda>(linenum, line) d.
             (case Search RE_PATTERN_INCLUDE (CleanseComments line) of
                None \<Rightarrow> d
              | Some m \<Rightarrow> setdefault (grp m 2) (int linenum) d)) (enumerate 1 (splitlines [] content)) include_dict))"

fun scan_headers ::
  "os_env \<Rightarrow> string \<Rightarrow> string list \<Rightarrow> bool \<Rightarrow> (string \<times> int) list \<Rightarrow> (bool \<times> (string \<times> int) list) res" where
  "scan_headers env abs_filename [] header_found include_dict = Inr (header_found, include_dict)"
| "scan_headers env abs_filename (header # headers) header_found include_dict =
     res_bind (FilesBelongToSameModule env abs_filename header) (\<lambda>(same_module, common_path).
       if same_module
       then (let (updated, include_dict') = UpdateIncludeState env (common_path @ header) include_dict
             in scan_headers env abs_filename headers (header_found \<or> updated) include_dict')
       else scan_headers env abs_filename headers header_found include_dict)"

definition CheckForIncludeWhatYouUse ::
  "os_env \<Rightarrow> (string list \<Rightarrow> string list) \<Rightarrow> string \<Rightarrow> cleansed_lines \<Rightarrow> include_state \<Rightarrow> report list res" where
  "CheckForIncludeWhatYouUse env order filename clean_lines st =
     res_bind (required_headers clean_lines) (\<lambda>required.
       (let include_dict = dict_of (concat (include_list st));
            abs_filename = ReplaceAll ''_flymake`.cc$'' ''.cc'' (FullName env filename)
        in res_bind (scan_headers env abs_filename (order (map fst include_dict)) False include_dict) (\<lambda>(header_found, include_dict').
             if endswith filename ''.cc'' \<and> \<not> header_found then Inr []
             else Inr (concat (map (\<lambda>header.
               (case map_of required header of
                  None \<Rightarrow> []
                | Some (linenum, template) \<Rightarrow>
                    flag (rstrip_set ''<>\"'' (lstrip_set ''<>\"'' header) \<notin> fst ` set include_dict') filename linenum
                      ''build/include_what_you_use'' 4 (''Add #include '' @ header @ '' for '' @ template)))
               (order (map fst required)))))))"

definition permutes :: "('a list \<Rightarrow> 'a list) \<Rightarrow> bool" where
  "permutes order \<longleftrightarrow> (\<forall>xs. mset (order xs) = mset xs)"

section \<open>Format strings\<close>

text \<open>
  The pattern that names the function in the report matches wherever the pattern that found
  the call does, so that the report can be made.
\<close>

definition either_case :: "char \<Rightarrow> re" where "either_case c = ignore_case (Chr c)"

primrec letters :: "string \<Rightarrow> re \<Rightarrow> re" where
  "letters [] r = r"
| "letters (c # w) r = Seq (either_case c) (letters w r)"

definition same_letter :: "char \<Rightarrow> char \<Rightarrow> bool" where
  "same_letter c = in_set False [CChr c, CChr (upper_chr c), CChr (if ord_of c < 128 then lower_chr c else c)]"

lemma ms_either_mem:
  "y \<in> set (ms (either_case c) (b, a, g)) \<longleftrightarrow> (\<exists>d a'. same_letter c d \<and> a = d # a' \<and> y = (d # b, a', g))"
  unfolding either_case_def ignore_case.simps ms_Cls_mem same_letter_def ..

lemma ms_SeqE:
  assumes "y \<in> set (ms (Seq p q) x)"
  obtains b a g where "(b, a, g) \<in> set (ms p x)" "y \<in> set (ms q (b, a, g))"
  using assms unfolding ms_Seq_mem by blast

lemma ms_lettersE:
  assumes "y \<in> set (ms (letters w r) (b, a, g))"
  obtains u a' where "a = u @ a'" "list_all2 same_letter w u" "y \<in> set (ms r (rev u @ b, a', g))"
  using assms
proof (induction w arbitrary: b a thesis)
  case (Cons c w)
  from Cons.prems(2) obtain d a1 where d: "same_letter c d" "a = d # a1" "y \<in> set (ms (letters w r) (d # b, a1, g))"
    unfolding letters.simps by (elim ms_SeqE) (auto simp only: ms_either_mem)
  from Cons.IH [OF _ d(3)] obtain u a' where u: "a1 = u @ a'" "list_all2 same_letter w u" "y \<in> set (ms r (rev u @ d # b, a', g))"
    by metis
  show ?case by (rule Cons.prems(1)[of "d # u" a']) (use d u in simp_all)
qed simp

lemma ms_lettersI:
  "list_all2 same_letter w u \<Longrightarrow> y \<in> set (ms r (rev u @ b, a', g)) \<Longrightarrow> y \<in> set (ms (letters w r) (b, u @ a', g))"
proof (induction w u arbitrary: b rule: list_all2_induct)
  case (Cons c w d u)
  have "(d # b, u @ a', g) \<in> set (ms (either_case c) (b, (d # u) @ a', g))" using Cons.hyps by (simp add: ms_either_mem)
  from ms_SeqI [OF this Cons.IH [of "d # b"]] Cons.prems show ?case by simp
qed simp

lemma ms_wordI:
  "list_all2 same_letter w v \<Longrightarrow> same_letter c d \<Longrightarrow>
     (rev (v @ [d]) @ b, a, g) \<in> set (ms (letters w (either_case c)) (b, (v @ [d]) @ a, g))"
  using ms_lettersI [of w v "(d # rev v @ b, a, g)" "either_case c" b "d # a" g] by (simp add: ms_either_mem)

lemma printf_trees:
  "map_option ignore_case (compile (bs ''`b(string)?printf`s*`('')) =
     Some (Seq WordB (Seq (Alt (Seq (Grp 1 (letters ''strin'' (either_case (CHR ''g'')))) Eps) Eps)
       (letters ''printf'' (Seq (Star True (Cls False [CSpace])) (either_case (CHR ''(''))))))"
  "map_option ignore_case (compile (bs ''`b((?:string)?printf)`s*`('')) =
     Some (Seq WordB (Seq (Grp 1 (Seq (Alt (Seq (letters ''strin'' (either_case (CHR ''g''))) Eps) Eps) (letters ''print'' (either_case (CHR ''f'')))))
       (Seq (Star True (Cls False [CSpace])) (either_case (CHR ''('')))))"
  by code_simp+

lemma re_search_iff: "re_search r s \<noteq> None \<longleftrightarrow> (\<exists>u v. s = u @ v \<and> (\<exists>y. y \<in> set (ms r (rev u, v, []))))"
proof -
  have "match_at r x = None \<longleftrightarrow> \<not> (\<exists>y. y \<in> set (ms r x))" for x
    by (cases "ms r x") (auto simp: match_at_def)
  then show ?thesis unfolding re_search_def search_from_None by simp
qed

lemma list_all2_snoc: "list_all2 P (w @ [c]) u \<longleftrightarrow> (\<exists>v d. u = v @ [d] \<and> list_all2 P w v \<and> P c d)"
proof -
  have "list_all2 P (w @ [c]) u \<longleftrightarrow> (\<exists>d v. rev u = d # v \<and> P c d \<and> list_all2 P (rev w) v)"
    using list_all2_rev [of P "w @ [c]" u] by (simp add: list_all2_Cons1)
  then show ?thesis by (metis list_all2_rev rev.simps(2) rev_rev_ident)
qed

lemma spelled_words:
  "list_all2 same_letter ''printf'' u \<longleftrightarrow> (\<exists>v d. u = v @ [d] \<and> list_all2 same_letter ''print'' v \<and> same_letter (CHR ''f'') d)"
  "list_all2 same_letter ''string'' u \<longleftrightarrow> (\<exists>v d. u = v @ [d] \<and> list_all2 same_letter ''strin'' v \<and> same_letter (CHR ''g'') d)"
  using list_all2_snoc [of same_letter "''print''"] list_all2_snoc [of same_letter "''strin''"] by simp_all

definition call_of_printf :: "string \<Rightarrow> string \<Rightarrow> bool" where
  "call_of_printf b a \<longleftrightarrow> at_word b \<noteq> at_word a \<and> (\<exists>s p sp d rest. a = s @ p @ sp @ d # rest \<and>
     (s = [] \<or> list_all2 same_letter ''string'' s) \<and> list_all2 same_letter ''printf'' p \<and>
     list_all (in_set False [CSpace]) sp \<and> same_letter (CHR ''('') d)"

lemma printf_match_inv:
  assumes "y \<in> set (ms (Seq WordB (Seq (Alt (Seq (Grp 1 (letters ''strin'' (either_case (CHR ''g'')))) Eps) Eps)
       (letters ''printf'' (Seq (Star True (Cls False [CSpace])) (either_case (CHR ''('')))))) (b, a, g))"
  shows "call_of_printf b a"
proof -
  from assms obtain b1 a1 g1 where word: "at_word b \<noteq> at_word a"
    and s: "(b1, a1, g1) \<in> set (ms (Alt (Seq (Grp 1 (letters ''strin'' (either_case (CHR ''g'')))) Eps) Eps) (b, a, g))"
    and rest: "y \<in> set (ms (letters ''printf'' (Seq (Star True (Cls False [CSpace])) (either_case (CHR ''('')))) (b1, a1, g1))"
    by (elim ms_SeqE) (auto simp only: ms_at_mem)
  have "\<exists>s. a = s @ a1 \<and> (s = [] \<or> list_all2 same_letter ''string'' s)"
    using s unfolding ms_Alt_mem
  proof
    assume "(b1, a1, g1) \<in> set (ms (Seq (Grp 1 (letters ''strin'' (either_case (CHR ''g'')))) Eps) (b, a, g))"
    then obtain b2 g2 where "(b2, a1, g2) \<in> set (ms (letters ''strin'' (either_case (CHR ''g''))) (b, a, g))"
      by (elim ms_SeqE) (auto simp only: ms_at_mem ms_Grp_mem)
    then obtain u d where "a = (u @ [d]) @ a1" "list_all2 same_letter ''strin'' u" "same_letter (CHR ''g'') d"
      by (elim ms_lettersE) (auto simp only: ms_either_mem append_assoc append.simps)
    then show ?thesis unfolding spelled_words by blast
  qed (simp add: ms_at_mem)
  moreover from rest have "\<exists>p sp d rest. a1 = p @ sp @ d # rest \<and> list_all2 same_letter ''printf'' p \<and>
      list_all (in_set False [CSpace]) sp \<and> same_letter (CHR ''('') d"
    by (elim ms_lettersE ms_SeqE) (auto simp only: ms_Star_Cls_mem ms_either_mem)
  ultimately show ?thesis unfolding call_of_printf_def using word by fastforce
qed

lemma printf_match_exists:
  assumes "call_of_printf b a"
  shows "\<exists>y. y \<in> set (ms (Seq WordB (Seq (Grp 1 (Seq (Alt (Seq (letters ''strin'' (either_case (CHR ''g''))) Eps) Eps) (letters ''print'' (either_case (CHR ''f'')))))
       (Seq (Star True (Cls False [CSpace])) (either_case (CHR ''(''))))) (b, a, g))"
proof -
  from assms obtain s p sp d rest where word: "at_word b \<noteq> at_word a" and a: "a = s @ p @ sp @ d # rest"
    and s: "s = [] \<or> list_all2 same_letter ''string'' s" and p: "list_all2 same_letter ''printf'' p"
    and sp: "list_all (in_set False [CSpace]) sp" and d: "same_letter (CHR ''('') d"
    unfolding call_of_printf_def by blast
  let ?S = "Alt (Seq (letters ''strin'' (either_case (CHR ''g''))) Eps) Eps"
  have "(rev s @ b, p @ sp @ d # rest, g) \<in> set (ms ?S (b, a, g))"
  proof (cases "s = []")
    case False
    with s obtain v c where v: "s = v @ [c]" "list_all2 same_letter ''strin'' v" "same_letter (CHR ''g'') c"
      unfolding spelled_words by blast
    from ms_SeqI [OF ms_wordI [OF v(2,3)], of _ Eps] show ?thesis unfolding a v(1) ms_Alt_mem ms_at_mem by blast
  qed (simp add: a ms_Alt_mem ms_at_mem)
  moreover have "(rev p @ rev s @ b, sp @ d # rest, g) \<in> set (ms (letters ''print'' (either_case (CHR ''f''))) (rev s @ b, p @ sp @ d # rest, g))"
    using p ms_wordI unfolding spelled_words by blast
  ultimately have "(rev p @ rev s @ b, sp @ d # rest, g) \<in> set (ms (Seq ?S (letters ''print'' (either_case (CHR ''f'')))) (b, a, g))"
    by (rule ms_SeqI)
  then obtain g' where "(rev p @ rev s @ b, sp @ d # rest, g') \<in> set (ms (Grp 1 (Seq ?S (letters ''print'' (either_case (CHR ''f''))))) (b, a, g))"
    unfolding ms_Grp_mem by blast
  moreover have "(d # rev sp @ rev p @ rev s @ b, rest, g') \<in> set (ms (Seq (Star True (Cls False [CSpace])) (either_case (CHR ''('')))
      (rev p @ rev s @ b, sp @ d # rest, g'))"
    using sp d by (intro ms_SeqI [of "(rev sp @ rev p @ rev s @ b, d # rest, g')"]) (auto simp only: ms_Star_Cls_mem ms_either_mem)
  ultimately show ?thesis using word by (blast intro: ms_SeqI ms_at_mem(4) [THEN iffD2])
qed

lemma SearchI_iff:
  assumes "map_option ignore_case (compile (bs p)) = Some t"
  shows "SearchI p s \<noteq> None \<longleftrightarrow> (\<exists>u v. s = u @ v \<and> (\<exists>y. y \<in> set (ms t (rev u, v, []))))"
  using assms unfolding SearchI_def re_search_iff [symmetric] by (cases "compile (bs p)") simp_all

lemma printf_named:
  assumes "SearchI ''`b(string)?printf`s*`('' s \<noteq> None"
  shows "SearchI ''`b((?:string)?printf)`s*`('' s \<noteq> None"
  using assms unfolding SearchI_iff [OF printf_trees(1)] SearchI_iff [OF printf_trees(2)]
  by (blast dest: printf_match_inv intro: printf_match_exists)

section \<open>The language rules return\<close>

lemma format_string_ok:
  assumes "n < num"
  shows "gives (list_all (report_ok f num)) (format_string f n line)"
proof (cases "SearchI ''`b((?:string)?printf)`s*`('' line")
  case None
  then have "SearchI ''`b(string)?printf`s*`('' line = None" using printf_named by blast
  then have "search_flags PRINTF_CALL line = None" by (simp add: search_flags_def PRINTF_CALL_def startswith_def)
  then show ?thesis by (simp add: format_string_def GetTextInside_def)
next
  case (Some m)
  show ?thesis unfolding format_string_def by (intro oks GetTextInside_printf; simp add: Some assms)
qed

lemma basic_types_ok [oks]: "n < num \<Longrightarrow> list_all (report_ok f num) (basic_types f n line)"
  unfolding basic_types_def by (intro oks; simp)

lemma variable_array_ok [oks]: "n < num \<Longrightarrow> list_all (report_ok f num) (variable_array f n line)"
  unfolding variable_array_def by (intro oks; simp)

lemma language_rules_ok [oks]:
  "n < num \<Longrightarrow> gives (list_all (report_ok f num)) (language_rules ext f n line)"
  unfolding language_rules_def by (intro bind_reports format_string_ok oks; simp)

text \<open>The includes of a file: there is always a list for the branch being read.\<close>

definition includes_ok :: "include_state \<Rightarrow> bool" where "includes_ok st \<longleftrightarrow> include_list st \<noteq> []"

definition step_ok :: "string \<Rightarrow> nat \<Rightarrow> include_state \<times> report list \<Rightarrow> bool" where
  "step_ok f num = (\<lambda>(st, rs). includes_ok st \<and> list_all (report_ok f num) rs)"

lemma ResetSection_ok:
  "includes_ok st \<Longrightarrow> gives includes_ok (ResetSection d st)"
  by (simp add: ResetSection_def Let_def includes_ok_def)

lemma ClassifyInclude_total: "no_svn_at_root env \<Longrightarrow> returns (ClassifyInclude env f i s)"
  unfolding ClassifyInclude_def by (intro oks repository_name_total) (auto split: prod.split option.split)

lemma include_order_ok:
  assumes "line_ctx cl n ns" "includes_ok st" "no_svn_at_root env"
  shows "gives (step_ok f (cl_num_lines cl)) (include_order env f cl n i s st)"
proof -
  note facts = line_ctxD [OF assms(1)]
  obtain t where t: "ClassifyInclude env f i s = Inr t" using ClassifyInclude_total [OF assms(3)] by (metis returnsE)
  obtain base where base: "BaseName env f = Inr base" using name_parts_total(2)[OF assms(3)] by (metis returnsE)
  have alpha: "returns (IsInAlphabeticalOrder (cl_elided cl) (int n) h st')" for h st'
    unfolding IsInAlphabeticalOrder_def by (intro oks py_nth_prev_total facts(1))
  from assms(2) obtain st1 where st1: "add_include i n st = Inr st1" "include_list st1 \<noteq> []"
    by (auto simp: add_include_def includes_ok_def)
  obtain st2 msg where next_order: "CheckNextIncludeOrder t st1 = (st2, msg)" by fastforce
  have "include_list st2 \<noteq> []" using CheckNextIncludeOrder_include_list [of t st1] st1(2) next_order by simp
  with facts(5) alpha [of "CanonicalizeAlphabeticalOrder i" st2] show ?thesis
    by (auto simp: include_order_def st1 t next_order base Let_def step_ok_def includes_ok_def SetLastHeader_def flag_def elim!: returnsE)
qed

lemma CheckIncludeLine_ok:
  assumes "line_ctx cl n ns" "includes_ok st" "no_svn_at_root env"
  shows "gives (step_ok f (cl_num_lines cl)) (CheckIncludeLine env f cl n st)"
proof -
  note facts = line_ctxD [OF assms(1)]
  have step: "gives (step_ok f (cl_num_lines cl)) (res_bind (include_order env f cl n i s st) (\<lambda>(st', rs). Inr (st', ds @ rs)))"
    if "list_all (report_ok f (cl_num_lines cl)) ds" for i s ds
    by (rule gives_bind_gives [OF include_order_ok [OF assms]]) (use that in \<open>auto simp: step_ok_def\<close>)
  show ?thesis
    unfolding CheckIncludeLine_def
    by (intro oks step repository_name_total assms(3); simp add: facts step_ok_def assms(2) flag_def split: option.split)
qed

text \<open>
  \<open>CheckLanguage\<close> keeps the includes well-formed and reports only about its line; it may
  raise only where \<open>CheckCasts\<close> does.
\<close>

lemma CheckLanguage_ok:
  assumes "line_ctx cl n ns" "includes_ok st" "no_svn_at_root env" "returns (CheckCasts f cl n)"
  shows "gives (step_ok f (cl_num_lines cl)) (CheckLanguage env ext f cl n st)"
proof -
  note facts = line_ctxD [OF assms(1)]
  have line: "py_nth (cl_elided cl) (int n) = Inr (cl_elided cl ! n)" using facts by simp
  from assms(4) obtain cs where cs: "CheckCasts f cl n = Inr cs" by (rule returnsE)
  note casts = casts.reports [OF assms(1) cs]
  obtain gs where gs: "CheckGlobalStatic f cl n = Inr gs" "list_all (report_ok f (cl_num_lines cl)) gs"
    using global_static.result [OF assms(1)] unfolding gives_def by metis
  obtain ps where ps: "CheckPrintf f cl n = Inr ps" "list_all (report_ok f (cl_num_lines cl)) ps"
    using printf.result [OF assms(1)] unfolding gives_def by metis
  obtain ls where ls: "language_rules ext f n (cl_elided cl ! n) = Inr ls" "list_all (report_ok f (cl_num_lines cl)) ls"
    using language_rules_ok [OF facts(5)] unfolding gives_def by metis
  have reset: "gives includes_ok (case z of None \<Rightarrow> Inr st | Some m \<Rightarrow> ResetSection (grp m 1) st)" for z
    using assms(2) ResetSection_ok by (auto split: option.split)
  have rest: "gives (step_ok f (cl_num_lines cl)) (res_bind r (\<lambda>st'. Inr (st', cs @ gs @ ps @ ls)))" if "gives includes_ok r" for r
    by (rule gives_bind_gives [OF that]) (simp add: step_ok_def casts gs(2) ps(2) ls(2))
  show ?thesis
    unfolding CheckLanguage_def line res_bind_simps cs gs(1) ps(1) ls(1)
    by (intro oks CheckIncludeLine_ok [OF assms(1-3)] rest reset) (simp add: step_ok_def assms(2))
qed

section \<open>Headers that are used\<close>

lemma map_of_dict_of: "map_of (dict_of items) = map_of (rev items)"
proof -
  have "map_of (fold (\<lambda>(k, v). AList.update k v) items d) = map_of d ++ map_of (rev items)" for d
    by (induction items arbitrary: d) (auto simp: update_conv' map_add_def fun_eq_iff split: option.split)
  then show ?thesis by (simp add: dict_of_def)
qed

lemma distinct_dict_of: "distinct (map fst (dict_of items))"
proof -
  have "distinct (map fst d) \<Longrightarrow> distinct (map fst (fold (\<lambda>(k, v). AList.update k v) items d))" for d
    by (induction items arbitrary: d) (auto simp: distinct_update)
  then show ?thesis by (simp add: dict_of_def)
qed

lemma keys_dict_of: "fst ` set (dict_of items) = fst ` set items"
  using map_of_dict_of [of items] by (metis dom_map_of_conv_image_fst set_rev)

definition needs_of :: "string list \<Rightarrow> (string \<times> nat \<times> string) list" where
  "needs_of ls = concat (map (\<lambda>(i, l). map (\<lambda>(header, template). (header, i, template)) (line_needs l)) (enumerate 0 ls))"

lemma map_of_needs_snoc:
  "map_of (rev (needs_of (ls @ [l]))) h =
     (case map_of (rev (line_needs l)) h of None \<Rightarrow> map_of (rev (needs_of ls)) h | Some t \<Rightarrow> Some (length ls, t))"
proof -
  have "map_of (rev (map (\<lambda>(header, template). (header, length ls, template)) (line_needs l))) h =
      map_option (Pair (length ls)) (map_of (rev (line_needs l)) h)"
    by (simp only: rev_map) (auto simp: map_of_map)
  then show ?thesis by (cases "map_of (rev (line_needs l)) h") (simp_all add: needs_of_def enumerate_append_eq map_add_def)
qed

lemma map_of_needs_last:
  "map_of (rev (needs_of ls)) h = Some (i, t) \<Longrightarrow>
     i < length ls \<and> (h, t) \<in> set (line_needs (ls ! i)) \<and> (\<forall>j. i < j \<and> j < length ls \<longrightarrow> h \<notin> fst ` set (line_needs (ls ! j)))"
proof (induction ls rule: rev_induct)
  case Nil
  then show ?case by (simp add: needs_of_def)
next
  case (snoc l ls)
  show ?case
  proof (cases "map_of (rev (line_needs l)) h")
    case None
    with snoc have IH: "i < length ls \<and> (h, t) \<in> set (line_needs (ls ! i)) \<and> (\<forall>j. i < j \<and> j < length ls \<longrightarrow> h \<notin> fst ` set (line_needs (ls ! j)))"
      by (simp add: map_of_needs_snoc)
    from None have "h \<notin> fst ` set (line_needs l)" by (simp add: map_of_eq_None_iff)
    with IH show ?thesis by (auto simp: nth_append less_Suc_eq)
  next
    case (Some u)
    with snoc.prems have "i = length ls" "t = u" by (simp_all add: map_of_needs_snoc)
    with map_of_SomeD [OF Some] show ?thesis by auto
  qed
qed

lemma map_res_total_nth:
  "\<forall>i \<in> set is. i < length xs \<Longrightarrow> map_res (\<lambda>i. py_nth xs (int i)) is = Inr (map ((!) xs) is)"
  by (induction "is") auto

lemma required_headers_all:
  assumes "lines_ok cl"
  shows "required_headers cl = Inr (dict_of (needs_of (cl_elided cl)))"
proof -
  have len: "length (cl_elided cl) = cl_num_lines cl" using assms by (simp add: lines_ok_def)
  then have "map ((!) (cl_elided cl)) [0..<cl_num_lines cl] = cl_elided cl" by (metis map_nth)
  with len show ?thesis by (simp add: required_headers_def map_res_total_nth NumLines_def needs_of_def)
qed

text \<open>Skipping the lines without an opening angle bracket changes nothing: every template pattern contains one.\<close>

lemma template_patterns_must: "list_all (\<lambda>(pattern, _, _). pattern_must (CHR ''<'') pattern) patterns_templates"
  by code_simp

lemma contains_chr: "contains s [c] \<longleftrightarrow> c \<in> set s"
  using find_sub_single_None [of c s] by (auto simp: contains_def)

lemma no_templates_found: "\<not> contains line ''<'' \<Longrightarrow> found_in patterns_templates line = []"
proof -
  assume "\<not> contains line ''<''"
  then have "Search pattern line = None" if "(pattern, x) \<in> set patterns_templates" for pattern x
    using template_patterns_must that Search_must_line [of pattern line _ "CHR ''<''"]
    by (cases "Search pattern line") (auto simp: list_all_iff contains_chr)
  then show ?thesis by (fastforce simp: found_in_def filter_empty_conv)
qed

section \<open>Headers of the same module\<close>

lemma FilesBelongToSameModule_total: "no_svn_at_root env \<Longrightarrow> returns (FilesBelongToSameModule env cc h)"
  unfolding FilesBelongToSameModule_def by (intro oks name_parts_total; auto simp: Let_def)

text \<open>The includes of a header that the check reads for a file, if it reads it.\<close>

definition includes_in :: "string \<Rightarrow> string set" where
  "includes_in content = {grp m 2 |m line. line \<in> set (splitlines [] content) \<and> Search RE_PATTERN_INCLUDE (CleanseComments line) = Some m}"

definition adopted :: "os_env \<Rightarrow> string \<Rightarrow> string \<Rightarrow> string set option" where
  "adopted env apath header =
     (case FilesBelongToSameModule env apath header of
        Inr (True, common_path) \<Rightarrow> map_option includes_in (read_file env (common_path @ header))
      | _ \<Rightarrow> None)"

lemma setdefault_keys: "fst ` set (setdefault k v d) = insert k (fst ` set d)"
  by (auto simp: setdefault_def)

lemma fold_includes_keys:
  "fst ` set (fold (\<lambda>(linenum, line) d.
      (case Search RE_PATTERN_INCLUDE (CleanseComments line) of None \<Rightarrow> d | Some m \<Rightarrow> setdefault (grp m 2) (int linenum) d)) (enumerate k ls) d) =
   fst ` set d \<union> {grp m 2 |m line. line \<in> set ls \<and> Search RE_PATTERN_INCLUDE (CleanseComments line) = Some m}"
proof (induction ls arbitrary: k d)
  case (Cons l ls)
  show ?case by (simp only: enumerate_simps fold_simps prod.case Cons) (auto simp: setdefault_keys split: option.split)
qed simp

lemma UpdateIncludeState_keys:
  "UpdateIncludeState env f d = (b, d') \<Longrightarrow> b = (read_file env f \<noteq> None) \<and>
     fst ` set d' = fst ` set d \<union> (case read_file env f of None \<Rightarrow> {} | Some content \<Rightarrow> includes_in content)"
proof (cases "read_file env f")
  case (Some content)
  assume "UpdateIncludeState env f d = (b, d')"
  with Some fold_includes_keys [of 1 "splitlines [] content" d] show ?thesis
    by (simp add: UpdateIncludeState_def includes_in_def)
qed (simp add: UpdateIncludeState_def)

lemma scan_headers_result:
  assumes "no_svn_at_root env"
  shows "\<exists>d'. scan_headers env apath hs found d = Inr (found \<or> (\<exists>h \<in> set hs. adopted env apath h \<noteq> None), d') \<and>
    fst ` set d' = fst ` set d \<union> \<Union> {is. \<exists>h \<in> set hs. adopted env apath h = Some is}"
proof (induction hs arbitrary: found d)
  case (Cons h hs)
  obtain same p where fbm: "FilesBelongToSameModule env apath h = Inr (same, p)"
    using FilesBelongToSameModule_total [OF assms] by (metis returnsE surj_pair)
  have split: "\<Union> {is. \<exists>x \<in> set (h # hs). adopted env apath x = Some is} =
      (case adopted env apath h of None \<Rightarrow> {} | Some is \<Rightarrow> is) \<union> \<Union> {is. \<exists>x \<in> set hs. adopted env apath x = Some is}"
    by (cases "adopted env apath h") auto
  show ?case
  proof (cases same)
    case False
    with fbm have "adopted env apath h = None" by (simp add: adopted_def)
    with False fbm Cons [of found d] show ?thesis unfolding split by simp
  next
    case True
    with fbm have adopt: "adopted env apath h = map_option includes_in (read_file env (p @ h))" by (simp add: adopted_def)
    obtain b d1 where upd: "UpdateIncludeState env (p @ h) d = (b, d1)" by fastforce
    note keys = UpdateIncludeState_keys [OF upd]
    obtain d' where
      "scan_headers env apath hs (found \<or> b) d1 = Inr ((found \<or> b) \<or> (\<exists>h \<in> set hs. adopted env apath h \<noteq> None), d')"
      "fst ` set d' = fst ` set d1 \<union> \<Union> {is. \<exists>h \<in> set hs. adopted env apath h = Some is}" using Cons [of "found \<or> b" d1] by blast
    with fbm True upd keys adopt show ?thesis
      unfolding split by (cases "read_file env (p @ h)") (simp_all add: Un_assoc)
  qed
qed simp

definition known_headers :: "os_env \<Rightarrow> string \<Rightarrow> include_state \<Rightarrow> string set" where
  "known_headers env apath st = (let own = fst ` set (concat (include_list st))
     in own \<union> \<Union> {is. \<exists>h \<in> own. adopted env apath h = Some is})"

definition missing_header :: "string set \<Rightarrow> string \<Rightarrow> (string \<times> nat \<times> string) list \<Rightarrow> string \<Rightarrow> report list" where
  "missing_header known filename required header =
     (case map_of required header of
        None \<Rightarrow> []
      | Some (linenum, template) \<Rightarrow>
          flag (rstrip_set ''<>\"'' (lstrip_set ''<>\"'' header) \<notin> known) filename linenum
            ''build/include_what_you_use'' 4 (''Add #include '' @ header @ '' for '' @ template))"

lemma permutes_set: "permutes order \<Longrightarrow> set (order xs) = set xs"
  by (metis permutes_def set_mset_mset)

lemma include_what_you_use_result:
  assumes "lines_ok cl" "no_svn_at_root env" "permutes order"
    and apath: "apath = ReplaceAll ''_flymake`.cc$'' ''.cc'' (FullName env f)"
  shows "CheckForIncludeWhatYouUse env order f cl st =
    (if endswith f ''.cc'' \<and> \<not> (\<exists>h \<in> fst ` set (concat (include_list st)). adopted env apath h \<noteq> None) then Inr []
         else Inr (concat (map (missing_header (known_headers env apath st) f (dict_of (needs_of (cl_elided cl))))
                (order (map fst (dict_of (needs_of (cl_elided cl))))))))"
proof -
  let ?d = "dict_of (concat (include_list st))"
  have keys: "set (order (map fst ?d)) = fst ` set (concat (include_list st))" "fst ` set ?d = fst ` set (concat (include_list st))"
    using permutes_set [OF assms(3), of "map fst ?d"] keys_dict_of [of "concat (include_list st)"] by simp_all
  obtain d' where scan: "scan_headers env apath (order (map fst ?d)) False ?d =
      Inr ((\<exists>h \<in> fst ` set (concat (include_list st)). adopted env apath h \<noteq> None), d')"
    "fst ` set d' = known_headers env apath st"
    using scan_headers_result [OF assms(2), of apath "order (map fst ?d)" False ?d] unfolding keys known_headers_def Let_def by auto
  show ?thesis
    unfolding CheckForIncludeWhatYouUse_def required_headers_all [OF assms(1)] res_bind_simps Let_def apath [symmetric] scan(1) prod.case
      missing_header_def [abs_def] scan(2)
    ..
qed

lemma include_order_records:
  assumes "include_order env f cl n header s st = Inr (st', rs)"
  shows "include_list st \<noteq> [] \<and> include_list st' = butlast (include_list st) @ [last (include_list st) @ [(header, int n)]]"
proof -
  from assms obtain st1 t h where add: "add_include header n st = Inr st1"
    and st': "st' = SetLastHeader h (fst (CheckNextIncludeOrder t st1))"
    unfolding include_order_def by (auto simp: Let_def split: prod.splits) (metis fst_conv surj_pair)
  have "include_list st' = include_list st1" by (simp add: st' SetLastHeader_def)
  with add show ?thesis by (auto simp: add_include_def split: if_splits)
qed

section \<open>Includes over the lines of a file\<close>

text \<open>The checks of some lines, one after the other, with the include state that each leaves to the next.\<close>

fun language_run ::
  "os_env \<Rightarrow> string \<Rightarrow> string \<Rightarrow> cleansed_lines \<Rightarrow> nat list \<Rightarrow> include_state \<Rightarrow> (include_state \<times> report list) res" where
  "language_run env ext f cl [] st = Inr (st, [])"
| "language_run env ext f cl (n # ns) st =
     res_bind (CheckLanguage env ext f cl n st) (\<lambda>(st1, rs).
       res_bind (language_run env ext f cl ns st1) (\<lambda>(st2, qs). Inr (st2, rs @ qs)))"

definition include_of :: "cleansed_lines \<Rightarrow> nat \<Rightarrow> string option" where
  "include_of cl n =
     (if cl_elided cl ! n = [] \<or> Search RE_PATTERN_INCLUDE (cl_elided cl ! n) = None then None
      else map_option (\<lambda>m. grp m 2) (Search RE_PATTERN_INCLUDE (cl_lines cl ! n)))"

definition directive_of :: "string \<Rightarrow> string option" where
  "directive_of line =
     (if line = [] \<or> Search RE_PATTERN_INCLUDE line \<noteq> None then None
      else map_option (\<lambda>m. grp m 1) (Match ''^`s*#`s*(if|ifdef|ifndef|elif|else|endif)`b'' line))"

text \<open>
  The section of includes that is open at the first line is not emptied: no \<open>#else\<close> or
  \<open>#elif\<close> comes before the next \<open>#if\<close>, \<open>#ifdef\<close> or \<open>#ifndef\<close>, which opens another section.
\<close>

fun section_kept :: "string list \<Rightarrow> bool" where
  "section_kept [] \<longleftrightarrow> True"
| "section_kept (line # lines) \<longleftrightarrow>
     (case directive_of line of
        None \<Rightarrow> section_kept lines
      | Some d \<Rightarrow> d \<in> {''if'', ''ifdef'', ''ifndef''} \<or> d \<notin> {''else'', ''elif''} \<and> section_kept lines)"

definition included_in :: "(string \<times> int) list list \<Rightarrow> nat \<Rightarrow> (string \<times> int) list list \<Rightarrow> bool" where
  "included_in L n L' \<longleftrightarrow> L' = L \<or> L \<noteq> [] \<and> (\<exists>h. L' = butlast L @ [last L @ [(h, int n)]])"

lemma CheckIncludeLine_included:
  "yields (\<lambda>(st', rs). included_in (include_list st) n (include_list st')) (CheckIncludeLine env f cl n st)"
  unfolding CheckIncludeLine_def
  by (intro oks; auto simp: included_in_def dest!: include_order_records)

lemma CheckLanguage_includes:
  assumes "CheckLanguage env ext f cl n st = Inr (st', rs)" "n < length (cl_elided cl)"
  shows "(case directive_of (cl_elided cl ! n) of
       None \<Rightarrow> included_in (include_list st) n (include_list st')
     | Some d \<Rightarrow>
         if d \<in> {''if'', ''ifdef'', ''ifndef''} then include_list st' = include_list st @ [[]]
         else if d \<in> {''else'', ''elif''} then include_list st \<noteq> [] \<and> include_list st' = butlast (include_list st) @ [[]]
         else include_list st' = include_list st)"
proof -
  let ?line = "cl_elided cl ! n"
  consider "?line = []" | "?line \<noteq> []" "Search RE_PATTERN_INCLUDE ?line \<noteq> None"
    | "?line \<noteq> []" "Search RE_PATTERN_INCLUDE ?line = None" by blast
  then show ?thesis
  proof cases
    case 3
    let ?m = "Match ''^`s*#`s*(if|ifdef|ifndef|elif|else|endif)`b'' ?line"
    from 3 assms have "(case ?m of None \<Rightarrow> Inr st | Some m \<Rightarrow> ResetSection (grp m 1) st) = Inr st'"
      by (auto simp: CheckLanguage_def)
    with 3 show ?thesis
      by (cases ?m) (auto simp: directive_of_def included_in_def ResetSection_def Let_def split: if_splits)
  qed (use assms in \<open>auto simp: CheckLanguage_def directive_of_def included_in_def dest!: yieldsD [OF CheckIncludeLine_included]\<close>)
qed

lemma find_append: "find P (xs @ ys) = (case find P xs of None \<Rightarrow> find P ys | Some x \<Rightarrow> Some x)"
  by (induction xs) auto

lemma find_concat_butlast: "find P (concat (butlast L)) = Some e \<Longrightarrow> find P (concat L) = Some e"
  by (cases L rule: rev_cases) (simp_all add: find_append)

lemma find_included:
  assumes "included_in L n L'"
  shows "find P (concat L) = Some e \<Longrightarrow> find P (concat L') = Some e"
    and "find P (concat (butlast L)) = Some e \<Longrightarrow> find P (concat (butlast L')) = Some e"
proof -
  from assms obtain K where "L' = L \<or> L \<noteq> [] \<and> L' = butlast L @ [last L @ K]"
    unfolding included_in_def by blast
  then have "concat L' = concat L \<or> concat L' = concat L @ K" "butlast L' = butlast L"
    by (cases L rule: rev_cases; auto)+
  then show "find P (concat L) = Some e \<Longrightarrow> find P (concat L') = Some e"
    "find P (concat (butlast L)) = Some e \<Longrightarrow> find P (concat (butlast L')) = Some e"
    by (auto simp: find_append)
qed

lemma language_run_closed:
  "language_run env ext f cl ns st = Inr (st', rs) \<Longrightarrow> list_all (\<lambda>n. n < length (cl_elided cl)) ns \<Longrightarrow>
     find P (concat (butlast (include_list st))) = Some e \<Longrightarrow>
     find P (concat (butlast (include_list st'))) = Some e"
proof (induction ns arbitrary: st rs)
  case (Cons n ns)
  then obtain st1 rs1 qs where step: "CheckLanguage env ext f cl n st = Inr (st1, rs1)"
    and rest: "language_run env ext f cl ns st1 = Inr (st', qs)" by auto
  have "find P (concat (butlast (include_list st1))) = Some e"
    using CheckLanguage_includes [OF step] Cons.prems(2,3) find_included(2) find_concat_butlast [OF Cons.prems(3)]
    by (auto split: option.splits if_splits)
  with Cons.IH [OF rest] Cons.prems(2) show ?case by simp
qed simp

lemma language_run_kept:
  "language_run env ext f cl ns st = Inr (st', rs) \<Longrightarrow> list_all (\<lambda>n. n < length (cl_elided cl)) ns \<Longrightarrow>
     section_kept (map ((!) (cl_elided cl)) ns) \<Longrightarrow> find P (concat (include_list st)) = Some e \<Longrightarrow>
     find P (concat (include_list st')) = Some e"
proof (induction ns arbitrary: st rs)
  case (Cons n ns)
  then obtain st1 rs1 qs where step: "CheckLanguage env ext f cl n st = Inr (st1, rs1)"
    and rest: "language_run env ext f cl ns st1 = Inr (st', qs)" by auto
  note step' = CheckLanguage_includes [OF step]
  consider (opens) d where "directive_of (cl_elided cl ! n) = Some d" "d \<in> {''if'', ''ifdef'', ''ifndef''}"
    | (same) "section_kept (map ((!) (cl_elided cl)) ns)" "included_in (include_list st) n (include_list st1)"
    using Cons.prems(2,3) step' by (auto simp: included_in_def split: option.splits if_splits)
  then show ?case
  proof cases
    case opens
    with step' Cons.prems(2) have "include_list st1 = include_list st @ [[]]" by auto
    with language_run_closed [OF rest, of P e] Cons.prems(2,4) show ?thesis by (auto intro: find_concat_butlast)
  next
    case same
    with Cons.IH [OF rest] Cons.prems(2,4) find_included(1) show ?thesis by auto
  qed
qed simp

lemma language_run_total:
  "list_all (\<lambda>n. line_ctx cl n nest \<and> returns (CheckCasts f cl n)) ns \<Longrightarrow> includes_ok st \<Longrightarrow> no_svn_at_root env \<Longrightarrow>
     returns (language_run env ext f cl ns st)"
proof (induction ns arbitrary: st)
  case (Cons n ns)
  then obtain st1 rs where "CheckLanguage env ext f cl n st = Inr (st1, rs)" "includes_ok st1"
    using CheckLanguage_ok [of cl n nest st env f ext] by (auto simp: gives_def step_ok_def)
  with Cons show ?case by (auto intro: returns_bind)
qed simp

definition lines_recorded :: "include_state \<Rightarrow> bool" where
  "lines_recorded st \<longleftrightarrow> list_all (\<lambda>e. 0 \<le> snd e) (concat (include_list st))"

lemma lines_recorded_run:
  "language_run env ext f cl ns st = Inr (st', rs) \<Longrightarrow> list_all (\<lambda>n. n < length (cl_elided cl)) ns \<Longrightarrow>
     lines_recorded st \<Longrightarrow> lines_recorded st'"
proof (induction ns arbitrary: st rs)
  case (Cons n ns)
  then obtain st1 rs1 qs where step: "CheckLanguage env ext f cl n st = Inr (st1, rs1)"
    and rest: "language_run env ext f cl ns st1 = Inr (st', qs)" by auto
  have "lines_recorded st1"
    using CheckLanguage_includes [OF step] Cons.prems(2,3)
    by (cases "include_list st" rule: rev_cases)
      (auto simp: lines_recorded_def included_in_def split: option.splits if_splits)
  with Cons.IH [OF rest] Cons.prems(2) show ?case by simp
qed simp

lemma find_header_none:
  assumes "lines_recorded st" "FindHeader header st = -1"
  shows "find (\<lambda>e. fst e = header) (concat (include_list st)) = None"
proof (rule ccontr)
  assume "find (\<lambda>e. fst e = header) (concat (include_list st)) \<noteq> None"
  then obtain e where e: "find (\<lambda>e. fst e = header) (concat (include_list st)) = Some e" by blast
  then have "e \<in> set (concat (include_list st))" by (metis find_Some_iff nth_mem)
  with assms(1) have "0 \<le> snd e" unfolding lines_recorded_def list_all_iff by blast
  with e assms(2) show False by (simp add: FindHeader_def find_header_concat)
qed

lemma CheckLanguage_records:
  assumes "CheckLanguage env ext f cl n st = Inr (st', rs)" "include_of cl n = Some header"
    and n: "n < length (cl_elided cl)" "n < length (cl_lines cl)"
    and "Match THIRD_PARTY_HEADERS_PATTERN header = None" "\<not> endswith header ''.cc''"
    and "lines_recorded st" "FindHeader header st = -1"
  shows "find (\<lambda>e. fst e = header) (concat (include_list st')) = Some (header, int n)"
proof -
  from assms(1,2) n(1) have "CheckIncludeLine env f cl n st = Inr (st', rs)"
    by (auto simp: CheckLanguage_def include_of_def split: if_splits)
  moreover from assms(2) obtain m where "Search RE_PATTERN_INCLUDE (cl_lines cl ! n) = Some m" "grp m 2 = header"
    by (auto simp: include_of_def split: if_splits)
  ultimately obtain rs0 s where "include_order env f cl n header s st = Inr (st', rs0)"
    using assms(5,6,8) n(2) by (auto simp: CheckIncludeLine_def Let_def)
  note recorded = include_order_records [OF this]
  then have "concat (include_list st') = concat (include_list st) @ [(header, int n)]"
    by (cases "include_list st" rule: rev_cases) simp_all
  with find_header_none [OF assms(7,8)] show ?thesis by (simp add: find_append)
qed

section \<open>Properties\<close>

text \<open>
  C13: Which headers are reported as missing does not depend on the order in which the
  interpreter walks through its dictionaries: for two orders the check returns the same
  reports, up to their order.
\<close>
theorem missing_headers_any_order:
  assumes "lines_ok cl" "no_svn_at_root env" "permutes order" "permutes order'"
  shows "\<exists>rs rs'. CheckForIncludeWhatYouUse env order f cl st = Inr rs \<and>
    CheckForIncludeWhatYouUse env order' f cl st = Inr rs' \<and> mset rs = mset rs'"
proof -
  have perm: "mset (concat (map h (order xs))) = mset (concat (map h (order' xs)))" for h :: "string \<Rightarrow> report list" and xs
    using assms(3,4) by (simp add: mset_concat permutes_def sum_mset_sum_list [symmetric])
  show ?thesis
    unfolding include_what_you_use_result [OF assms(1,2,3) refl] include_what_you_use_result [OF assms(1,2,4) refl]
    using perm by auto
qed

definition demo_use :: cleansed_lines where
  "demo_use = \<lparr>cl_elided = [''// c'', ''std::string s;'', ''string t;''],
     cl_lines = [''// c'', ''std::string s;'', ''string t;''],
     cl_raw_lines = [''// c'', ''std::string s;'', ''string t;''], cl_num_lines = 3,
     cl_lines_without_raw_strings = [''// c'', ''std::string s;'', ''string t;'']\<rparr>"

lemma demo_env_no_svn: "no_svn_at_root demo_env"
  using demo_env_guards by (simp add: guards_known_def)

lemma demo_use_ok: "lines_ok demo_use"
  by (simp add: lines_ok_def demo_use_def)

lemma permutes_examples: "permutes (\<lambda>xs. xs)" "permutes rev"
  by (simp_all add: permutes_def)

theorem missing_headers_any_order_witness:
  "\<exists>rs rs'. CheckForIncludeWhatYouUse demo_env (\<lambda>xs. xs) ''io/a.h'' demo_use \<lparr>include_list = [[(''map'', 1)]], cur_section = INITIAL_SECTION, last_header = []\<rparr> = Inr rs \<and>
     CheckForIncludeWhatYouUse demo_env rev ''io/a.h'' demo_use \<lparr>include_list = [[(''map'', 1)]], cur_section = INITIAL_SECTION, last_header = []\<rparr> = Inr rs' \<and> mset rs = mset rs'"
  using missing_headers_any_order [OF demo_use_ok demo_env_no_svn permutes_examples(1,2)] .

text \<open>
  C24: A missing header is reported at the last line that uses a name of it, with a
  name used there, and only when the file does not include it.
\<close>
theorem missing_header_at_last_use:
  assumes "lines_ok cl" "no_svn_at_root env" "permutes order"
    and "CheckForIncludeWhatYouUse env order f cl st = Inr rs" "Report g l category confidence message \<in> set rs"
  shows "\<exists>header template i. l = int i \<and> i < length (cl_elided cl) \<and> message = ''Add #include '' @ header @ '' for '' @ template \<and>
    (header, template) \<in> set (line_needs (cl_elided cl ! i)) \<and>
    (\<forall>j. i < j \<and> j < length (cl_elided cl) \<longrightarrow> header \<notin> fst ` set (line_needs (cl_elided cl ! j))) \<and>
    rstrip_set ''<>\"'' (lstrip_set ''<>\"'' header) \<notin> fst ` set (concat (include_list st))"
proof -
  let ?known = "known_headers env (ReplaceAll ''_flymake`.cc$'' ''.cc'' (FullName env f)) st"
  from assms(4,5) [unfolded include_what_you_use_result [OF assms(1,2,3) refl]] obtain header where
    "Report g l category confidence message \<in> set (missing_header ?known f (dict_of (needs_of (cl_elided cl))) header)"
    by (auto split: if_splits)
  then obtain i template where found: "map_of (dict_of (needs_of (cl_elided cl))) header = Some (i, template)"
    and r: "l = int i" "message = ''Add #include '' @ header @ '' for '' @ template" "rstrip_set ''<>\"'' (lstrip_set ''<>\"'' header) \<notin> ?known"
    by (cases "map_of (dict_of (needs_of (cl_elided cl))) header") (auto simp: missing_header_def flag_def split: if_splits)
  from r(3) have "rstrip_set ''<>\"'' (lstrip_set ''<>\"'' header) \<notin> fst ` set (concat (include_list st))"
    by (auto simp: known_headers_def Let_def)
  with map_of_needs_last [OF found [unfolded map_of_dict_of]] r(1,2) show ?thesis by blast
qed

theorem missing_header_at_last_use_witness:
  "CheckForIncludeWhatYouUse demo_env rev ''io/a.h'' demo_use \<lparr>include_list = [[(''map'', 1)]], cur_section = INITIAL_SECTION, last_header = []\<rparr> =
     Inr [Report ''io/a.h'' 2 ''build/include_what_you_use'' 4 ''Add #include <string> for string''] \<and>
   (\<exists>header template i. (2::int) = int i \<and> (header, template) \<in> set (line_needs (cl_elided demo_use ! i)))"
proof -
  let ?st = "\<lparr>include_list = [[(''map'', 1)]], cur_section = INITIAL_SECTION, last_header = []\<rparr>"
  let ?rs = "[Report ''io/a.h'' 2 ''build/include_what_you_use'' 4 ''Add #include <string> for string'']"
  have run: "CheckForIncludeWhatYouUse demo_env rev ''io/a.h'' demo_use ?st = Inr ?rs" by code_simp
  have "Report ''io/a.h'' 2 ''build/include_what_you_use'' 4 ''Add #include <string> for string'' \<in> set ?rs" by simp
  from missing_header_at_last_use [OF demo_use_ok demo_env_no_svn permutes_examples(2) run this]
  have "\<exists>header template i. (2::int) = int i \<and> (header, template) \<in> set (line_needs (cl_elided demo_use ! i))" by blast
  with run show ?thesis by blast
qed

text \<open>
  C26: Skipping the lines without an angle bracket before looking for templates, which the
  program does for speed, changes nothing.
\<close>
theorem template_skip_harmless:
  "line_needs line =
     (if line = [] \<or> hd line = CHR ''#'' then []
      else (case Search ''`bstring`b'' line of
              None \<Rightarrow> []
            | Some m \<Rightarrow> if endswith (take (m_start m) line) ''std::'' \<or> \<not> endswith (take (m_start m) line) ''::'' then [(''<string>'', ''string'')] else []) @
           found_in patterns_headers_maybe_templates line @ found_in patterns_templates line)"
  using no_templates_found [of line] by (simp add: line_needs_def Let_def split: option.split)

theorem template_skip_harmless_witness:
  "line_needs ''s = t;'' = found_in patterns_headers_maybe_templates ''s = t;'' @ found_in patterns_templates ''s = t;''"
proof -
  have "Search ''`bstring`b'' ''s = t;'' = None" by code_simp
  with template_skip_harmless [of "''s = t;''"] show ?thesis by simp
qed

text \<open>
  C25: A header that is included twice is reported. The lines of a file are checked in order;
  when line n is the first to include a header, another include line k of it gets, after any
  lines in between, a report that names line n, and it is not recorded again. The condition
  on the lines in between is that they do not leave the branch of a conditional that holds
  the first include: no #else or #elif comes before the next #if, #ifdef or #ifndef, for
  \<open>ResetSection\<close> then forgets the includes of the branch. Headers that the naming
  rules exempt and .cc files are not recorded in this way, hence the hypotheses on the name.
\<close>
theorem second_include_reported:
  assumes "IncludeState = Inr st0" "language_run env ext f cl ls st0 = Inr (st, rs)" "FindHeader header st = -1"
    and "language_run env ext f cl (n # ns) st = Inr (st', rs')"
    and "include_of cl n = Some header" "include_of cl k = Some header"
    and "Match THIRD_PARTY_HEADERS_PATTERN header = None" "\<not> endswith header ''.cc''"
    and "section_kept (map ((!) (cl_elided cl)) ns)"
    and "list_all (\<lambda>i. i < length (cl_elided cl)) (ls @ n # ns @ [k])" "length (cl_lines cl) = length (cl_elided cl)"
  shows "\<exists>qs. CheckLanguage env ext f cl k st' = Inr (st', qs @
    [Report f (int k) ''build/include'' 4 (''\"'' @ header @ ''\" already included at '' @ f @ '':'' @ nat_str n)])"
proof -
  have "lines_recorded st0" using assms(1) by (auto simp: IncludeState_def ResetSection_def lines_recorded_def Let_def)
  with lines_recorded_run [OF assms(2)] assms(10) have recorded: "lines_recorded st" by simp
  from assms(4) obtain st1 rs1 qs where step: "CheckLanguage env ext f cl n st = Inr (st1, rs1)"
    and rest: "language_run env ext f cl ns st1 = Inr (st', qs)" by auto
  from CheckLanguage_records [OF step assms(5) _ _ assms(7,8) recorded assms(3)] assms(10,11)
  have "find (\<lambda>e. fst e = header) (concat (include_list st1)) = Some (header, int n)" by simp
  from language_run_kept [OF rest _ assms(9) this] assms(10) have "FindHeader header st' = int n"
    by (simp add: FindHeader_def find_header_concat)
  moreover from assms(6) obtain m where "Search RE_PATTERN_INCLUDE (cl_lines cl ! k) = Some m" "grp m 2 = header"
    "cl_elided cl ! k \<noteq> []" "Search RE_PATTERN_INCLUDE (cl_elided cl ! k) \<noteq> None"
    by (auto simp: include_of_def split: if_splits)
  ultimately show ?thesis using assms(10,11) by (auto simp: CheckLanguage_def CheckIncludeLine_def Let_def flag_def int_str_def)
qed

definition demo_includes :: cleansed_lines where
  "demo_includes = (let ls = [''// c'', ''#include \"io/b.h\"'', ''#ifdef A'', ''#else'', ''#include \"io/b.h\"'']
     in \<lparr>cl_elided = ls, cl_lines = ls, cl_raw_lines = ls, cl_num_lines = 5, cl_lines_without_raw_strings = ls\<rparr>)"

theorem second_include_reported_witness:
  "\<exists>st0 st' rs qs. IncludeState = Inr st0 \<and>
     language_run demo_env ''h'' ''io/a.h'' demo_includes [1, 2, 3] st0 = Inr (st', rs) \<and>
     CheckLanguage demo_env ''h'' ''io/a.h'' demo_includes 4 st' = Inr (st', qs @
       [Report ''io/a.h'' (int 4) ''build/include'' 4 (''\"'' @ ''io/b.h'' @ ''\" already included at '' @ ''io/a.h'' @ '':'' @ nat_str 1)])"
proof -
  let ?run = "language_run demo_env ''h'' ''io/a.h'' demo_includes"
  define st0 where "st0 = \<lparr>include_list = [[]], cur_section = INITIAL_SECTION, last_header = [] :: string\<rparr>"
  have st0: "IncludeState = Inr st0" "?run [] st0 = Inr (st0, [])" "FindHeader ''io/b.h'' st0 = -1" "includes_ok st0"
    by (simp_all add: st0_def IncludeState_def ResetSection_def FindHeader_def includes_ok_def)
  have "line_ctx demo_includes n NestingState" if "n \<in> {1, 2, 3}" for n
    using that starts_ok_init by (auto simp: line_ctx_def lines_full_def lines_ok_def demo_includes_def Let_def)
  moreover have "returns (CheckCasts ''io/a.h'' demo_includes 1)" "returns (CheckCasts ''io/a.h'' demo_includes 2)"
    "returns (CheckCasts ''io/a.h'' demo_includes 3)" by code_simp+
  ultimately have "returns (?run [1, 2, 3] st0)"
    by (intro language_run_total [where nest = NestingState] st0 demo_env_no_svn) simp
  then obtain st' rs where run: "?run [1, 2, 3] st0 = Inr (st', rs)" by (auto elim!: returnsE)
  have lines: "include_of demo_includes 1 = Some ''io/b.h''" "include_of demo_includes 4 = Some ''io/b.h''"
    "Match THIRD_PARTY_HEADERS_PATTERN ''io/b.h'' = None" "\<not> endswith ''io/b.h'' ''.cc''"
    "section_kept (map ((!) (cl_elided demo_includes)) [2, 3])"
    "list_all (\<lambda>i. i < length (cl_elided demo_includes)) ([] @ 1 # [2, 3] @ [4])"
    "length (cl_lines demo_includes) = length (cl_elided demo_includes)" by code_simp+
  from second_include_reported [OF st0(1-3) run lines] st0(1) run show ?thesis by blast
qed

text \<open>
  The condition on the lines in between is needed: after the \<open>#else\<close> of the branch that
  holds the first include, the second one is taken for the first.
\<close>

lemma else_forgets_include:
  "section_kept [''#else''] = False"
  "map_option include_list (case ResetSection ''else''
      \<lparr>include_list = [[], [(''io/b.h'', 2)]], cur_section = INITIAL_SECTION, last_header = []\<rparr> of Inl _ \<Rightarrow> None | Inr st \<Rightarrow> Some st) =
     Some [[], []]"
  by code_simp+

end
