(* ===== verification/Lint_State.thy ===== *)
theory Lint_State
  imports Suppressions
begin

text \<open>
  The module-wide state of the linter (\<open>_CppLintState\<close>), the decision whether an error
  is printed (\<open>_ShouldPrintError\<close>) and the handler \<open>Error\<close> that every check reports
  to. \<open>world\<close> joins the state with the suppression dictionaries and with the text
  written to the standard error stream. A raised exception is the left side of a
  \<open>res\<close>. The lemmas show that the filter list stays well formed, that the last filter
  which applies to a category decides, and that the counters of the state agree with
  each other and with the reports that were printed.
\<close>

section \<open>State\<close>

record cpplint_state =
  verbose_level :: int
  error_count :: nat
  filters :: "string list"
  filters_backup :: "string list"
  counting :: string
  errors_by_category :: "(string \<times> nat) list"
  output_format :: string

definition DEFAULT_FILTERS :: "string list" where
  "DEFAULT_FILTERS = [''-build/include_alpha'']"

definition CppLintState :: cpplint_state where
  "CppLintState =
     \<lparr>verbose_level = 1, error_count = 0, filters = DEFAULT_FILTERS,
      filters_backup = DEFAULT_FILTERS, counting = ''total'', errors_by_category = [],
      output_format = ''emacs''\<rparr>"

definition SetOutputFormat :: "string \<Rightarrow> cpplint_state \<Rightarrow> cpplint_state" where
  "SetOutputFormat fmt st = st\<lparr>output_format := fmt\<rparr>"

definition SetVerboseLevel :: "int \<Rightarrow> cpplint_state \<Rightarrow> cpplint_state \<times> int" where
  "SetVerboseLevel level st = (st\<lparr>verbose_level := level\<rparr>, verbose_level st)"

definition SetCountingStyle :: "string \<Rightarrow> cpplint_state \<Rightarrow> cpplint_state" where
  "SetCountingStyle counting_style st = st\<lparr>counting := counting_style\<rparr>"

text \<open>Command-line text is a byte string: its \<open>strip\<close> removes ASCII white space.\<close>

definition byte_strip :: "string \<Rightarrow> string" where
  "byte_strip s = rev (dropWhile is_space (rev (dropWhile is_space s)))"

definition signed_filter :: "string \<Rightarrow> bool" where
  "signed_filter f \<longleftrightarrow> startswith f ''+'' \<or> startswith f ''-''"

text \<open>
  The source has appended the new filters when it finds one without a sign; the exception
  ends the program, and the model keeps no state with it.
\<close>

definition AddFilters :: "string \<Rightarrow> cpplint_state \<Rightarrow> cpplint_state res" where
  "AddFilters fs st =
     (let new = filters st @ filter (\<lambda>f. f \<noteq> []) (map byte_strip (split_chr (CHR '','') fs))
      in case find (\<lambda>f. \<not> signed_filter f) new of
           None \<Rightarrow> Inr (st\<lparr>filters := new\<rparr>)
         | Some f \<Rightarrow>
             Inl (ValueError (''Every filter in --filters must start with + or - ('' @ f @ '' does not)'')))"

definition SetFilters :: "string \<Rightarrow> cpplint_state \<Rightarrow> cpplint_state res" where
  "SetFilters fs st = AddFilters fs (st\<lparr>filters := DEFAULT_FILTERS\<rparr>)"

definition BackupFilters :: "cpplint_state \<Rightarrow> cpplint_state" where
  "BackupFilters st = st\<lparr>filters_backup := filters st\<rparr>"

definition RestoreFilters :: "cpplint_state \<Rightarrow> cpplint_state" where
  "RestoreFilters st = st\<lparr>filters := filters_backup st\<rparr>"

definition ResetErrorCounts :: "cpplint_state \<Rightarrow> cpplint_state" where
  "ResetErrorCounts st = st\<lparr>error_count := 0, errors_by_category := []\<rparr>"

fun dict_incr :: "string \<Rightarrow> (string \<times> nat) list \<Rightarrow> (string \<times> nat) list" where
  "dict_incr k [] = [(k, 1)]"
| "dict_incr k ((k', n) # kvs) = (if k = k' then (k', Suc n) # kvs else (k', n) # dict_incr k kvs)"

definition count_key :: "string \<Rightarrow> string \<Rightarrow> string" where
  "count_key style category =
     (if style \<noteq> ''detailed'' then hd (split_chr (CHR ''/'') category) else category)"

definition IncrementErrorCount :: "string \<Rightarrow> cpplint_state \<Rightarrow> cpplint_state" where
  "IncrementErrorCount category st =
     (let st1 = st\<lparr>error_count := Suc (error_count st)\<rparr>
      in if counting st \<in> {''toplevel'', ''detailed''}
         then st1\<lparr>errors_by_category := dict_incr (count_key (counting st) category) (errors_by_category st)\<rparr>
         else st1)"

text \<open>
  The iteration order of a dictionary is not specified: \<open>iteritems\<close> stands for the order
  in which the interpreter yields its items.
\<close>

definition PrintErrorCounts ::
  "((string \<times> nat) list \<Rightarrow> (string \<times> nat) list) \<Rightarrow> cpplint_state \<Rightarrow> string" where
  "PrintErrorCounts iteritems st =
     concat (map (\<lambda>(category, n). ''Category '' @ [CHR 0x27] @ category @ [CHR 0x27] @ '' errors found: '' @ nat_str n @ [nl])
       (iteritems (errors_by_category st)))
     @ ''Total errors found: '' @ nat_str (error_count st) @ [nl]"

record world =
  lint :: cpplint_state
  nolints :: nolint
  stderr :: string

section \<open>Printing an error\<close>

fun is_filtered :: "string \<Rightarrow> string list \<Rightarrow> bool \<Rightarrow> bool res" where
  "is_filtered category [] b = Inr b"
| "is_filtered category (one_filter # fs) b =
     (if startswith one_filter ''-'' then
        is_filtered category fs (if startswith category (tl one_filter) then True else b)
      else if startswith one_filter ''+'' then
        is_filtered category fs (if startswith category (tl one_filter) then False else b)
      else Inl AssertionError)"

definition ShouldPrintError :: "string \<Rightarrow> int \<Rightarrow> int \<Rightarrow> world \<Rightarrow> bool res" where
  "ShouldPrintError category confidence linenum w =
     (if IsErrorSuppressedByNolint category linenum (nolints w) then Inr False
      else if confidence < verbose_level (lint w) then Inr False
      else res_bind (is_filtered category (filters (lint w)) False) (\<lambda>b. Inr (\<not> b)))"

fun format_error :: "string \<Rightarrow> report \<Rightarrow> string" where
  "format_error fmt (Report filename linenum category confidence message) =
     (let tail = ''  ['' @ category @ ''] ['' @ int_str confidence @ '']'' @ [nl]
      in if fmt = ''vs7'' then filename @ ''('' @ int_str linenum @ ''):  '' @ message @ tail
         else if fmt = ''eclipse'' then filename @ '':'' @ int_str linenum @ '': warning: '' @ message @ tail
         else filename @ '':'' @ int_str linenum @ '':  '' @ message @ tail)"

definition Error :: "report \<Rightarrow> world \<Rightarrow> world res" where
  "Error r w =
     res_bind (ShouldPrintError (r_cat r) (r_conf r) (r_line r) w) (\<lambda>print.
       Inr (if print
            then w\<lparr>lint := IncrementErrorCount (r_cat r) (lint w),
                   stderr := stderr w @ format_error (output_format (lint w)) r\<rparr>
            else w))"

section \<open>Filters\<close>

definition filters_ok :: "cpplint_state \<Rightarrow> bool" where
  "filters_ok st \<longleftrightarrow> list_all signed_filter (filters st) \<and> list_all signed_filter (filters_backup st)"

lemma filters_ok_init [simp]: "filters_ok CppLintState"
  by (simp add: filters_ok_def CppLintState_def DEFAULT_FILTERS_def signed_filter_def startswith_def)

lemma AddFilters_ok:
  assumes "filters_ok st" "AddFilters fs st = Inr st'"
  shows "filters_ok st'" "prefix (filters st) (filters st')"
  using assms
  by (auto simp: AddFilters_def filters_ok_def Let_def find_None_iff list_all_iff split: option.splits)

lemma SetFilters_ok: "filters_ok st \<Longrightarrow> SetFilters fs st = Inr st' \<Longrightarrow> filters_ok st'"
  unfolding SetFilters_def
  by (rule AddFilters_ok(1))
    (auto simp: filters_ok_def DEFAULT_FILTERS_def signed_filter_def startswith_def)

lemma filters_ok_frame [simp]:
  "filters_ok (SetOutputFormat fmt st) = filters_ok st"
  "filters_ok (fst (SetVerboseLevel v st)) = filters_ok st"
  "filters_ok (SetCountingStyle c st) = filters_ok st"
  "filters_ok (ResetErrorCounts st) = filters_ok st"
  "filters_ok (IncrementErrorCount k st) = filters_ok st"
  by (auto simp: filters_ok_def SetOutputFormat_def SetVerboseLevel_def SetCountingStyle_def
      ResetErrorCounts_def IncrementErrorCount_def Let_def)

lemma filters_ok_backup [simp]:
  "filters_ok st \<Longrightarrow> filters_ok (BackupFilters st)"
  "filters_ok st \<Longrightarrow> filters_ok (RestoreFilters st)"
  by (auto simp: filters_ok_def BackupFilters_def RestoreFilters_def)

text \<open>The reference reading of a filter list: the last entry that applies decides.\<close>

definition filtered_out :: "string \<Rightarrow> string list \<Rightarrow> bool" where
  "filtered_out category fs =
     (case filter (\<lambda>f. startswith category (tl f)) (rev fs) of
        [] \<Rightarrow> False
      | f # _ \<Rightarrow> startswith f ''-'')"

lemma is_filtered_last_wins:
  "list_all signed_filter fs \<Longrightarrow>
     is_filtered category fs b =
       Inr (case filter (\<lambda>f. startswith category (tl f)) (rev fs) of [] \<Rightarrow> b | f # _ \<Rightarrow> startswith f ''-'')"
proof (induction fs arbitrary: b)
  case (Cons f fs)
  have "\<not> (startswith f ''+'' \<and> startswith f ''-'')" by (auto simp: startswith_def prefix_def)
  with Cons show ?case by (auto simp: signed_filter_def split: list.splits)
qed simp

lemma ShouldPrintError_spec:
  assumes "filters_ok (lint w)"
  shows "ShouldPrintError category confidence linenum w =
    Inr (\<not> IsErrorSuppressedByNolint category linenum (nolints w) \<and>
         verbose_level (lint w) \<le> confidence \<and> \<not> filtered_out category (filters (lint w)))"
  using assms
  by (auto simp: ShouldPrintError_def filters_ok_def is_filtered_last_wins filtered_out_def)

section \<open>Counting\<close>

definition counts_agree :: "cpplint_state \<Rightarrow> bool" where
  "counts_agree st \<longleftrightarrow>
     distinct (map fst (errors_by_category st)) \<and>
     (counting st \<in> {''toplevel'', ''detailed''} \<longrightarrow> sum_list (map snd (errors_by_category st)) = error_count st)"

lemma sum_dict_incr: "sum_list (map snd (dict_incr k kvs)) = Suc (sum_list (map snd kvs))"
  by (induction k kvs rule: dict_incr.induct) auto

lemma keys_dict_incr: "set (map fst (dict_incr k kvs)) = insert k (set (map fst kvs))"
  by (induction k kvs rule: dict_incr.induct) auto

lemma distinct_dict_incr: "distinct (map fst kvs) \<Longrightarrow> distinct (map fst (dict_incr k kvs))"
  by (induction k kvs rule: dict_incr.induct) (auto simp: keys_dict_incr simp del: set_map)

lemma lookup_dict_incr:
  "map_of (dict_incr k kvs) k' =
     (if k' = k then Some (case map_of kvs k of None \<Rightarrow> 1 | Some n \<Rightarrow> Suc n) else map_of kvs k')"
  by (induction k kvs rule: dict_incr.induct) auto

lemma counts_agree_reset [simp]: "counts_agree (ResetErrorCounts st)"
  by (simp add: counts_agree_def ResetErrorCounts_def)

lemma counts_agree_increment: "counts_agree st \<Longrightarrow> counts_agree (IncrementErrorCount k st)"
  by (auto simp: counts_agree_def IncrementErrorCount_def Let_def sum_dict_incr distinct_dict_incr)

lemma error_count_increment [simp]: "error_count (IncrementErrorCount k st) = Suc (error_count st)"
  by (simp add: IncrementErrorCount_def Let_def)

lemma IncrementErrorCount_frame [simp]:
  "filters (IncrementErrorCount k st) = filters st"
  "filters_backup (IncrementErrorCount k st) = filters_backup st"
  "verbose_level (IncrementErrorCount k st) = verbose_level st"
  "counting (IncrementErrorCount k st) = counting st"
  "output_format (IncrementErrorCount k st) = output_format st"
  by (simp_all add: IncrementErrorCount_def Let_def)

section \<open>The contract of an error handler\<close>

text \<open>
  What the checks rely on when they hand their reports over: the handler does not fail,
  counts exactly the reports that pass, and never changes which reports pass.
\<close>

fun emit_all :: "(report \<Rightarrow> 's \<Rightarrow> 's res) \<Rightarrow> report list \<Rightarrow> 's \<Rightarrow> 's res" where
  "emit_all emit [] s = Inr s"
| "emit_all emit (r # rs) s = res_bind (emit r s) (emit_all emit rs)"

lemma emit_all_append:
  "emit_all emit (rs @ qs) s = res_bind (emit_all emit rs s) (emit_all emit qs)"
  by (induction rs arbitrary: s) (simp_all add: res_bind_def split: sum.splits)

locale error_handler =
  fixes emit :: "report \<Rightarrow> 's \<Rightarrow> 's res"
    and shown :: "'s \<Rightarrow> report \<Rightarrow> bool"
    and count :: "'s \<Rightarrow> nat"
    and invar :: "'s \<Rightarrow> bool"
  assumes emit_ok:
    "invar s \<Longrightarrow> \<exists>s'. emit r s = Inr s' \<and> invar s' \<and> shown s' = shown s \<and>
       count s' = count s + (if shown s r then 1 else 0)"
begin

lemma emit_all_ok:
  "invar s \<Longrightarrow> \<exists>s'. emit_all emit rs s = Inr s' \<and> invar s' \<and> shown s' = shown s \<and>
     count s' = count s + length (filter (shown s) rs)"
proof (induction rs arbitrary: s)
  case (Cons r rs)
  from emit_ok [OF Cons.prems, of r] obtain s1 where s1: "emit r s = Inr s1" "invar s1"
    "shown s1 = shown s" "count s1 = count s + (if shown s r then 1 else 0)" by blast
  from Cons.IH [OF s1(2)] s1 show ?case by auto
qed simp

lemma emit_all_silent:
  assumes "invar s" "\<not> list_ex (shown s) rs" "emit_all emit rs s = Inr s'"
  shows "count s' = count s"
proof -
  from assms(2) have none: "filter (shown s) rs = []" by (simp add: filter_empty_conv list_ex_iff)
  with emit_all_ok [OF assms(1), of rs] assms(3) show ?thesis by auto
qed

end

definition shown :: "world \<Rightarrow> report \<Rightarrow> bool" where
  "shown w r \<longleftrightarrow>
     \<not> IsErrorSuppressedByNolint (r_cat r) (r_line r) (nolints w) \<and>
     verbose_level (lint w) \<le> r_conf r \<and> \<not> filtered_out (r_cat r) (filters (lint w))"

lemma Error_eq:
  assumes "filters_ok (lint w)"
  shows "Error r w =
    Inr (if shown w r
         then w\<lparr>lint := IncrementErrorCount (r_cat r) (lint w),
                stderr := stderr w @ format_error (output_format (lint w)) r\<rparr>
         else w)"
  by (simp add: Error_def ShouldPrintError_spec [OF assms] shown_def)

interpretation lint_handler:
  error_handler Error shown "\<lambda>w. error_count (lint w)" "\<lambda>w. filters_ok (lint w) \<and> counts_agree (lint w)"
proof unfold_locales
  fix w :: world and r
  assume "filters_ok (lint w) \<and> counts_agree (lint w)"
  then show "\<exists>w'. Error r w = Inr w' \<and> (filters_ok (lint w') \<and> counts_agree (lint w')) \<and>
    shown w' = shown w \<and> error_count (lint w') = error_count (lint w) + (if shown w r then 1 else 0)"
    by (auto simp: Error_eq counts_agree_increment shown_def fun_eq_iff)
qed

lemma emit_all_Error_state:
  assumes "filters_ok (lint w)" "emit_all Error rs w = Inr w'"
  shows "nolints w' = nolints w \<and> filters (lint w') = filters (lint w) \<and>
    verbose_level (lint w') = verbose_level (lint w) \<and>
    stderr w' = stderr w @ concat (map (format_error (output_format (lint w))) (filter (shown w) rs))"
  using assms
proof (induction rs arbitrary: w)
  case (Cons r rs)
  from Cons.prems obtain w1 where w1: "Error r w = Inr w1" "emit_all Error rs w1 = Inr w'" by auto
  with Cons.prems(1) have eq: "w1 = (if shown w r
         then w\<lparr>lint := IncrementErrorCount (r_cat r) (lint w),
                stderr := stderr w @ format_error (output_format (lint w)) r\<rparr>
         else w)" by (simp add: Error_eq)
  have "filters_ok (lint w1)" "shown w1 = shown w" "output_format (lint w1) = output_format (lint w)"
    using Cons.prems(1) by (auto simp: eq shown_def fun_eq_iff)
  with Cons.IH [OF _ w1(2)] eq show ?case by (auto split: if_splits)
qed simp

section \<open>Runs of the setters\<close>

datatype lint_op =
    Op_output string | Op_verbose int | Op_counting string | Op_set_filters string
  | Op_add_filters string | Op_backup | Op_restore | Op_reset_counts | Op_count string

fun do_op :: "lint_op \<Rightarrow> cpplint_state \<Rightarrow> cpplint_state res" where
  "do_op (Op_output f) st = Inr (SetOutputFormat f st)"
| "do_op (Op_verbose v) st = Inr (fst (SetVerboseLevel v st))"
| "do_op (Op_counting c) st = Inr (SetCountingStyle c st)"
| "do_op (Op_set_filters fs) st = SetFilters fs st"
| "do_op (Op_add_filters fs) st = AddFilters fs st"
| "do_op Op_backup st = Inr (BackupFilters st)"
| "do_op Op_restore st = Inr (RestoreFilters st)"
| "do_op Op_reset_counts st = Inr (ResetErrorCounts st)"
| "do_op (Op_count c) st = Inr (IncrementErrorCount c st)"

fun do_ops :: "lint_op list \<Rightarrow> cpplint_state \<Rightarrow> cpplint_state res" where
  "do_ops [] st = Inr st"
| "do_ops (p # ps) st = res_bind (do_op p st) (do_ops ps)"

lemma do_op_ok: "filters_ok st \<Longrightarrow> do_op p st = Inr st' \<Longrightarrow> filters_ok st'"
  by (cases p) (auto intro: SetFilters_ok AddFilters_ok(1))

lemma do_ops_ok: "filters_ok st \<Longrightarrow> do_ops ps st = Inr st' \<Longrightarrow> filters_ok st'"
  by (induction ps arbitrary: st) (auto intro: do_op_ok)

text \<open>
  C4: After any sequence of operations on the initial linter state that raised nothing, the
  decision whether to print an error never reaches the failing assertion, and the error is
  printed exactly when no NOLINT directive suppresses it, its confidence reaches the
  verbosity level and the last filter that applies to its category does not switch it off.
\<close>
theorem should_print_decision:
  assumes "do_ops ps CppLintState = Inr (lint w)"
  shows "ShouldPrintError category confidence linenum w =
    Inr (\<not> IsErrorSuppressedByNolint category linenum (nolints w) \<and>
         verbose_level (lint w) \<le> confidence \<and> \<not> filtered_out category (filters (lint w)))"
  by (rule ShouldPrintError_spec [OF do_ops_ok [OF filters_ok_init assms]])

definition demo_world :: world where
  "demo_world = \<lparr>lint = CppLintState\<lparr>filters := [''-build/include_alpha'', ''-whitespace'', ''+whitespace/tab'']\<rparr>,
     nolints = ResetNolintSuppressions \<lparr>error_suppressions = Map.empty, global_error_suppressions = Map.empty\<rparr>,
     stderr = []\<rparr>"

theorem should_print_decision_witness:
  "ShouldPrintError ''whitespace/tab'' 5 3 demo_world = Inr True \<and>
   ShouldPrintError ''whitespace/braces'' 5 3 demo_world = Inr False"
proof -
  have ops: "do_ops [Op_set_filters ''-whitespace, +whitespace/tab''] CppLintState = Inr (lint demo_world)"
    by code_simp
  have "\<not> filtered_out ''whitespace/tab'' (filters (lint demo_world))"
    "filtered_out ''whitespace/braces'' (filters (lint demo_world))" "verbose_level (lint demo_world) = 1"
    by code_simp+
  moreover have "\<not> IsErrorSuppressedByNolint c n (nolints demo_world)" for c n
    by (simp add: demo_world_def nolint_store.suppressed_reset)
  ultimately show ?thesis
    by (simp add: should_print_decision [OF ops])
qed

text \<open>
  C17: Handing a list of reports to the error function succeeds, writes the formatted
  text of exactly the reports that are to be shown, in their order, and raises the
  error count by their number; the per-category counts still add up to the total.
\<close>
theorem error_stream:
  assumes "filters_ok (lint w)" "counts_agree (lint w)"
  shows "\<exists>w'. emit_all Error rs w = Inr w' \<and>
    stderr w' = stderr w @ concat (map (format_error (output_format (lint w))) (filter (shown w) rs)) \<and>
    error_count (lint w') = error_count (lint w) + length (filter (shown w) rs) \<and> counts_agree (lint w')"
proof -
  from lint_handler.emit_all_ok [of w rs] assms
  obtain w' where "emit_all Error rs w = Inr w'" "counts_agree (lint w')"
    "error_count (lint w') = error_count (lint w) + length (filter (shown w) rs)" by blast
  with emit_all_Error_state [OF assms(1)] show ?thesis by blast
qed

theorem error_stream_witness:
  "\<exists>w'. emit_all Error [Report ''a.cc'' 3 ''whitespace/tab'' 1 ''Tab found'', Report ''a.cc'' 4 ''whitespace/braces'' 5 ''x'']
        demo_world = Inr w' \<and>
     stderr w' = ''a.cc:3:  Tab found  [whitespace/tab] [1]'' @ [nl] \<and> error_count (lint w') = 1"
proof -
  let ?rs = "[Report ''a.cc'' 3 ''whitespace/tab'' 1 ''Tab found'', Report ''a.cc'' 4 ''whitespace/braces'' 5 ''x'']"
  have ok: "filters_ok (lint demo_world)" "counts_agree (lint demo_world)"
    by (simp_all add: demo_world_def filters_ok_def counts_agree_def CppLintState_def signed_filter_def
        startswith_def DEFAULT_FILTERS_def)
  have "filter (shown demo_world) ?rs = take 1 ?rs"
  proof -
    have "\<not> filtered_out ''whitespace/tab'' (filters (lint demo_world))"
      "filtered_out ''whitespace/braces'' (filters (lint demo_world))" "verbose_level (lint demo_world) = 1"
      by code_simp+
    moreover have "\<not> IsErrorSuppressedByNolint c n (nolints demo_world)" for c n
      by (simp add: demo_world_def nolint_store.suppressed_reset)
    ultimately show ?thesis by (simp add: shown_def)
  qed
  moreover have "format_error (output_format (lint demo_world)) (hd ?rs) = ''a.cc:3:  Tab found  [whitespace/tab] [1]'' @ [nl]"
    "stderr demo_world = []" "error_count (lint demo_world) = 0"
    by code_simp+
  ultimately show ?thesis using error_stream [OF ok, of ?rs] by auto
qed

end
