(* ===== verification/Driver.thy ===== *)
theory Driver
  imports Language Lint_State
begin

text \<open>
  Files, configuration and the command line (\<open>scripts/cpplint.py\<close>: \<open>_USAGE\<close>, the module
  variables, \<open>CheckForBadCharacters\<close>, \<open>ProcessLine\<close>, \<open>ProcessFileData\<close>,
  \<open>ProcessConfigOverrides\<close>, \<open>ProcessFile\<close>, \<open>PrintUsage\<close>, \<open>PrintCategories\<close>,
  \<open>ParseArguments\<close>, \<open>main\<close>). This is where the checks are composed and where their reports
  meet the directives, the filters and the counters. The reports of one check are handed
  over when it returns, between the changes that directives make to the suppressions. The
  module variables are the record \<open>app\<close>; what the operating system and the interpreter
  contribute is the record \<open>lint_env\<close>. The functions of \<open>getopt\<close> that the program uses are
  modelled as the library defines them.
\<close>

section \<open>State\<close>

record lint_env =
  os :: os_env
  read_config :: "string \<Rightarrow> string option"
  key_order :: "string list \<Rightarrow> string list"
  items_order :: "(string \<times> nat) list \<Rightarrow> (string \<times> nat) list"

record app =
  world_of :: world
  line_length :: int
  root_dir :: string
  valid_extensions :: "string list"
  stdin_text :: string

record file_state =
  fs_include :: include_state
  fs_function :: function_state
  fs_nesting :: nesting_state

definition to_stderr :: "string \<Rightarrow> world \<Rightarrow> world" where
  "to_stderr s w = w\<lparr>stderr := stderr w @ s\<rparr>"

definition on_lint :: "(cpplint_state \<Rightarrow> cpplint_state) \<Rightarrow> app \<Rightarrow> app" where
  "on_lint h a = a\<lparr>world_of := (world_of a)\<lparr>lint := h (lint (world_of a))\<rparr>\<rparr>"

definition app_write :: "string \<Rightarrow> app \<Rightarrow> app" where
  "app_write s a = a\<lparr>world_of := to_stderr s (world_of a)\<rparr>"

definition initial_app :: "string \<Rightarrow> app" where
  "initial_app input =
     \<lparr>world_of = \<lparr>lint = CppLintState,
        nolints = \<lparr>error_suppressions = Map.empty, global_error_suppressions = Map.empty\<rparr>, stderr = []\<rparr>,
      line_length = 80, root_dir = [], valid_extensions = [''cc'', ''h'', ''cpp'', ''cu'', ''cuh''],
      stdin_text = input\<rparr>"

text \<open>The functions of the module that only call the linter state.\<close>

abbreviation module_OutputFormat :: "app \<Rightarrow> string" where "module_OutputFormat a \<equiv> output_format (lint (world_of a))"
abbreviation module_VerboseLevel :: "app \<Rightarrow> int" where "module_VerboseLevel a \<equiv> verbose_level (lint (world_of a))"

definition module_SetOutputFormat :: "string \<Rightarrow> app \<Rightarrow> app" where "module_SetOutputFormat f = on_lint (SetOutputFormat f)"
definition module_SetVerboseLevel :: "int \<Rightarrow> app \<Rightarrow> app" where "module_SetVerboseLevel v = on_lint (\<lambda>l. fst (SetVerboseLevel v l))"
definition module_SetCountingStyle :: "string \<Rightarrow> app \<Rightarrow> app" where "module_SetCountingStyle c = on_lint (SetCountingStyle c)"
definition module_BackupFilters :: "app \<Rightarrow> app" where "module_BackupFilters = on_lint BackupFilters"
definition module_RestoreFilters :: "app \<Rightarrow> app" where "module_RestoreFilters = on_lint RestoreFilters"

definition module_SetFilters :: "string \<Rightarrow> app \<Rightarrow> app res" where
  "module_SetFilters fs a = res_bind (SetFilters fs (lint (world_of a))) (\<lambda>l. Inr (on_lint (\<lambda>_. l) a))"

definition module_AddFilters :: "string \<Rightarrow> app \<Rightarrow> app res" where
  "module_AddFilters fs a = res_bind (AddFilters fs (lint (world_of a))) (\<lambda>l. Inr (on_lint (\<lambda>_. l) a))"

section \<open>Lines of a file\<close>

text \<open>Lines as lists of code points: the replacement character is outside the characters of the other checks.\<close>

definition CheckForBadCharacters :: "string \<Rightarrow> nat list list \<Rightarrow> report list" where
  "CheckForBadCharacters filename ls =
     concat (map (\<lambda>(linenum, line).
       flag (0xFFFD \<in> set line) filename linenum ''readability/utf8'' 5
         ''Line contains invalid UTF-8 (or Unicode replacement character).'' @
       flag (0 \<in> set line) filename linenum ''readability/nul'' 5 ''Line contains NUL byte.'') (enumerate 0 ls))"

type_synonym extra_check = "string \<Rightarrow> cleansed_lines \<Rightarrow> nat \<Rightarrow> report list res"

record line_options =
  lo_env :: os_env
  lo_root :: string
  lo_length :: int
  lo_verbosity :: int
  lo_extension :: string
  lo_extra :: "extra_check list"

definition later_checks :: "line_options \<Rightarrow> check list" where
  "later_checks o1 =
     [CheckForNonConstReference,
      CheckForNonStandardConstructs,
      \<lambda>f cl n st. CheckVlogArguments f cl n,
      \<lambda>f cl n st. CheckPosixThreading f cl n,
      \<lambda>f cl n st. CheckInvalidIncrement f cl n,
      \<lambda>f cl n st. CheckMakePairUsesDeduction f cl n,
      \<lambda>f cl n st. CheckRedundantVirtual f cl n,
      \<lambda>f cl n st. CheckRedundantOverrideOrFinal f cl n] @
     map (\<lambda>check_fn f cl n st. check_fn f cl n) (lo_extra o1)"

text \<open>What \<open>ProcessLine\<close> does after the directives: the new state and the reports, in order.\<close>

definition check_line ::
  "line_options \<Rightarrow> string \<Rightarrow> cleansed_lines \<Rightarrow> nat \<Rightarrow> file_state \<Rightarrow> (file_state \<times> report list) res" where
  "check_line o1 filename clean_lines n fs =
     res_bind (Update filename clean_lines n (fs_nesting fs)) (\<lambda>(nesting, r1).
     res_bind (CheckForNamespaceIndentation filename nesting clean_lines n) (\<lambda>r2.
       (let fs1 = fs\<lparr>fs_nesting := nesting\<rparr>
        in if InAsmBlock nesting then Inr (fs1, r1 @ r2)
           else
             res_bind (CheckForFunctionLengths (lo_verbosity o1) filename clean_lines n (fs_function fs)) (\<lambda>(function, r3).
             res_bind (CheckForMultilineCommentsAndStrings filename clean_lines n) (\<lambda>r4.
             res_bind (CheckStyle (lo_env o1) (lo_root o1) (lo_length o1) (lo_extension o1) filename clean_lines n nesting) (\<lambda>r5.
             res_bind (CheckLanguage (lo_env o1) (lo_extension o1) filename clean_lines n (fs_include fs)) (\<lambda>(includes, r6).
             res_bind (run_checks (later_checks o1) filename clean_lines n nesting) (\<lambda>r7.
               Inr (fs1\<lparr>fs_function := function, fs_include := includes\<rparr>, r1 @ r2 @ r3 @ r4 @ r5 @ r6 @ r7)))))))))"

definition directives :: "string \<Rightarrow> string \<Rightarrow> nat \<Rightarrow> world \<Rightarrow> world res" where
  "directives filename raw_line n w =
     (let (ns, rs) = ParseNolintSuppressions filename raw_line (int n) (nolints w)
      in emit_all Error rs (w\<lparr>nolints := ns\<rparr>))"

definition ProcessLine ::
  "line_options \<Rightarrow> string \<Rightarrow> cleansed_lines \<Rightarrow> nat \<Rightarrow> file_state \<times> world \<Rightarrow> (file_state \<times> world) res" where
  "ProcessLine o1 filename clean_lines n = (\<lambda>(fs, w).
     res_bind (py_nth (cl_raw_lines clean_lines) (int n)) (\<lambda>raw_line.
     res_bind (directives filename raw_line n w) (\<lambda>w1.
     res_bind (check_line o1 filename clean_lines n fs) (\<lambda>(fs', rs).
     res_bind (emit_all Error rs w1) (\<lambda>w2.
       Inr (fs', w2))))))"

fun process_lines ::
  "line_options \<Rightarrow> string \<Rightarrow> cleansed_lines \<Rightarrow> nat list \<Rightarrow> file_state \<times> world \<Rightarrow> (file_state \<times> world) res" where
  "process_lines o1 filename clean_lines [] s = Inr s"
| "process_lines o1 filename clean_lines (n # ns) s =
     res_bind (ProcessLine o1 filename clean_lines n s) (\<lambda>(fs, w).
     res_bind (FlagCxx11Features filename clean_lines n) (\<lambda>rs.
     res_bind (emit_all Error rs w) (\<lambda>w'.
       process_lines o1 filename clean_lines ns (fs, w'))))"

fun do_acts :: "string \<Rightarrow> lint_act list \<Rightarrow> world \<Rightarrow> world res" where
  "do_acts filename [] w = Inr w"
| "do_acts filename (Directive line n # acts) w = res_bind (directives filename line n w) (do_acts filename acts)"
| "do_acts filename (Say r # acts) w = res_bind (Error r w) (do_acts filename acts)"

text \<open>The checks of a file after its last line.\<close>

definition final_reports ::
  "lint_env \<Rightarrow> string \<Rightarrow> string \<Rightarrow> string list \<Rightarrow> cleansed_lines \<Rightarrow> file_state \<Rightarrow> report list res" where
  "final_reports env file_extension filename ls clean_lines fs =
     res_bind (CheckForIncludeWhatYouUse (os env) (key_order env) filename clean_lines (fs_include fs)) (\<lambda>missing.
     res_bind (if IsSourceExtension file_extension
               then CheckHeaderFileIncluded (os env) filename (fs_include fs) else Inr []) (\<lambda>header.
       Inr (CheckCompletedBlocks filename (fs_nesting fs) @ missing @ header @
            CheckForBadCharacters filename (map (map ord_of) ls) @ CheckForNewlineAtEOF filename ls)))"

definition with_markers :: "string list \<Rightarrow> string list" where
  "with_markers ls =
     [''// marker so line numbers and indices both start at 1''] @ ls @ [''// marker so line numbers end in a known way'']"

definition ProcessFileData ::
  "lint_env \<Rightarrow> line_options \<Rightarrow> string \<Rightarrow> string list \<Rightarrow> world \<Rightarrow> world res" where
  "ProcessFileData env o1 filename file_lines w =
     (let ls = with_markers file_lines;
          w1 = w\<lparr>nolints := ResetNolintSuppressions (nolints w)\<rparr>
      in res_bind IncludeState (\<lambda>includes.
         res_bind (emit_all Error (CheckForCopyright filename ls) w1) (\<lambda>w2.
           (let w3 = w2\<lparr>nolints := ProcessGlobalSuppresions ls (nolints w2)\<rparr>;
                (ls', comments) = RemoveMultiLineComments filename ls
            in res_bind (emit_all Error comments w3) (\<lambda>w4.
               res_bind (CleansedLines ls') (\<lambda>clean_lines.
               res_bind (if lo_extension o1 = ''h''
                         then CheckForHeaderGuard (os env) (lo_root o1) filename clean_lines else Inr []) (\<lambda>acts.
               res_bind (do_acts filename acts w4) (\<lambda>w5.
               res_bind (process_lines o1 filename clean_lines [0..<NumLines clean_lines]
                           (\<lparr>fs_include = includes, fs_function = FunctionState, fs_nesting = NestingState\<rparr>, w5)) (\<lambda>(fs, w6).
               res_bind (final_reports env (lo_extension o1) filename ls' clean_lines fs) (\<lambda>rs.
                 emit_all Error rs w6))))))))))"

section \<open>Configuration files\<close>

text \<open>\<open>int\<close> of a string: white space around, a sign, decimal digits.\<close>

definition parse_int :: "string \<Rightarrow> int option" where
  "parse_int s =
     (let t = byte_strip s;
          (neg, ds) = (if startswith t ''-'' then (True, tl t) else if startswith t ''+'' then (False, tl t) else (False, t));
          n = int (fold (\<lambda>c k. 10 * k + (ord_of c - 48)) ds 0)
      in if ds = [] \<or> \<not> list_all is_digit ds then None else Some (if neg then - n else n))"

definition partition_at :: "char \<Rightarrow> string \<Rightarrow> string \<times> string" where
  "partition_at c s = (takeWhile (\<lambda>d. d \<noteq> c) s, drop 1 (dropWhile (\<lambda>d. d \<noteq> c) s))"

record cfg =
  cfg_keep_looking :: bool
  cfg_filters :: "string list"

datatype cfg_result = Go_on cfg app | Excluded app

definition cfg_option ::
  "string \<Rightarrow> string \<Rightarrow> string \<Rightarrow> string \<Rightarrow> string \<Rightarrow> cfg \<Rightarrow> app \<Rightarrow> cfg_result res" where
  "cfg_option filename cfg_file base_name name val c a =
     (if name = ''set noparent'' then Inr (Go_on (c\<lparr>cfg_keep_looking := False\<rparr>) a)
      else if name = ''filter'' then Inr (Go_on (c\<lparr>cfg_filters := cfg_filters c @ [val]\<rparr>) a)
      else if name = ''exclude_files'' then
        (if base_name = [] then Inr (Go_on c a)
         else
           (case compile val of
              None \<Rightarrow> Inl (ValueError val)
            | Some pattern \<Rightarrow>
                Inr (if re_match pattern base_name \<noteq> None
                     then Excluded (app_write (''Ignoring \"'' @ filename @ ''\": file excluded by \"'' @ cfg_file @
                            ''\". '' @ ''File path component \"'' @ base_name @ ''\" matches '' @ ''pattern \"'' @ val @
                            ''\"'' @ [nl]) a)
                     else Go_on c a)))
      else if name = ''linelength'' then
        Inr (Go_on c (case parse_int val of
                        None \<Rightarrow> app_write ''Line length must be numeric.'' a
                      | Some n \<Rightarrow> a\<lparr>line_length := n\<rparr>))
      else Inr (Go_on c (app_write (''Invalid configuration option ('' @ name @ '') in file '' @ cfg_file @ [nl]) a)))"

fun cfg_lines :: "string \<Rightarrow> string \<Rightarrow> string \<Rightarrow> string list \<Rightarrow> cfg \<Rightarrow> app \<Rightarrow> cfg_result res" where
  "cfg_lines filename cfg_file base_name [] c a = Inr (Go_on c a)"
| "cfg_lines filename cfg_file base_name (l # ls) c a =
     (let line = fst (partition_at (CHR ''#'') l)
      in if byte_strip line = [] then cfg_lines filename cfg_file base_name ls c a
         else
           (let (name, val) = partition_at (CHR ''='') line
            in res_bind (cfg_option filename cfg_file base_name (byte_strip name) (byte_strip val) c a) (\<lambda>r.
                 (case r of
                    Excluded a' \<Rightarrow> Inr (Excluded a')
                  | Go_on c' a' \<Rightarrow> cfg_lines filename cfg_file base_name ls c' a'))))"

lemma path_split_shorter: "(head, tail) = path_split p \<Longrightarrow> tail \<noteq> [] \<Longrightarrow> length head < length p"
proof -
  assume split: "(head, tail) = path_split p" and "tail \<noteq> []"
  then have i: "nat (py_rfind p slash + 1) < length p" using split by (simp add: path_split_def Let_def)
  have "length (rstrip_slash t) \<le> length t" for t using rstrip_slash_prefix by (rule prefix_length_le)
  from this [of "take (nat (py_rfind p slash + 1)) p"] i split show ?thesis
    by (auto simp: path_split_def Let_def split: if_splits)
qed

function cfg_walk :: "lint_env \<Rightarrow> string \<Rightarrow> string \<Rightarrow> cfg \<Rightarrow> app \<Rightarrow> cfg_result res" where
  "cfg_walk env filename abs_filename c a =
     (if \<not> cfg_keep_looking c then Inr (Go_on c a)
      else
        (let (abs_path, base_name) = path_split abs_filename
         in if base_name = [] then Inr (Go_on c a)
            else
              (let cfg_file = path_join abs_path ''CPPLINT.cfg''
               in if \<not> path_isfile (os env) cfg_file then cfg_walk env filename abs_path c a
                  else
                    (case read_config env cfg_file of
                       None \<Rightarrow>
                         Inr (Go_on (c\<lparr>cfg_keep_looking := False\<rparr>)
                           (app_write (''Skipping config file '' @ [sq] @ cfg_file @ [sq] @ '': Can'' @ [sq] @ ''t open for reading'' @ [nl]) a))
                     | Some content \<Rightarrow>
                         (case cfg_lines filename cfg_file base_name (split_chr nl content) c a of
                            Inl e \<Rightarrow> Inl e
                          | Inr (Excluded a') \<Rightarrow> Inr (Excluded a')
                          | Inr (Go_on c' a') \<Rightarrow> cfg_walk env filename abs_path c' a')))))"
  by pat_completeness auto
termination
  by (relation "measure (\<lambda>(_, _, p, _, _). length p)") (auto dest: path_split_shorter)

declare cfg_walk.simps [simp del]

fun add_all_filters :: "string list \<Rightarrow> app \<Rightarrow> app res" where
  "add_all_filters [] a = Inr a"
| "add_all_filters (f # fs) a = res_bind (module_AddFilters f a) (add_all_filters fs)"

definition ProcessConfigOverrides :: "lint_env \<Rightarrow> string \<Rightarrow> app \<Rightarrow> (bool \<times> app) res" where
  "ProcessConfigOverrides env filename a =
     res_bind (cfg_walk env filename (abspath (os env) filename) \<lparr>cfg_keep_looking = True, cfg_filters = []\<rparr> a) (\<lambda>r.
       (case r of
          Excluded a' \<Rightarrow> Inr (False, a')
        | Go_on c a' \<Rightarrow> res_bind (add_all_filters (rev (cfg_filters c)) a') (\<lambda>a''. Inr (True, a''))))"

section \<open>A file\<close>

text \<open>The text of a file without the carriage returns at the ends of its lines, and where these were.\<close>

fun strip_returns :: "nat \<Rightarrow> string list \<Rightarrow> string list \<times> nat list \<times> nat list" where
  "strip_returns k [] = ([], [], [])"
| "strip_returns k [l] = ([l], [], [])"
| "strip_returns k (l # l' # ls) =
     (let (rest, lf_lines, crlf_lines) = strip_returns (Suc k) (l' # ls)
      in if endswith l [CHR 0x0D] then (rstrip_set [CHR 0x0D] l # rest, lf_lines, k # crlf_lines)
         else (l # rest, k # lf_lines, crlf_lines))"

definition read_input :: "lint_env \<Rightarrow> string \<Rightarrow> app \<Rightarrow> (string \<times> app) option" where
  "read_input env filename a =
     (if filename = ''-'' then Some (stdin_text a, a\<lparr>stdin_text := []\<rparr>)
      else map_option (\<lambda>content. (content, a)) (read_file (os env) filename))"

definition mixed_line_ends :: "string \<Rightarrow> nat list \<Rightarrow> nat list \<Rightarrow> report list" where
  "mixed_line_ends filename lf_lines crlf_lines =
     (if lf_lines \<noteq> [] \<and> crlf_lines \<noteq> []
      then map (\<lambda>n. Report filename (int n) ''whitespace/newline'' 1
             (''Unexpected '' @ [bsl] @ ''r (^M) found; better to use only '' @ [bsl] @ ''n'')) crlf_lines
      else [])"

definition file_extension_of :: "string \<Rightarrow> string" where
  "file_extension_of filename = drop (nat (py_rfind filename (CHR ''.'') + 1)) filename"

definition lint_file :: "lint_env \<Rightarrow> extra_check list \<Rightarrow> string \<Rightarrow> string \<Rightarrow> app \<Rightarrow> app res" where
  "lint_file env extra filename content a =
     (let (ls, lf_lines, crlf_lines) = strip_returns 1 (split_chr nl content);
          ext = file_extension_of filename
      in if filename \<noteq> ''-'' \<and> ext \<notin> set (valid_extensions a)
         then Inr (app_write (''Ignoring '' @ filename @ ''; not a valid file name '' @ ''('' @
                join '', '' (key_order env (valid_extensions a)) @ '')'' @ [nl]) a)
         else
           (let o1 = \<lparr>lo_env = os env, lo_root = root_dir a, lo_length = line_length a,
                       lo_verbosity = verbose_level (lint (world_of a)), lo_extension = ext, lo_extra = extra\<rparr>
            in res_bind (ProcessFileData env o1 filename ls (world_of a)) (\<lambda>w.
               res_bind (emit_all Error (mixed_line_ends filename lf_lines crlf_lines) w) (\<lambda>w'.
                 Inr (a\<lparr>world_of := w'\<rparr>)))))"

definition ProcessFile :: "lint_env \<Rightarrow> extra_check list \<Rightarrow> string \<Rightarrow> int \<Rightarrow> app \<Rightarrow> app res" where
  "ProcessFile env extra filename vlevel a =
     (let a1 = module_BackupFilters (module_SetVerboseLevel vlevel a)
      in res_bind (ProcessConfigOverrides env filename a1) (\<lambda>(go_on, a2).
           if \<not> go_on then Inr (module_RestoreFilters a2)
           else
             (case read_input env filename a2 of
                None \<Rightarrow>
                  Inr (module_RestoreFilters (app_write (''Skipping input '' @ [sq] @ filename @ [sq] @
                    '': Can'' @ [sq] @ ''t open for reading'' @ [nl]) a2))
              | Some (content, a3) \<Rightarrow>
                  res_bind (lint_file env extra filename content a3) (\<lambda>a4.
                    Inr (module_RestoreFilters (app_write (''Done processing '' @ filename @ [nl]) a4))))))"

section \<open>The command line\<close>

definition USAGE :: string where
  "USAGE = join [nl]
    [[],
     ''Syntax: cpplint.py [--verbose=#] [--output=vs7] [--filter=-x,+y,...]'',
     ''                   [--counting=total|toplevel|detailed] [--root=subdir]'',
     ''                   [--linelength=digits]'',
     ''        <file> [file] ...'',
     [],
     ''  The style guidelines this tries to follow are those in'',
     ''    https://google-styleguide.googlecode.com/svn/trunk/cppguide.xml'',
     [],
     ''  Every problem is given a confidence score from 1-5, with 5 meaning we are'',
     ''  certain of the problem, and 1 meaning it could be a legitimate construct.'',
     ''  This will miss some errors, and is not a substitute for a code review.'',
     [],
     ''  To suppress false-positive errors of a certain category, add a'',
     ''  'NOLINT(category)' comment to the line.  NOLINT or NOLINT(*)'',
     ''  suppresses errors of all categories on that line.'',
     [],
     ''  The files passed in will be linted; at least one file must be provided.'',
     ''  Default linted extensions are .cc, .cpp, .cu, .cuh and .h.  Change the'',
     ''  extensions with the --extensions flag.'',
     [],
     ''  Flags:'',
     [],
     ''    output=vs7'',
     ''      By default, the output is formatted to ease emacs parsing.  Visual Studio'',
     ''      compatible output (vs7) may also be used.  Other formats are unsupported.'',
     [],
     ''    verbose=#'',
     ''      Specify a number 0-5 to restrict errors to certain verbosity levels.'',
     [],
     ''    filter=-x,+y,...'',
     ''      Specify a comma-separated list of category-filters to apply: only'',
     ''      error messages whose category names pass the filters will be printed.'',
     ''      (Category names are printed with the message and look like'',
     ''      \"[whitespace/indent]\".)  Filters are evaluated left to right.'',
     ''      \"-FOO\" and \"FOO\" means \"do not print categories that start with FOO\".'',
     ''      \"+FOO\" means \"do print categories that start with FOO\".'',
     [],
     ''      Examples: --filter=-whitespace,+whitespace/braces'',
     ''                --filter=whitespace,runtime/printf,+runtime/printf_format'',
     ''                --filter=-,+build/include_what_you_use'',
     [],
     ''      To see a list of all the categories used in cpplint, pass no arg:'',
     ''         --filter='',
     [],
     ''    counting=total|toplevel|detailed'',
     ''      The total number of errors found is always printed. If'',
     ''      'toplevel' is provided, then the count of errors in each of'',
     ''      the top-level categories like 'build' and 'whitespace' will'',
     ''      also be printed. If 'detailed' is provided, then a count'',
     ''      is provided for each category like 'build/class'.'',
     [],
     ''    root=subdir'',
     ''      The root directory used for deriving header guard CPP variable.'',
     ''      By default, the header guard CPP variable is calculated as the relative'',
     ''      path to the directory that contains .git, .hg, or .svn.  When this flag'',
     ''      is specified, the relative path is calculated from the specified'',
     ''      directory. If the specified directory does not exist, this flag is'',
     ''      ignored.'',
     [],
     ''      Examples:'',
     ''        Assuming that src/.git exists, the header guard CPP variables for'',
     ''        src/chrome/browser/ui/browser.h are:'',
     [],
     ''        No flag => CHROME_BROWSER_UI_BROWSER_H_'',
     ''        --root=chrome => BROWSER_UI_BROWSER_H_'',
     ''        --root=chrome/browser => UI_BROWSER_H_'',
     [],
     ''    linelength=digits'',
     ''      This is the allowed line length for the project. The default value is'',
     ''      80 characters.'',
     [],
     ''      Examples:'',
     ''        --linelength=120'',
     [],
     ''    extensions=extension,extension,...'',
     ''      The allowed file extensions that cpplint will check'',
     [],
     ''      Examples:'',
     ''        --extensions=hpp,cpp'',
     [],
     ''    cpplint.py supports per-directory configurations specified in CPPLINT.cfg'',
     ''    files. CPPLINT.cfg file can contain a number of key=value pairs.'',
     ''    Currently the following options are supported:'',
     [],
     ''      set noparent'',
     ''      filter=+filter1,-filter2,...'',
     ''      exclude_files=regex'',
     ''      linelength=80'',
     [],
     ''    \"set noparent\" option prevents cpplint from traversing directory tree'',
     ''    upwards looking for more .cfg files in parent directories. This option'',
     ''    is usually placed in the top-level project directory.'',
     [],
     ''    The \"filter\" option is similar in function to --filter flag. It specifies'',
     ''    message filters in addition to the |_DEFAULT_FILTERS| and those specified'',
     ''    through --filter command-line flag.'',
     [],
     ''    \"exclude_files\" allows to specify a regular expression to be matched against'',
     ''    a file name. If the expression matches, the file is skipped and not run'',
     ''    through liner.'',
     [],
     ''    \"linelength\" allows to specify the allowed line length for the project.'',
     [],
     ''    CPPLINT.cfg has an effect on files in the same directory and all'',
     ''    sub-directories, unless overridden by a nested configuration file.'',
     [],
     ''      Example file:'',
     ''        filter=-build/include_order,+build/include_alpha'',
     (''        exclude_files=.*'' @ [bsl] @ ''.cc''),
     [],
     ''    The above example disables build/include_order warning and enables'',
     ''    build/include_alpha as well as excludes all .cc from being'',
     ''    processed by linter, in the current directory (where the .cfg'',
     ''    file is located) and all sub-directories.'',
     []]"

text \<open>The text on the standard error stream and the exit status.\<close>

definition PrintUsage :: "string option \<Rightarrow> string \<times> int" where
  "PrintUsage message =
     (USAGE @ (case message of None \<Rightarrow> [] | Some m \<Rightarrow> [nl] @ ''FATAL ERROR: '' @ m @ [nl]), 1)"

definition PrintCategories :: "string \<times> int" where
  "PrintCategories = (concat (map (\<lambda>cat. ''  '' @ cat @ [nl]) ERROR_CATEGORIES), 0)"

text \<open>\<open>getopt.getopt\<close> without short options: nothing stands for a \<open>GetoptError\<close>.\<close>

definition long_has_args :: "string \<Rightarrow> string list \<Rightarrow> (bool \<times> string) option" where
  "long_has_args opt longopts =
     (let possibilities = filter (\<lambda>o1. startswith o1 opt) longopts
      in if possibilities = [] then None
         else if opt \<in> set possibilities then Some (False, opt)
         else if opt @ ''='' \<in> set possibilities then Some (True, opt)
         else if length possibilities > 1 then None
         else (let unique_match = hd possibilities
               in if endswith unique_match ''='' then Some (True, butlast unique_match) else Some (False, unique_match)))"

definition do_longs :: "string \<Rightarrow> string list \<Rightarrow> string list \<Rightarrow> ((string \<times> string) \<times> string list) option" where
  "do_longs arg longopts args =
     (let (opt, optarg) = (if contains arg ''='' then (fst (partition_at (CHR ''='') arg), Some (snd (partition_at (CHR ''='') arg))) else (arg, None))
      in (case long_has_args opt longopts of
            None \<Rightarrow> None
          | Some (True, name) \<Rightarrow>
              (case optarg of
                 Some v \<Rightarrow> Some ((''--'' @ name, v), args)
               | None \<Rightarrow> (case args of [] \<Rightarrow> None | v # rest \<Rightarrow> Some ((''--'' @ name, v), rest)))
          | Some (False, name) \<Rightarrow> (if optarg = None then Some ((''--'' @ name, []), args) else None)))"

lemma do_longs_shorter: "do_longs arg longopts args = Some (opt, rest) \<Longrightarrow> length rest \<le> length args"
  by (auto simp: do_longs_def Let_def split: option.splits bool.splits list.splits if_splits prod.splits)

function getopt :: "string list \<Rightarrow> string list \<Rightarrow> ((string \<times> string) list \<times> string list) option" where
  "getopt longopts [] = Some ([], [])"
| "getopt longopts (arg # args) =
     (if \<not> startswith arg ''-'' \<or> arg = ''-'' then Some ([], arg # args)
      else if arg = ''--'' then Some ([], args)
      else if startswith arg ''--'' then
        (case do_longs (drop 2 arg) longopts args of
           None \<Rightarrow> None
         | Some (opt, rest) \<Rightarrow> map_option (\<lambda>(opts, names). (opt # opts, names)) (getopt longopts rest))
      else None)"
  by pat_completeness auto
termination
  by (relation "measure (\<lambda>(_, args). length args)") (auto dest: do_longs_shorter)

definition LONG_OPTIONS :: "string list" where
  "LONG_OPTIONS = [''help'', ''output='', ''verbose='', ''counting='', ''filter='', ''root='', ''linelength='', ''extensions='']"

record parsed =
  p_verbosity :: int
  p_output_format :: string
  p_filters :: string
  p_counting_style :: string

text \<open>The value of an option: an exit with its text, or the options and variables after it.\<close>

datatype 'a step = Leave "string \<times> int" | Stay 'a

definition take_option :: "string \<Rightarrow> string \<Rightarrow> parsed \<Rightarrow> app \<Rightarrow> (parsed \<times> app) step res" where
  "take_option opt val p a =
     (if opt = ''--help'' then Inr (Leave (PrintUsage None))
      else if opt = ''--output'' then
        Inr (if val \<notin> set [''emacs'', ''vs7'', ''eclipse'']
             then Leave (PrintUsage (Some ''The only allowed output formats are emacs, vs7 and eclipse.''))
             else Stay (p\<lparr>p_output_format := val\<rparr>, a))
      else if opt = ''--verbose'' then
        (case parse_int val of
           None \<Rightarrow> Inl (ValueError val)
         | Some v \<Rightarrow> Inr (Stay (p\<lparr>p_verbosity := v\<rparr>, a)))
      else if opt = ''--filter'' then
        Inr (if val = [] then Leave PrintCategories else Stay (p\<lparr>p_filters := val\<rparr>, a))
      else if opt = ''--counting'' then
        Inr (if val \<notin> set [''total'', ''toplevel'', ''detailed'']
             then Leave (PrintUsage (Some ''Valid counting options are total, toplevel, and detailed''))
             else Stay (p\<lparr>p_counting_style := val\<rparr>, a))
      else if opt = ''--root'' then Inr (Stay (p, a\<lparr>root_dir := val\<rparr>))
      else if opt = ''--linelength'' then
        Inr (case parse_int val of
               None \<Rightarrow> Leave (PrintUsage (Some ''Line length must be digits.''))
             | Some n \<Rightarrow> Stay (p, a\<lparr>line_length := n\<rparr>))
      else if opt = ''--extensions'' then
        Inr (Stay (p, a\<lparr>valid_extensions := remdups (split_chr (CHR '','') val)\<rparr>))
      else Inr (Stay (p, a)))"

fun take_options :: "(string \<times> string) list \<Rightarrow> parsed \<Rightarrow> app \<Rightarrow> (parsed \<times> app) step res" where
  "take_options [] p a = Inr (Stay (p, a))"
| "take_options ((opt, val) # opts) p a =
     res_bind (take_option opt val p a) (\<lambda>r.
       (case r of Leave e \<Rightarrow> Inr (Leave e) | Stay (p', a') \<Rightarrow> take_options opts p' a'))"

definition ParseArguments :: "string list \<Rightarrow> app \<Rightarrow> (string list \<times> app) step res" where
  "ParseArguments args a =
     (case getopt LONG_OPTIONS args of
        None \<Rightarrow> Inr (Leave (PrintUsage (Some ''Invalid arguments.'')))
      | Some (opts, filenames) \<Rightarrow>
          res_bind (take_options opts
              \<lparr>p_verbosity = module_VerboseLevel a, p_output_format = module_OutputFormat a, p_filters = [], p_counting_style = []\<rparr> a) (\<lambda>r.
            (case r of
               Leave e \<Rightarrow> Inr (Leave e)
             | Stay (p, a1) \<Rightarrow>
                 (if filenames = [] then Inr (Leave (PrintUsage (Some ''No files were specified.'')))
                  else
                    (let a2 = module_SetVerboseLevel (p_verbosity p) (module_SetOutputFormat (p_output_format p) a1)
                     in res_bind (module_SetFilters (p_filters p) a2) (\<lambda>a3.
                          Inr (Stay (filenames, module_SetCountingStyle (p_counting_style p) a3))))))))"

fun process_files :: "lint_env \<Rightarrow> string list \<Rightarrow> app \<Rightarrow> app res" where
  "process_files env [] a = Inr a"
| "process_files env (filename # filenames) a =
     res_bind (ProcessFile env [] filename (module_VerboseLevel a) a) (process_files env filenames)"

text \<open>The exit status and the text on the standard error stream.\<close>

definition main :: "lint_env \<Rightarrow> string \<Rightarrow> string list \<Rightarrow> (string \<times> int) res" where
  "main env input args =
     res_bind (ParseArguments args (initial_app input)) (\<lambda>r.
       (case r of
          Leave e \<Rightarrow> Inr e
        | Stay (filenames, a) \<Rightarrow>
            res_bind (process_files env filenames (on_lint ResetErrorCounts a)) (\<lambda>a1.
              Inr (stderr (world_of a1) @ PrintErrorCounts (items_order env) (lint (world_of a1)),
                   if error_count (lint (world_of a1)) > 0 then 1 else 0))))"

end
