(* ===== verification/Reports.thy ===== *)
theory Reports
  imports Driver
begin

text \<open>
  The reports of the whole pipeline: whatever a check, a directive or the driver reports is
  about the file that is processed, in one of the documented categories, with a confidence
  from 0 to 5, so that filters and verbosity apply to all of it. Nothing is assumed of the
  environment; a check that raises reports nothing.
\<close>

definition report_about :: "string \<Rightarrow> report \<Rightarrow> bool" where
  "report_about filename r \<longleftrightarrow> r_file r = filename \<and> r_cat r \<in> set ERROR_CATEGORIES \<and> 0 \<le> r_conf r \<and> r_conf r \<le> 5"

abbreviation all_about :: "string \<Rightarrow> report list \<Rightarrow> bool" where
  "all_about filename \<equiv> list_all (report_about filename)"

lemma report_about_Report [simp]:
  "report_about f (Report g l category confidence message) \<longleftrightarrow>
     g = f \<and> category \<in> set ERROR_CATEGORIES \<and> 0 \<le> confidence \<and> confidence \<le> 5"
  by (simp add: report_about_def)

lemma flag_about [oks]:
  "report_about f (Report g (int n) category confidence message) \<Longrightarrow> all_about f (flag b g n category confidence message)"
  by (simp add: flag_def)

lemma report_ok_about: "report_ok f num r \<Longrightarrow> report_about f r"
  by (cases r) simp

lemma reports_ok_about: "list_all (report_ok f num) rs \<Longrightarrow> all_about f rs"
  by (auto simp: list_all_iff intro: report_ok_about)


section \<open>Checks with a state\<close>

lemma check_disallow_about: "all_about f (check_disallow f name ls seen)"
proof (induction ls arbitrary: seen)
  case (Cons l ls)
  then show ?case by (cases l) (simp split: option.split)
qed simp

lemma CheckEnd_about: "CheckEnd f cl n b = Inr rs \<Longrightarrow> all_about f rs"
  by (auto simp: CheckEnd_def ClassInfo_CheckEnd_def NamespaceInfo_CheckEnd_def Let_def check_disallow_about
      split: block_kind.splits option.splits if_splits)

lemma braces_about: "braces f cl n l st = Inr (st', rs) \<Longrightarrow> all_about f rs"
proof (induction f cl n l st arbitrary: st' rs rule: braces.induct)
  case (1 f cl n l st)
  show ?case
  proof (cases "Match BRACE l")
    case None
    with 1(2) show ?thesis by (subst (asm) braces.simps) simp
  next
    case (Some m)
    with 1(2) obtain st1 r1 r2 where tok: "brace_token f cl n (grp m 1) l st = Inr (st1, r1)"
      and rest: "braces f cl n (grp m 2) st1 = Inr (st', r2)" and rs: "rs = r1 @ r2"
      by (subst (asm) braces.simps) (auto split: sum.splits)
    from tok have "all_about f r1"
      by (auto simp: brace_token_def close_brace_def dest: CheckEnd_about split: if_splits list.splits)
    with 1(1)[OF Some tok refl rest] rs show ?thesis by simp
  qed
qed

lemma update_access_about: "all_about f (snd (update_access f n l st))"
  by (simp add: update_access_def split: list.split block_kind.split option.split)

lemma Update_about: "Update f cl n st = Inr (st', rs) \<Longrightarrow> all_about f rs"
  by (erule UpdateE) (simp add: update_access_about braces_about)

lemma CompletedBlocks_about: "all_about f (CheckCompletedBlocks f st)"
  by (auto simp: CheckCompletedBlocks_def list_all_iff split: block_kind.splits)

lemma Check_about: "Check v f n st = Inr rs \<Longrightarrow> all_about f rs"
  by (auto simp: Check_def Let_def split: if_splits)

lemma FunctionLengths_about: "CheckForFunctionLengths v f cl n st = Inr (st', rs) \<Longrightarrow> all_about f rs"
  by (auto simp: CheckForFunctionLengths_def dest: Check_about split: if_splits)

section \<open>Style and language\<close>

text \<open>The part of the contract that concerns the reports is kept without the part that concerns exceptions.\<close>

lemma run_checks_reports: "list_all line_reports cs \<Longrightarrow> line_reports (run_checks cs)"
proof (induction cs)
  case Nil
  show ?case unfolding run_checks_Nil by (rule line_reportsI) (simp add: yields_def)
next
  case (Cons c cs)
  then have "line_reports c" "line_reports (run_checks cs)" by simp_all
  then show ?case unfolding run_checks_Cons seq_check_def
    by (intro line_reportsI oks) (auto dest: line_reports.reports)
qed

lemma line_reports_about:
  "line_reports c \<Longrightarrow> line_ctx cl n st \<Longrightarrow> c f cl n st = Inr rs \<Longrightarrow> all_about f rs"
  by (rule reports_ok_about) (rule line_reports.reports)

lemma line_style_reports: "line_reports (\<lambda>f cl n st. line_style env root len e f cl n)"
  by (rule line_reportsI, unfold line_style_def) (intro oks; simp add: line_ctxD)

lemma CheckStyle_reports: "line_reports (CheckStyle env root len e)"
  unfolding CheckStyle_def style_checks_def
  by (intro run_checks_reports; simp) (intro conjI line_style_reports; unfold_locales)

lemma later_checks_reports: "lo_extra o1 = [] \<Longrightarrow> line_reports (run_checks (later_checks o1))"
  unfolding later_checks_def by (intro run_checks_reports; simp) (intro conjI; unfold_locales)

abbreviation step_about :: "string \<Rightarrow> 'a \<times> report list \<Rightarrow> bool" where
  "step_about f \<equiv> \<lambda>(_, rs). all_about f rs"

lemma include_order_about: "yields (step_about f) (include_order env f cl n i s st)"
proof -
  have "all_about f ms" if "(if e = [] then Inr [] else res_bind b (\<lambda>base. Inr (flag True f n ''build/include_order'' 4 (g base)))) = Inr ms"
    for e :: string and b :: "string res" and g ms
    using that by (auto simp: flag_def split: if_splits)
  then show ?thesis unfolding include_order_def
    by (intro oks) (auto simp: flag_def)
qed

lemma CheckIncludeLine_about: "yields (step_about f) (CheckIncludeLine env f cl n st)"
proof -
  have step: "yields (step_about f) (res_bind (include_order env f cl n i s st) (\<lambda>(st', rs). Inr (st', ds @ rs)))"
    if "all_about f ds" for i s ds
    by (intro oks) (use that in \<open>auto dest: yieldsD [OF include_order_about]\<close>)
  show ?thesis unfolding CheckIncludeLine_def
    by (intro oks step) (auto simp: flag_def split: option.split)
qed

lemma CheckLanguage_about:
  assumes "line_ctx cl n ns"
  shows "yields (step_about f) (CheckLanguage env ext f cl n st)"
proof -
  have rules: "all_about f rs" if "language_rules ext f n line = Inr rs" for line rs
    using language_rules_ok [OF line_ctxD(5) [OF assms], of f ext line] that by (auto simp: gives_def intro: reports_ok_about)
  show ?thesis unfolding CheckLanguage_def
    by (intro oks CheckIncludeLine_about)
      (auto dest: rules reports_ok_about [OF casts.reports [OF assms]] reports_ok_about [OF global_static.reports [OF assms]]
        reports_ok_about [OF printf.reports [OF assms]])
qed

section \<open>Lines and files\<close>

lemma check_line_about:
  assumes "check_line o1 f cl n fs = Inr (fs', rs)" "lo_extra o1 = []"
    and ctx: "\<And>st us. Update f cl n (fs_nesting fs) = Inr (st, us) \<Longrightarrow> line_ctx cl n st"
  shows "all_about f rs \<and> (\<exists>us. Update f cl n (fs_nesting fs) = Inr (fs_nesting fs', us))"
proof -
  from assms(1) obtain st r1 r2 where up: "Update f cl n (fs_nesting fs) = Inr (st, r1)"
    and r2: "CheckForNamespaceIndentation f st cl n = Inr r2" by (auto simp: check_line_def)
  note ctx = ctx [OF up]
  have first: "all_about f r1" "all_about f r2"
    using Update_about [OF up] reports_ok_about [OF namespace_indent.reports [OF ctx r2]] .
  show ?thesis
  proof (cases "InAsmBlock st")
    case True
    with assms(1) up r2 first show ?thesis by (auto simp: check_line_def)
  next
    case False
    with assms(1) up r2 obtain fn r3 r4 r5 incs r6 r7 where
      3: "CheckForFunctionLengths (lo_verbosity o1) f cl n (fs_function fs) = Inr (fn, r3)"
      and 4: "CheckForMultilineCommentsAndStrings f cl n = Inr r4"
      and 5: "CheckStyle (lo_env o1) (lo_root o1) (lo_length o1) (lo_extension o1) f cl n st = Inr r5"
      and 6: "CheckLanguage (lo_env o1) (lo_extension o1) f cl n (fs_include fs) = Inr (incs, r6)"
      and 7: "run_checks (later_checks o1) f cl n st = Inr r7"
      and out: "rs = r1 @ r2 @ r3 @ r4 @ r5 @ r6 @ r7" "fs_nesting fs' = st"
      by (auto simp: check_line_def Let_def)
    from FunctionLengths_about [OF 3] reports_ok_about [OF multiline.reports [OF ctx 4]]
      line_reports_about [OF CheckStyle_reports ctx 5] yieldsD [OF CheckLanguage_about [OF ctx] 6]
      line_reports_about [OF later_checks_reports [OF assms(2)] ctx 7] first up out
    show ?thesis by simp
  qed
qed

lemma ParseNolint_about: "all_about f (snd (ParseNolintSuppressions f l n ns))"
  by (simp add: ParseNolintSuppressions_def Let_def split: option.split)

lemma Copyright_about: "all_about f (CheckForCopyright f ls)"
  by (simp add: CheckForCopyright_def)

lemma NewlineAtEOF_about: "all_about f (CheckForNewlineAtEOF f ls)"
  by (simp add: CheckForNewlineAtEOF_def)

lemma BadCharacters_about: "all_about f (CheckForBadCharacters f ls)"
  unfolding CheckForBadCharacters_def by (intro oks) simp_all

lemma mixed_line_ends_about: "all_about f (mixed_line_ends f lf crlf)"
  by (auto simp: mixed_line_ends_def list_all_iff)

lemma remove_comments_about: "all_about f (snd (remove_comments f ls i))"
proof (induction f ls i rule: remove_comments.induct)
  case (1 f ls i)
  then show ?case by (subst remove_comments.simps) (simp add: Let_def)
qed

lemma MultiLineComments_about: "RemoveMultiLineComments f ls = (ls', rs) \<Longrightarrow> all_about f rs"
  using remove_comments_about [of f ls 0] by (simp add: RemoveMultiLineComments_def)

definition act_about :: "string \<Rightarrow> lint_act \<Rightarrow> bool" where
  "act_about f a = (case a of Directive _ _ \<Rightarrow> True | Say r \<Rightarrow> report_about f r)"

lemma endif_acts_about: "list_all (act_about f) (endif_acts f ls s v)"
  by (simp add: endif_acts_def act_about_def Let_def split: option.split)

lemma HeaderGuard_about: "yields (list_all (act_about f)) (CheckForHeaderGuard env root f cl)"
proof -
  have "list_all (act_about f) as" if "(if b then Inr [] else res_bind raw (\<lambda>raw. Inr [Directive raw n,
      Say (Report f (int n) ''build/header_guard'' (if c then 0 else 5) msg)])) = Inr as" for b c raw n msg as
    using that by (auto simp: act_about_def split: if_splits)
  then show ?thesis unfolding CheckForHeaderGuard_def Let_def
    by (intro oks) (simp_all add: act_about_def endif_acts_about)
qed

lemma HeaderFileIncluded_about: "yields (all_about f) (CheckHeaderFileIncluded env f st)"
  unfolding CheckHeaderFileIncluded_def Let_def by (intro oks) simp_all

lemma IncludeWhatYouUse_about: "yields (all_about f) (CheckForIncludeWhatYouUse env order f cl st)"
  unfolding CheckForIncludeWhatYouUse_def by (intro oks) simp_all

lemma final_reports_about: "yields (all_about f) (final_reports env e f ls cl fs)"
  unfolding final_reports_def
  by (intro oks) (auto simp: CompletedBlocks_about BadCharacters_about NewlineAtEOF_about
      dest: yieldsD [OF IncludeWhatYouUse_about] yieldsD [OF HeaderFileIncluded_about] split: if_splits)

section \<open>The context of a line\<close>

lemma Updates_snoc:
  "Updates f cl ns st = Inr (st1, us) \<Longrightarrow> Update f cl n st1 = Inr (st2, vs) \<Longrightarrow> Updates f cl (ns @ [n]) st = Inr (st2, us @ vs)"
  by (induction ns arbitrary: st us) (auto split: prod.splits)

lemma Updates_line_ctx:
  assumes "lines_full cl" "n < cl_num_lines cl"
    and "Updates f cl [0..<n] NestingState = Inr (st0, us)" "Update f cl n st0 = Inr (st, vs)"
  shows "Updates f cl [0..<Suc n] NestingState = Inr (st, us @ vs)" "line_ctx cl n st"
proof -
  from Updates_snoc [OF assms(3,4)] show ups: "Updates f cl [0..<Suc n] NestingState = Inr (st, us @ vs)" by simp
  from Updates_starts [OF starts_ok_init ups, of 0] have "starts_ok n st" by (simp add: sorted_append)
  with assms(1,2) show "line_ctx cl n st" by (simp add: line_ctx_def)
qed

end
