(* ===== verification/Runs.thy ===== *)
theory Runs
  imports Reports
begin

text \<open>
  Runs of the linter: what a run writes and counts, what a file may change for the files
  after it, and when a file is linted to its end.
\<close>

section \<open>What is printed\<close>

text \<open>
  The output of the linter as a list of events: a report that is shown, or one of the notes
  that the driver writes. \<open>render\<close> gives the text of an event, so that a printed report is a
  \<open>Shown\<close> event and no other. \<open>logged\<close> relates two states when the events are written and
  the reports among them are counted, in total and by category.
\<close>

datatype event =
    Shown report
  | Bad_length
  | Bad_option string string
  | Skipped_config string
  | Excluded_by string string string string
  | Cannot_open string
  | Not_valid string "string list"
  | Done_processing string

fun render :: "string \<Rightarrow> event \<Rightarrow> string" where
  "render fmt (Shown r) = format_error fmt r"
| "render fmt Bad_length = ''Line length must be numeric.''"
| "render fmt (Bad_option name cfg_file) = ''Invalid configuration option ('' @ name @ '') in file '' @ cfg_file @ [nl]"
| "render fmt (Skipped_config cfg_file) =
     ''Skipping config file '' @ [sq] @ cfg_file @ [sq] @ '': Can'' @ [sq] @ ''t open for reading'' @ [nl]"
| "render fmt (Excluded_by filename cfg_file base_name pattern) =
     ''Ignoring \"'' @ filename @ ''\": file excluded by \"'' @ cfg_file @ ''\". '' @ ''File path component \"'' @ base_name @
     ''\" matches '' @ ''pattern \"'' @ pattern @ ''\"'' @ [nl]"
| "render fmt (Cannot_open filename) =
     ''Skipping input '' @ [sq] @ filename @ [sq] @ '': Can'' @ [sq] @ ''t open for reading'' @ [nl]"
| "render fmt (Not_valid filename extensions) =
     ''Ignoring '' @ filename @ ''; not a valid file name '' @ ''('' @ join '', '' extensions @ '')'' @ [nl]"
| "render fmt (Done_processing filename) = ''Done processing '' @ filename @ [nl]"

definition reports_of :: "event \<Rightarrow> report list" where
  "reports_of e = (case e of Shown r \<Rightarrow> [r] | _ \<Rightarrow> [])"

definition shown_reports :: "event list \<Rightarrow> report list" where
  "shown_reports es = concat (map reports_of es)"

definition config_note :: "event \<Rightarrow> bool" where
  "config_note e = (case e of Bad_length \<Rightarrow> True | Bad_option _ _ \<Rightarrow> True | Skipped_config _ \<Rightarrow> True | _ \<Rightarrow> False)"

lemma config_note_reports: "config_note e \<Longrightarrow> reports_of e = []"
  by (simp add: config_note_def reports_of_def split: event.splits)

text \<open>
  The counts by category as the reports say it: each category, or its first component, in
  the order in which they first occur, with the number of its reports. The linter reaches it
  by incrementing a dictionary.
\<close>

definition category_counts :: "string \<Rightarrow> report list \<Rightarrow> (string \<times> nat) list" where
  "category_counts style rs =
     (if style \<in> {''toplevel'', ''detailed''}
      then (let ks = map (\<lambda>r. count_key style (r_cat r)) rs in map (\<lambda>k. (k, count_list ks k)) (rev (remdups (rev ks))))
      else [])"

definition counted :: "string \<Rightarrow> report list \<Rightarrow> (string \<times> nat) list \<Rightarrow> (string \<times> nat) list" where
  "counted style rs d =
     (if style \<in> {''toplevel'', ''detailed''} then fold dict_incr (map (\<lambda>r. count_key style (r_cat r)) rs) d else d)"

lemma dict_incr_map:
  "distinct ks \<Longrightarrow> dict_incr k (map (\<lambda>x. (x, g x)) ks) =
     (if k \<in> set ks then map (\<lambda>x. (x, if x = k then Suc (g x) else g x)) ks else map (\<lambda>x. (x, g x)) ks @ [(k, 1)])"
  by (induction ks) auto

lemma fold_dict_incr: "fold dict_incr ks [] = map (\<lambda>k. (k, count_list ks k)) (rev (remdups (rev ks)))"
proof (induction ks rule: rev_induct)
  case (snoc k ks)
  have "map (\<lambda>x. (x, if x = k then Suc (count_list ks x) else count_list ks x)) xs =
      map (\<lambda>x. (x, count_list (ks @ [k]) x)) xs" for xs by (simp add: count_list_append)
  moreover have "map (\<lambda>x. (x, count_list ks x)) (rev (remdups (rev ks))) =
      map (\<lambda>x. (x, count_list (ks @ [k]) x)) (rev (remdups (rev ks)))" if "k \<notin> set ks"
    using that by (auto simp: count_list_append)
  moreover have "k \<notin> set ks \<Longrightarrow> count_list ks k = 0" by (simp add: count_list_0_iff)
  ultimately show ?case using snoc dict_incr_map [of "rev (remdups (rev ks))" k "count_list ks"]
    by (auto simp: count_list_append)
qed simp

lemma counted_all: "counted style rs [] = category_counts style rs"
  unfolding counted_def category_counts_def fold_dict_incr Let_def by simp

lemma counted_append: "counted style (rs @ rs') d = counted style rs' (counted style rs d)"
  by (simp add: counted_def)

definition same_settings :: "cpplint_state \<Rightarrow> cpplint_state \<Rightarrow> bool" where
  "same_settings l l' \<longleftrightarrow> filters l' = filters l \<and> filters_backup l' = filters_backup l \<and>
     verbose_level l' = verbose_level l \<and> output_format l' = output_format l \<and> counting l' = counting l"

definition logged :: "event list \<Rightarrow> world \<Rightarrow> world \<Rightarrow> bool" where
  "logged es w w' \<longleftrightarrow>
     stderr w' = stderr w @ concat (map (render (output_format (lint w))) es) \<and>
     error_count (lint w') = error_count (lint w) + length (shown_reports es) \<and>
     errors_by_category (lint w') = counted (counting (lint w)) (shown_reports es) (errors_by_category (lint w)) \<and>
     output_format (lint w') = output_format (lint w) \<and> counting (lint w') = counting (lint w)"

lemma shown_reports_simps [simp]:
  "shown_reports [] = []" "shown_reports (e # es) = reports_of e @ shown_reports es"
  "shown_reports (es @ es') = shown_reports es @ shown_reports es'" "shown_reports (map Shown rs) = rs"
  "list_all config_note es \<Longrightarrow> shown_reports es = []"
proof -
  show "shown_reports (map Shown rs) = rs" by (induction rs) (simp_all add: shown_reports_def reports_of_def)
  show "list_all config_note es \<Longrightarrow> shown_reports es = []" by (auto simp: shown_reports_def list_all_iff config_note_reports)
qed (simp_all add: shown_reports_def)

lemma logged_refl [simp]: "logged [] w w"
  by (simp add: logged_def counted_def)

lemma logged_trans: "logged es w w1 \<Longrightarrow> logged es' w1 w2 \<Longrightarrow> logged (es @ es') w w2"
  by (auto simp: logged_def counted_append)

lemma logged_frame [simp]:
  "logged es w (w'\<lparr>nolints := ns\<rparr>) = logged es w w'" "logged es (w\<lparr>nolints := ns\<rparr>) w' = logged es w w'"
  by (simp_all add: logged_def)

lemma same_settings_refl [simp]: "same_settings l l"
  by (simp add: same_settings_def)

lemma same_settings_trans: "same_settings l l1 \<Longrightarrow> same_settings l1 l2 \<Longrightarrow> same_settings l l2"
  by (simp add: same_settings_def)

lemma same_settings_filters: "same_settings l l' \<Longrightarrow> filters_ok l' = filters_ok l"
  by (simp add: same_settings_def filters_ok_def)

text \<open>A step of the driver on the world: it writes reports about its file, and no setting changes.\<close>

definition reports_only :: "string \<Rightarrow> world \<Rightarrow> world \<Rightarrow> bool" where
  "reports_only f w w' \<longleftrightarrow> (\<exists>rs. logged (map Shown rs) w w' \<and> all_about f rs) \<and> same_settings (lint w) (lint w')"

lemma reports_refl [simp]: "reports_only f w w"
  unfolding reports_only_def by (auto intro: exI [of _ "[]"])

lemma reports_trans: "reports_only f w w1 \<Longrightarrow> reports_only f w1 w2 \<Longrightarrow> reports_only f w w2"
  unfolding reports_only_def by (metis list_all_append logged_trans map_append same_settings_trans)

lemma reports_frame [simp]:
  "reports_only f w (w'\<lparr>nolints := ns\<rparr>) = reports_only f w w'" "reports_only f (w\<lparr>nolints := ns\<rparr>) w' = reports_only f w w'"
  by (simp_all add: reports_only_def)

lemma Error_step: "Error r w = Inr w' \<Longrightarrow> report_about f r \<Longrightarrow> reports_only f w w'"
proof -
  assume "Error r w = Inr w'" and r: "report_about f r"
  then have w': "w' = w \<or> w' = w\<lparr>lint := IncrementErrorCount (r_cat r) (lint w),
      stderr := stderr w @ format_error (output_format (lint w)) r\<rparr>"
    by (auto simp: Error_def split: if_splits)
  have "logged (map Shown [r]) w (w\<lparr>lint := IncrementErrorCount (r_cat r) (lint w),
      stderr := stderr w @ format_error (output_format (lint w)) r\<rparr>)"
    by (simp add: logged_def IncrementErrorCount_def Let_def reports_of_def counted_def)
  moreover have "same_settings l (IncrementErrorCount c l)" for l c
    by (simp add: same_settings_def IncrementErrorCount_def Let_def)
  moreover from r have "all_about f [r]" by simp
  ultimately have "reports_only f w (w\<lparr>lint := IncrementErrorCount (r_cat r) (lint w),
      stderr := stderr w @ format_error (output_format (lint w)) r\<rparr>)"
    unfolding reports_only_def by fastforce
  with w' show ?thesis by auto
qed

lemma emit_all_step: "emit_all Error rs w = Inr w' \<Longrightarrow> all_about f rs \<Longrightarrow> reports_only f w w'"
  by (induction rs arbitrary: w) (auto intro: reports_trans Error_step)

lemma directives_step: "directives f l n w = Inr w' \<Longrightarrow> reports_only f w w'"
  using ParseNolint_about [of f l "int n" "nolints w"]
  by (auto simp: directives_def dest: emit_all_step split: prod.splits)

lemma do_acts_step: "do_acts f acts w = Inr w' \<Longrightarrow> list_all (act_about f) acts \<Longrightarrow> reports_only f w w'"
  by (induction f acts w rule: do_acts.induct) (auto simp: act_about_def intro: reports_trans directives_step Error_step)

lemma ProcessLine_step:
  assumes "ProcessLine o1 f cl n (fs, w) = Inr (fs', w')" "lo_extra o1 = []" "lines_full cl" "n < cl_num_lines cl"
    and "Updates f cl [0..<n] NestingState = Inr (fs_nesting fs, us)"
  shows "reports_only f w w'" "\<exists>vs. Updates f cl [0..<Suc n] NestingState = Inr (fs_nesting fs', vs) \<and> line_ctx cl n (fs_nesting fs')"
proof -
  note ctx = Updates_line_ctx [OF assms(3,4,5)]
  from assms(1) obtain l w1 rs where run: "directives f l n w = Inr w1" "check_line o1 f cl n fs = Inr (fs', rs)"
    "emit_all Error rs w1 = Inr w'" by (auto simp: ProcessLine_def)
  from check_line_about [OF run(2) assms(2)] ctx(2) obtain vs where rs: "all_about f rs"
    and up: "Update f cl n (fs_nesting fs) = Inr (fs_nesting fs', vs)" by blast
  from directives_step [OF run(1)] emit_all_step [OF run(3) rs] show "reports_only f w w'" by (rule reports_trans)
  from ctx [OF up] show "\<exists>vs. Updates f cl [0..<Suc n] NestingState = Inr (fs_nesting fs', vs) \<and> line_ctx cl n (fs_nesting fs')" by blast
qed

lemma process_lines_step:
  assumes "process_lines o1 f cl [k..<cl_num_lines cl] (fs, w) = Inr (fs', w')" "lo_extra o1 = []" "lines_full cl"
    and "Updates f cl [0..<k] NestingState = Inr (fs_nesting fs, us)"
  shows "reports_only f w w'"
  using assms(1,4)
proof (induction "cl_num_lines cl - k" arbitrary: k fs w us)
  case (Suc d)
  then have k: "k < cl_num_lines cl" "[k..<cl_num_lines cl] = k # [Suc k..<cl_num_lines cl]" by (simp_all add: upt_conv_Cons)
  with Suc.prems(1) obtain fs1 w1 rs w2 where line: "ProcessLine o1 f cl k (fs, w) = Inr (fs1, w1)"
    and rs: "FlagCxx11Features f cl k = Inr rs" and w2: "emit_all Error rs w1 = Inr w2"
    and rest: "process_lines o1 f cl [Suc k..<cl_num_lines cl] (fs1, w2) = Inr (fs', w')" by auto
  note step = ProcessLine_step [OF line assms(2,3) k(1) Suc.prems(2)]
  then obtain vs where ups: "Updates f cl [0..<Suc k] NestingState = Inr (fs_nesting fs1, vs)" "line_ctx cl k (fs_nesting fs1)" by blast
  from reports_ok_about [OF cxx11.reports [OF ups(2) rs]] have "reports_only f w1 w2" by (rule emit_all_step [OF w2])
  moreover from Suc.hyps(1) [OF _ rest ups(1)] Suc.hyps(2) have "reports_only f w2 w'" by simp
  ultimately show ?case using step(1) by (blast intro: reports_trans)
qed simp

text \<open>The report about the copyright comes first; what follows are reports about the file too.\<close>

lemma ProcessFileData_parts:
  assumes "ProcessFileData env o1 f ls w = Inr w'" "lo_extra o1 = []"
  shows "\<exists>w2. emit_all Error (CheckForCopyright f (with_markers ls)) (w\<lparr>nolints := ResetNolintSuppressions (nolints w)\<rparr>) = Inr w2 \<and>
    reports_only f w2 w'"
proof -
  obtain ls' rs where comments: "RemoveMultiLineComments f (with_markers ls) = (ls', rs)" by fastforce
  from assms(1) comments obtain incs w2 w4 cl acts w5 fs w6 qs where
    2: "emit_all Error (CheckForCopyright f (with_markers ls)) (w\<lparr>nolints := ResetNolintSuppressions (nolints w)\<rparr>) = Inr w2"
    and 4: "emit_all Error rs (w2\<lparr>nolints := ProcessGlobalSuppresions (with_markers ls) (nolints w2)\<rparr>) = Inr w4"
    and cl: "CleansedLines ls' = Inr cl"
    and acts: "(if lo_extension o1 = ''h'' then CheckForHeaderGuard (os env) (lo_root o1) f cl else Inr []) = Inr acts"
    and 5: "do_acts f acts w4 = Inr w5"
    and 6: "process_lines o1 f cl [0..<cl_num_lines cl] (\<lparr>fs_include = incs, fs_function = FunctionState, fs_nesting = NestingState\<rparr>, w5) = Inr (fs, w6)"
    and qs: "final_reports env (lo_extension o1) f ls' cl fs = Inr qs" and 7: "emit_all Error qs w6 = Inr w'"
    by (auto simp: ProcessFileData_def Let_def NumLines_def)
  from acts have "list_all (act_about f) acts" using yieldsD [OF HeaderGuard_about] by (auto split: if_splits)
  with 5 have "reports_only f w4 w5" by (rule do_acts_step)
  moreover from emit_all_step [OF 4 MultiLineComments_about [OF comments]] have "reports_only f w2 w4" by simp
  moreover have "reports_only f w5 w6" using process_lines_step [OF 6 assms(2)] CleansedLines_full [OF cl] by simp
  moreover have "reports_only f w6 w'" by (rule emit_all_step [OF 7 yieldsD [OF final_reports_about qs]])
  ultimately show ?thesis using 2 by (blast intro: reports_trans)
qed

lemma ProcessFileData_step:
  assumes "ProcessFileData env o1 f ls w = Inr w'" "lo_extra o1 = []"
  shows "reports_only f w w'"
proof -
  from ProcessFileData_parts [OF assms] obtain w2 where
    2: "emit_all Error (CheckForCopyright f (with_markers ls)) (w\<lparr>nolints := ResetNolintSuppressions (nolints w)\<rparr>) = Inr w2"
    and rest: "reports_only f w2 w'" by blast
  from emit_all_step [OF 2 Copyright_about] have "reports_only f w w2" by simp
  then show ?thesis using rest by (rule reports_trans)
qed

section \<open>A file leaves the settings as they were\<close>

text \<open>The configuration files write notes and may set the line length; the linter state is not touched.\<close>

definition notes_only :: "app \<Rightarrow> app \<Rightarrow> bool" where
  "notes_only a a' \<longleftrightarrow> lint (world_of a') = lint (world_of a) \<and> root_dir a' = root_dir a \<and>
     valid_extensions a' = valid_extensions a \<and> stdin_text a' = stdin_text a \<and>
     (\<exists>es. list_all config_note es \<and>
       stderr (world_of a') = stderr (world_of a) @ concat (map (render (module_OutputFormat a)) es))"

lemma notes_refl [simp]: "notes_only a a"
  unfolding notes_only_def by (auto intro: exI [of _ "[]"])

lemma notes_trans: "notes_only a a1 \<Longrightarrow> notes_only a1 a2 \<Longrightarrow> notes_only a a2"
proof -
  assume 1: "notes_only a a1" and 2: "notes_only a1 a2"
  from 1 2 obtain es es' where "list_all config_note (es @ es')"
    "stderr (world_of a2) = stderr (world_of a) @ concat (map (render (module_OutputFormat a)) (es @ es'))"
    by (auto simp: notes_only_def)
  with 1 2 show ?thesis unfolding notes_only_def by fastforce
qed

lemma notes_event: "config_note e \<Longrightarrow> notes_only a (app_write (render (module_OutputFormat a) e) a)"
  unfolding notes_only_def by (auto simp: app_write_def to_stderr_def intro: exI [of _ "[e]"])

lemma notes_write:
  "notes_only a (app_write ''Line length must be numeric.'' a)"
  "notes_only a (app_write (''Invalid configuration option ('' @ name @ '') in file '' @ cfg_file @ [nl]) a)"
  "notes_only a (app_write (''Skipping config file '' @ [sq] @ cfg_file @ [sq] @ '': Can'' @ [sq] @ ''t open for reading'' @ [nl]) a)"
  using notes_event [of Bad_length a] notes_event [of "Bad_option name cfg_file" a] notes_event [of "Skipped_config cfg_file" a]
  by (simp_all add: config_note_def)

lemma notes_line_length [simp]: "notes_only a (a\<lparr>line_length := n\<rparr>)"
  unfolding notes_only_def by (auto intro: exI [of _ "[]"])

definition excluded_note :: "string \<Rightarrow> string \<Rightarrow> bool" where
  "excluded_note filename s \<longleftrightarrow> (\<exists>cfg_file base_name pattern. s = render [] (Excluded_by filename cfg_file base_name pattern))"

definition cfg_ok :: "string \<Rightarrow> app \<Rightarrow> cfg_result \<Rightarrow> bool" where
  "cfg_ok filename a r =
     (case r of
        Go_on c a' \<Rightarrow> notes_only a a'
      | Excluded a' \<Rightarrow> \<exists>a1 s. notes_only a a1 \<and> excluded_note filename s \<and> a' = app_write s a1)"

lemma cfg_ok_simps [simp]:
  "cfg_ok f a (Go_on c a') = notes_only a a'"
  "cfg_ok f a (Excluded a') = (\<exists>a1 s. notes_only a a1 \<and> excluded_note f s \<and> a' = app_write s a1)"
  by (simp_all add: cfg_ok_def)

lemma cfg_ok_trans: "notes_only a a1 \<Longrightarrow> cfg_ok f a1 r \<Longrightarrow> cfg_ok f a r"
  by (cases r) (auto intro: notes_trans)

lemma excluded_ok: "excluded_note f s \<Longrightarrow> cfg_ok f a (Excluded (app_write s a))"
  by (auto intro: notes_refl)

lemma cfg_option_ok: "cfg_option f file base name val c a = Inr r \<Longrightarrow> cfg_ok f a r"
proof -
  have ex: "excluded_note f (''Ignoring \"'' @ f @ ''\": file excluded by \"'' @ file @ ''\". '' @ ''File path component \"'' @ base @
      ''\" matches '' @ ''pattern \"'' @ val @ ''\"'' @ [nl])"
    unfolding excluded_note_def by (rule exI [of _ "file"], rule exI [of _ base], rule exI [of _ val]) simp
  note ok = excluded_ok [OF ex] notes_write(1,2)
  assume "cfg_option f file base name val c a = Inr r"
  then show ?thesis
    unfolding cfg_option_def using ok
    by (auto simp del: cfg_ok_simps(2) append_Cons append_Nil split: if_splits option.splits)
qed

lemma cfg_lines_ok: "cfg_lines f file base ls c a = Inr r \<Longrightarrow> cfg_ok f a r"
proof (induction ls arbitrary: c a)
  case (Cons l ls)
  show ?case
  proof (cases "byte_strip (fst (partition_at (CHR ''#'') l)) = []")
    case True
    with Cons show ?thesis by simp
  next
    case False
    obtain name val where nv: "partition_at (CHR ''='') (fst (partition_at (CHR ''#'') l)) = (name, val)" by fastforce
    from Cons.prems False nv obtain r1 where r1: "cfg_option f file base (byte_strip name) (byte_strip val) c a = Inr r1"
      and rest: "(case r1 of Excluded a' \<Rightarrow> Inr (Excluded a') | Go_on c' a' \<Rightarrow> cfg_lines f file base ls c' a') = Inr r"
      by (auto simp: Let_def)
    from cfg_option_ok [OF r1] rest Cons.IH show ?thesis by (cases r1) (auto simp del: cfg_ok_simps(2) intro: cfg_ok_trans)
  qed
qed auto

lemma cfg_walk_ok: "cfg_walk env f p c a = Inr r \<Longrightarrow> cfg_ok f a r"
proof (induction env f p c a rule: cfg_walk.induct)
  case (1 env f p c a)
  obtain dir base where split: "path_split p = (dir, base)" by fastforce
  let ?file = "path_join dir ''CPPLINT.cfg''"
  show ?case
  proof (cases "cfg_keep_looking c \<and> base \<noteq> []")
    case False
    with 1(3) split show ?thesis by (subst (asm) cfg_walk.simps) (auto split: if_splits)
  next
    case True
    show ?thesis
    proof (cases "path_isfile (os env) ?file")
      case False
      with 1(1)[OF _ split [symmetric] refl] 1(3) split True show ?thesis by (subst (asm) cfg_walk.simps) simp
    next
      case isfile: True
      show ?thesis
      proof (cases "read_config env ?file")
        case None
        with 1(3) split True isfile show ?thesis by (subst (asm) cfg_walk.simps) (auto simp del: append_Cons append_Nil intro: notes_write(3))
      next
        case (Some content)
        with 1(3) split True isfile obtain r1 where r1: "cfg_lines f ?file base (split_chr nl content) c a = Inr r1"
          and rest: "(case r1 of Excluded a' \<Rightarrow> Inr (Excluded a') | Go_on c' a' \<Rightarrow> cfg_walk env f dir c' a') = Inr r"
          by (subst (asm) cfg_walk.simps) (auto split: sum.splits cfg_result.splits)
        from cfg_lines_ok [OF r1] rest 1(2)[OF _ split [symmetric] refl _ _ _ Some r1] True isfile show ?thesis
          by (cases r1) (auto simp del: cfg_ok_simps(2) intro: cfg_ok_trans)
      qed
    qed
  qed
qed

lemma module_AddFilters_state: "module_AddFilters fs a = Inr a' \<Longrightarrow> \<exists>new. a' = on_lint (\<lambda>l. l\<lparr>filters := new\<rparr>) a"
  by (auto simp: module_AddFilters_def AddFilters_def on_lint_def Let_def split: option.splits)

lemma on_lint_filters [simp]:
  "on_lint (\<lambda>l. l\<lparr>filters := fs'\<rparr>) (on_lint (\<lambda>l. l\<lparr>filters := fs\<rparr>) a) = on_lint (\<lambda>l. l\<lparr>filters := fs'\<rparr>) a"
  by (simp add: on_lint_def)

lemma on_lint_filters_id: "a = on_lint (\<lambda>l. l\<lparr>filters := filters (lint (world_of a))\<rparr>) a"
  by (simp add: on_lint_def)

lemma add_all_filters_state: "add_all_filters fs a = Inr a' \<Longrightarrow> \<exists>new. a' = on_lint (\<lambda>l. l\<lparr>filters := new\<rparr>) a"
proof (induction fs arbitrary: a)
  case Nil
  then show ?case using on_lint_filters_id by auto
next
  case (Cons f fs)
  then show ?case by (auto dest!: module_AddFilters_state) fastforce
qed

text \<open>
  The log of a file: first the notes about configuration files; then nothing when a
  configuration file excludes the file or it cannot be opened, the note about its extension
  when the linter does not know it, and otherwise the reports, all about this file; then the
  note that closes it.
\<close>

definition file_body :: "lint_env \<Rightarrow> string list \<Rightarrow> string \<Rightarrow> event list \<Rightarrow> bool" where
  "file_body env extensions filename es \<longleftrightarrow>
     (if filename \<noteq> ''-'' \<and> file_extension_of filename \<notin> set extensions
      then es = [Not_valid filename (key_order env extensions)]
      else (\<exists>rs. es = map Shown rs \<and> all_about filename rs))"

definition file_close :: "lint_env \<Rightarrow> string list \<Rightarrow> string \<Rightarrow> event list \<Rightarrow> event \<Rightarrow> bool" where
  "file_close env extensions filename body e \<longleftrightarrow>
     (case e of
        Excluded_by f cfg_file base_name pattern \<Rightarrow> f = filename \<and> body = []
      | Cannot_open f \<Rightarrow> f = filename \<and> body = [] \<and> filename \<noteq> ''-'' \<and> read_file (os env) filename = None
      | Done_processing f \<Rightarrow> f = filename \<and> file_body env extensions filename body \<and>
          (filename = ''-'' \<or> read_file (os env) filename \<noteq> None)
      | _ \<Rightarrow> False)"

definition file_log :: "lint_env \<Rightarrow> string list \<Rightarrow> string \<Rightarrow> event list \<Rightarrow> bool" where
  "file_log env extensions filename es \<longleftrightarrow>
     (\<exists>ns body e. es = ns @ body @ [e] \<and> list_all config_note ns \<and> file_close env extensions filename body e)"

text \<open>What holds after a file, whatever happened to it: the log, and the settings.\<close>

definition file_done :: "lint_env \<Rightarrow> string \<Rightarrow> int \<Rightarrow> app \<Rightarrow> app \<Rightarrow> bool" where
  "file_done env filename vlevel a a' \<longleftrightarrow>
     (\<exists>es. logged es (world_of a) (world_of a') \<and> file_log env (valid_extensions a) filename es) \<and>
     filters (lint (world_of a')) = filters (lint (world_of a)) \<and> filters_backup (lint (world_of a')) = filters (lint (world_of a)) \<and>
     verbose_level (lint (world_of a')) = vlevel \<and> output_format (lint (world_of a')) = output_format (lint (world_of a)) \<and>
     counting (lint (world_of a')) = counting (lint (world_of a)) \<and> root_dir a' = root_dir a \<and> valid_extensions a' = valid_extensions a"

lemma notes_logged: "notes_only a a' \<Longrightarrow> \<exists>es. logged es (world_of a) (world_of a') \<and> list_all config_note es"
  by (auto simp: notes_only_def logged_def counted_def)

lemma logged_note:
  "logged es (world_of a) (world_of a1) \<Longrightarrow> reports_of e = [] \<Longrightarrow> s = render (module_OutputFormat a) e \<Longrightarrow>
     logged (es @ [e]) (world_of a) (world_of (app_write s a1))"
  by (simp add: logged_def app_write_def to_stderr_def)

lemma lint_file_state:
  assumes "lint_file env [] f content a = Inr a'"
  shows "(\<exists>es. logged es (world_of a) (world_of a') \<and> file_body env (valid_extensions a) f es) \<and>
    same_settings (lint (world_of a)) (lint (world_of a')) \<and> root_dir a' = root_dir a \<and> valid_extensions a' = valid_extensions a"
proof -
  obtain ls lf crlf where strip: "strip_returns 1 (split_chr nl content) = (ls, lf, crlf)" by (metis prod_cases3)
  show ?thesis
  proof (cases "f \<noteq> ''-'' \<and> file_extension_of f \<notin> set (valid_extensions a)")
    case True
    let ?e = "Not_valid f (key_order env (valid_extensions a))"
    from True assms strip have a': "a' = app_write (render (module_OutputFormat a) ?e) a" by (simp add: lint_file_def)
    have "logged ([] @ [?e]) (world_of a) (world_of a')"
      unfolding a' by (rule logged_note) (simp_all add: reports_of_def)
    with True show ?thesis unfolding file_body_def by (auto simp: a' app_write_def to_stderr_def)
  next
    case False
    with assms strip obtain o1 w w' where "ProcessFileData env o1 f ls (world_of a) = Inr w"
      "emit_all Error (mixed_line_ends f lf crlf) w = Inr w'" "a' = a\<lparr>world_of := w'\<rparr>" "lo_extra o1 = []"
      by (auto simp: lint_file_def Let_def)
    moreover from this have "reports_only f (world_of a) w'"
      using emit_all_step mixed_line_ends_about by (blast intro: reports_trans ProcessFileData_step)
    ultimately show ?thesis using False unfolding reports_only_def file_body_def by auto
  qed
qed

lemma app_write_world [simp]:
  "lint (world_of (app_write s a)) = lint (world_of a)" "root_dir (app_write s a) = root_dir a"
  "valid_extensions (app_write s a) = valid_extensions a"
  by (simp_all add: app_write_def to_stderr_def)

lemma logged_on_lint:
  assumes "\<And>l. output_format (h l) = output_format l \<and> error_count (h l) = error_count l \<and>
    counting (h l) = counting l \<and> errors_by_category (h l) = errors_by_category l"
  shows "logged es (world_of (on_lint h a)) w = logged es (world_of a) w" "logged es w (world_of (on_lint h a)) = logged es w (world_of a)"
  using assms by (simp_all add: logged_def on_lint_def)

lemma overrides_state:
  assumes "ProcessConfigOverrides env f a = Inr (go_on, a')"
  shows "\<exists>a1 new. notes_only a a1 \<and> (if go_on then a' = on_lint (\<lambda>l. l\<lparr>filters := new\<rparr>) a1
    else \<exists>s. excluded_note f s \<and> a' = app_write s a1)"
proof -
  let ?c = "\<lparr>cfg_keep_looking = True, cfg_filters = []\<rparr>"
  from assms obtain r where r: "cfg_walk env f (abspath (os env) f) ?c a = Inr r"
    and rest: "(case r of Excluded a' \<Rightarrow> Inr (False, a')
      | Go_on c a' \<Rightarrow> res_bind (add_all_filters (rev (cfg_filters c)) a') (\<lambda>a''. Inr (True, a''))) = Inr (go_on, a')"
    by (auto simp: ProcessConfigOverrides_def)
  show ?thesis
  proof (cases r)
    case (Go_on c a1)
    with rest cfg_walk_ok [OF r] show ?thesis by (auto dest!: add_all_filters_state)
  next
    case (Excluded a1)
    with rest cfg_walk_ok [OF r] show ?thesis by auto
  qed
qed

definition settings_kept :: "int \<Rightarrow> app \<Rightarrow> app \<Rightarrow> bool" where
  "settings_kept vlevel a a' \<longleftrightarrow>
     filters_backup (lint (world_of a')) = filters (lint (world_of a)) \<and> verbose_level (lint (world_of a')) = vlevel \<and>
     output_format (lint (world_of a')) = output_format (lint (world_of a)) \<and>
     counting (lint (world_of a')) = counting (lint (world_of a)) \<and> root_dir a' = root_dir a \<and> valid_extensions a' = valid_extensions a"

lemma restore_done:
  assumes "logged es (world_of a) (world_of a')" "file_log env (valid_extensions a) f es" "settings_kept v a a'"
  shows "file_done env f v a (module_RestoreFilters a')"
  using assms unfolding file_done_def settings_kept_def module_RestoreFilters_def RestoreFilters_def
  by (auto simp: logged_on_lint) (auto simp: on_lint_def)

lemma kept_frame [simp]:
  "settings_kept v a (app_write s a') = settings_kept v a a'"
  "settings_kept v a (on_lint (\<lambda>l. l\<lparr>filters := new\<rparr>) a') = settings_kept v a a'"
  "settings_kept v a (a'\<lparr>stdin_text := t\<rparr>) = settings_kept v a a'"
  by (simp_all add: settings_kept_def) (simp_all add: on_lint_def)

lemma kept_same:
  "settings_kept v a a1 \<Longrightarrow> same_settings (lint (world_of a1)) (lint (world_of a2)) \<Longrightarrow> root_dir a2 = root_dir a1 \<Longrightarrow>
   valid_extensions a2 = valid_extensions a1 \<Longrightarrow> settings_kept v a a2"
  by (simp add: settings_kept_def same_settings_def)

lemma read_input_state: "read_input env f a = Some (content, a') \<Longrightarrow> world_of a' = world_of a \<and> (\<exists>t. a' = a\<lparr>stdin_text := t\<rparr>)"
  by (auto simp: read_input_def split: if_splits intro: exI [of _ "stdin_text a"])

lemma start_of_file:
  assumes "a1 = module_BackupFilters (module_SetVerboseLevel v a)" "notes_only a1 a2"
  shows "settings_kept v a a2" "\<exists>es. logged es (world_of a) (world_of a2) \<and> list_all config_note es"
proof -
  show "settings_kept v a a2"
    using assms by (simp add: settings_kept_def notes_only_def module_BackupFilters_def module_SetVerboseLevel_def
        on_lint_def BackupFilters_def SetVerboseLevel_def)
  from notes_logged [OF assms(2)] show "\<exists>es. logged es (world_of a) (world_of a2) \<and> list_all config_note es"
    by (simp add: assms(1) module_BackupFilters_def module_SetVerboseLevel_def logged_on_lint BackupFilters_def SetVerboseLevel_def)
qed

lemma note_done:
  assumes "logged ns (world_of a) (world_of b)" "list_all config_note ns" "logged body (world_of b) (world_of a')"
    and "file_close env (valid_extensions a) f body e" "s = render (module_OutputFormat a) e" "settings_kept v a a'"
  shows "file_done env f v a (module_RestoreFilters (app_write s a'))"
proof (rule restore_done)
  have "reports_of e = []" using assms(4) by (auto simp: file_close_def reports_of_def split: event.splits)
  from logged_note [OF logged_trans [OF assms(1,3)] this assms(5)]
  show "logged (ns @ body @ [e]) (world_of a) (world_of (app_write s a'))" by simp
  show "file_log env (valid_extensions a) f (ns @ body @ [e])"
    unfolding file_log_def using assms(2,4) by blast
  show "settings_kept v a (app_write s a')" using assms(6) by simp
qed

lemma ProcessFile_done:
  assumes "ProcessFile env [] f v a = Inr a'"
  shows "file_done env f v a a'"
proof -
  define a1 where "a1 = module_BackupFilters (module_SetVerboseLevel v a)"
  from assms obtain go_on a2 where over: "ProcessConfigOverrides env f a1 = Inr (go_on, a2)"
    by (auto simp: ProcessFile_def a1_def Let_def)
  from overrides_state [OF over] obtain b new where b: "notes_only a1 b"
    and a2: "if go_on then a2 = on_lint (\<lambda>l. l\<lparr>filters := new\<rparr>) b else \<exists>s. excluded_note f s \<and> a2 = app_write s b" by blast
  from start_of_file [OF a1_def b] obtain ns where kept: "settings_kept v a b"
    and ns: "logged ns (world_of a) (world_of b)" "list_all config_note ns" by blast
  show ?thesis
  proof (cases go_on)
    case False
    with a2 obtain cfg_file base pattern where "a2 = app_write (render [] (Excluded_by f cfg_file base pattern)) b"
      by (auto simp: excluded_note_def simp del: render.simps)
    with assms over False have a': "a' = module_RestoreFilters (app_write (render [] (Excluded_by f cfg_file base pattern)) b)"
      by (auto simp: ProcessFile_def a1_def simp del: render.simps)
    show ?thesis unfolding a'
      by (rule note_done [OF ns logged_refl _ _ kept, of _ _ "Excluded_by f cfg_file base pattern"]) (simp_all add: file_close_def)
  next
    case True
    with a2 have a2_state: "settings_kept v a a2" "logged [] (world_of b) (world_of a2)"
      using kept by (simp_all add: logged_on_lint)
    show ?thesis
    proof (cases "read_input env f a2")
      case None
      with assms over True have a': "a' = module_RestoreFilters (app_write (render [] (Cannot_open f)) a2)"
        by (auto simp: ProcessFile_def a1_def)
      from None have "f \<noteq> ''-''" "read_file (os env) f = None" by (auto simp: read_input_def split: if_splits)
      then show ?thesis unfolding a'
        by (intro note_done [OF ns a2_state(2) _ _ a2_state(1), of _ _ "Cannot_open f"]) (simp_all add: file_close_def)
    next
      case (Some p)
      obtain content a3 where p: "p = (content, a3)" by fastforce
      from assms over True Some p obtain a4 where a4: "lint_file env [] f content a3 = Inr a4"
        and a': "a' = module_RestoreFilters (app_write (render [] (Done_processing f)) a4)" by (auto simp: ProcessFile_def a1_def)
      from read_input_state [OF Some [unfolded p]] a2_state
      have a3: "settings_kept v a a3" "logged [] (world_of b) (world_of a3)" by auto
      from lint_file_state [OF a4] obtain body where body: "logged body (world_of a3) (world_of a4)" "file_body env (valid_extensions a3) f body"
        and a4_kept: "settings_kept v a a4" using kept_same [OF a3(1)] by blast
      from body(2) a3(1) have body_ok: "file_body env (valid_extensions a) f body" by (simp add: settings_kept_def)
      from logged_trans [OF a3(2) body(1)] have run: "logged body (world_of b) (world_of a4)" by simp
      from Some have "f = ''-'' \<or> read_file (os env) f \<noteq> None" by (auto simp: read_input_def split: if_splits)
      with body_ok show ?thesis unfolding a'
        by (intro note_done [OF ns run _ _ a4_kept, of _ _ "Done_processing f"]) (simp_all add: file_close_def)
    qed
  qed
qed

section \<open>A run\<close>

definition unchanged :: "app \<Rightarrow> app \<Rightarrow> bool" where
  "unchanged a a' \<longleftrightarrow>
     filters (lint (world_of a')) = filters (lint (world_of a)) \<and> verbose_level (lint (world_of a')) = verbose_level (lint (world_of a)) \<and>
     output_format (lint (world_of a')) = output_format (lint (world_of a)) \<and> counting (lint (world_of a')) = counting (lint (world_of a)) \<and>
     root_dir a' = root_dir a \<and> valid_extensions a' = valid_extensions a"

lemma process_files_done:
  assumes "process_files env filenames a = Inr a'"
  shows "unchanged a a' \<and> (\<exists>logs. list_all2 (file_log env (valid_extensions a)) filenames logs \<and> logged (concat logs) (world_of a) (world_of a'))"
  using assms
proof (induction filenames arbitrary: a)
  case (Cons f fs)
  then obtain b where b: "ProcessFile env [] f (module_VerboseLevel a) a = Inr b" "process_files env fs b = Inr a'" by auto
  from ProcessFile_done [OF b(1)] obtain es where es: "logged es (world_of a) (world_of b)" "file_log env (valid_extensions a) f es"
    and ab: "unchanged a b" by (auto simp: file_done_def unchanged_def)
  from Cons.IH [OF b(2)] obtain logs where logs: "list_all2 (file_log env (valid_extensions b)) fs logs" "logged (concat logs) (world_of b) (world_of a')"
    and ba: "unchanged b a'" by blast
  from es(2) logs(1) ab have "list_all2 (file_log env (valid_extensions a)) (f # fs) (es # logs)" by (simp add: unchanged_def)
  moreover from logged_trans [OF es(1) logs(2)] have "logged (concat (es # logs)) (world_of a) (world_of a')" by simp
  moreover from ab ba have "unchanged a a'" by (simp add: unchanged_def)
  ultimately show ?case by blast
qed (auto simp: unchanged_def)

lemma process_files_append:
  "process_files env (fs @ gs) a = res_bind (process_files env fs a) (process_files env gs)"
proof (induction fs arbitrary: a)
  case (Cons f fs)
  then show ?case by (cases "ProcessFile env [] f (module_VerboseLevel a) a") simp_all
qed simp

text \<open>The command line sets options only: nothing is written before the first file.\<close>

definition silent :: "app \<Rightarrow> bool" where
  "silent a \<longleftrightarrow> stderr (world_of a) = []"

lemma take_option_silent: "take_option opt val p a = Inr (Stay (p', a')) \<Longrightarrow> silent a \<Longrightarrow> silent a'"
  by (auto simp: take_option_def silent_def split: if_splits option.splits)

lemma take_options_silent: "take_options opts p a = Inr (Stay (p', a')) \<Longrightarrow> silent a \<Longrightarrow> silent a'"
proof (induction opts p a rule: take_options.induct)
  case (2 opt val opts p a)
  from 2(2) obtain r where r: "take_option opt val p a = Inr r" "(case r of Leave e \<Rightarrow> Inr (Leave e) | Stay (p', a') \<Rightarrow> take_options opts p' a') = Inr (Stay (p', a'))"
    by auto
  then obtain p1 a1 where "r = Stay (p1, a1)" by (cases r) auto
  with r 2(1,3) show ?case by (auto dest: take_option_silent)
qed simp

lemma module_silent [simp]:
  "silent (on_lint h a) = silent a" "silent (module_SetOutputFormat f a) = silent a" "silent (module_SetVerboseLevel v a) = silent a"
  "silent (module_SetCountingStyle c a) = silent a" "module_SetFilters fs a = Inr a' \<Longrightarrow> silent a' = silent a"
  by (auto simp: silent_def module_SetOutputFormat_def module_SetVerboseLevel_def module_SetCountingStyle_def module_SetFilters_def on_lint_def)

lemma ParseArguments_silent:
  assumes "ParseArguments args a = Inr (Stay (filenames, a'))" "silent a"
  shows "silent a' \<and> filenames \<noteq> []"
proof -
  from assms(1) obtain opts names r where opts: "getopt LONG_OPTIONS args = Some (opts, names)"
    "take_options opts \<lparr>p_verbosity = module_VerboseLevel a, p_output_format = module_OutputFormat a, p_filters = [], p_counting_style = []\<rparr> a = Inr r"
    by (auto simp: ParseArguments_def split: option.splits)
  with assms(1) obtain p a1 where r: "r = Stay (p, a1)" by (cases r) (auto simp: ParseArguments_def)
  with opts assms(1) obtain a3 where "module_SetFilters (p_filters p) (module_SetVerboseLevel (p_verbosity p) (module_SetOutputFormat (p_output_format p) a1)) = Inr a3"
    "a' = module_SetCountingStyle (p_counting_style p) a3" "filenames \<noteq> []"
    by (auto simp: ParseArguments_def Let_def split: if_splits)
  with take_options_silent [OF opts(2) [unfolded r] assms(2)] show ?thesis by simp
qed

section \<open>A file is linted to its end\<close>

definition world_ok :: "world \<Rightarrow> bool" where
  "world_ok w \<longleftrightarrow> filters_ok (lint w) \<and> counts_agree (lint w)"

lemma emit_all_total: "world_ok w \<Longrightarrow> gives world_ok (emit_all Error rs w)"
  using lint_handler.emit_all_ok [of w rs] by (auto simp: gives_def world_ok_def)

lemma world_ok_frame [simp]: "world_ok (w\<lparr>nolints := ns\<rparr>) = world_ok w"
  by (simp add: world_ok_def)

lemma directives_total: "world_ok w \<Longrightarrow> gives world_ok (directives f l n w)"
  unfolding directives_def by (intro oks emit_all_total) simp

lemma do_acts_total: "world_ok w \<Longrightarrow> gives world_ok (do_acts f acts w)"
proof (induction f acts w rule: do_acts.induct)
  case (2 f line n acts w)
  then show ?case by (auto intro: gives_bind_gives [OF directives_total])
next
  case (3 f r acts w)
  from emit_all_total [OF 3(2), of "[r]"] have "gives world_ok (Error r w)" by (cases "Error r w") simp_all
  with 3(1) show ?case by (auto intro: gives_bind_gives)
qed simp

text \<open>The options that the driver passes on, and what the two checks that may raise do on a line.\<close>

definition options_ok :: "line_options \<Rightarrow> bool" where
  "options_ok o1 \<longleftrightarrow> guards_known (lo_env o1) (lo_root o1) \<and> 0 \<le> lo_verbosity o1 \<and> lo_extra o1 = []"

definition casts_returned :: "string \<Rightarrow> cleansed_lines \<Rightarrow> nat \<Rightarrow> bool" where
  "casts_returned f cl n \<longleftrightarrow>
     cl_elided cl ! n = [] \<or> Search RE_PATTERN_INCLUDE (cl_elided cl ! n) \<noteq> None \<or> returns (CheckCasts f cl n)"

definition line_returns :: "string \<Rightarrow> cleansed_lines \<Rightarrow> nat \<Rightarrow> nesting_state \<Rightarrow> bool" where
  "line_returns f cl n st \<longleftrightarrow>
     InAsmBlock st \<or> casts_returned f cl n \<and> returns (CheckForNonStandardConstructs f cl n st)"

lemma CheckLanguage_total:
  assumes "line_ctx cl n ns" "includes_ok st" "no_svn_at_root env" "casts_returned f cl n"
  shows "gives (step_ok f (cl_num_lines cl)) (CheckLanguage env ext f cl n st)"
proof (cases "returns (CheckCasts f cl n)")
  case True
  with assms show ?thesis by (intro CheckLanguage_ok)
next
  case False
  with assms CheckIncludeLine_ok [OF assms(1-3)] line_ctxD(1) [OF assms(1)] show ?thesis
    by (auto simp: casts_returned_def CheckLanguage_def step_ok_def)
qed

lemma CheckLanguage_returned:
  "CheckLanguage env ext f cl n st = Inr p \<Longrightarrow> n < length (cl_elided cl) \<Longrightarrow> casts_returned f cl n"
  by (auto simp: CheckLanguage_def casts_returned_def returns_def split: if_splits)

lemma run_checks_returns: "list_all (\<lambda>c. returns (c f cl n st)) cs \<Longrightarrow> returns (run_checks cs f cl n st)"
  by (induction cs) (auto simp: seq_check_def intro!: returns_bind)

lemma later_checks_return:
  assumes "line_ctx cl n st" "lo_extra o1 = []" "returns (CheckForNonStandardConstructs f cl n st)"
  shows "returns (run_checks (later_checks o1) f cl n st)"
proof (rule run_checks_returns)
  note ctx = assms(1)
  show "list_all (\<lambda>c. returns (c f cl n st)) (later_checks o1)"
    unfolding later_checks_def assms(2)
    by (simp add: assms(3) references.total [OF ctx] vlog.total [OF ctx] threading.total [OF ctx] increment.total [OF ctx]
        make_pair.total [OF ctx] virtual.total [OF ctx] override_or_final.total [OF ctx])
qed

lemma guards_known_svn: "guards_known env root \<Longrightarrow> no_svn_at_root env"
  by (simp add: guards_known_def)

lemma check_line_total:
  assumes ctx: "line_ctx cl n st" and "includes_ok (fs_include fs)" "options_ok o1"
    and "Update f cl n (fs_nesting fs) = Inr (st, us)" "line_returns f cl n st"
  shows "gives (\<lambda>(fs', rs). fs_nesting fs' = st \<and> includes_ok (fs_include fs')) (check_line o1 f cl n fs)"
proof -
  note opts = assms(3) [unfolded options_ok_def] and lines = line_ctxD [OF ctx]
  obtain r2 where r2: "CheckForNamespaceIndentation f st cl n = Inr r2" using namespace_indent.total [OF ctx] by (rule returnsE)
  show ?thesis
  proof (cases "InAsmBlock st")
    case True
    with assms(2,4) r2 show ?thesis by (simp add: check_line_def)
  next
    case False
    with assms(5) have fine: "casts_returned f cl n" "returns (CheckForNonStandardConstructs f cl n st)" by (simp_all add: line_returns_def)
    obtain p3 where r3: "CheckForFunctionLengths (lo_verbosity o1) f cl n (fs_function fs) = Inr p3"
      using CheckForFunctionLengths_total opts lines by (blast elim: returnsE)
    obtain r4 where r4: "CheckForMultilineCommentsAndStrings f cl n = Inr r4" using multiline.total [OF ctx] by (rule returnsE)
    obtain r5 where r5: "CheckStyle (lo_env o1) (lo_root o1) (lo_length o1) (lo_extension o1) f cl n st = Inr r5"
      using line_check.total [OF CheckStyle_check ctx] opts by (blast elim: returnsE)
    obtain incs r6 where r6: "CheckLanguage (lo_env o1) (lo_extension o1) f cl n (fs_include fs) = Inr (incs, r6)" "includes_ok incs"
      using CheckLanguage_total [OF ctx assms(2) guards_known_svn fine(1)] opts by (fastforce simp: gives_def step_ok_def)
    obtain r7 where r7: "run_checks (later_checks o1) f cl n st = Inr r7"
      using later_checks_return [OF ctx _ fine(2)] opts by (blast elim: returnsE)
    from False assms(4) r2 r3 r4 r5 r6 r7 show ?thesis by (cases p3) (simp add: check_line_def)
  qed
qed

text \<open>The checks that may raise return on every line, with the blocks that are open there.\<close>

definition lines_return :: "string \<Rightarrow> cleansed_lines \<Rightarrow> bool" where
  "lines_return f cl \<longleftrightarrow>
     (\<forall>n < cl_num_lines cl. \<forall>st us. Updates f cl [0..<Suc n] NestingState = Inr (st, us) \<longrightarrow> line_returns f cl n st)"

lemma process_lines_total:
  assumes "lines_full cl" "options_ok o1" "lines_return f cl"
    and "k \<le> cl_num_lines cl" "Updates f cl [0..<k] NestingState = Inr (fs_nesting fs, us)" "includes_ok (fs_include fs)" "world_ok w"
  shows "gives (\<lambda>(fs', w'). includes_ok (fs_include fs') \<and> world_ok w') (process_lines o1 f cl [k..<cl_num_lines cl] (fs, w))"
  using assms(4-)
proof (induction "cl_num_lines cl - k" arbitrary: k fs w us)
  case (Suc d)
  then have k: "k < cl_num_lines cl" "[k..<cl_num_lines cl] = k # [Suc k..<cl_num_lines cl]" by (simp_all add: upt_conv_Cons)
  from assms(1) have lines: "lines_ok cl" "length (cl_raw_lines cl) = cl_num_lines cl" by (auto simp: lines_full_def lines_ok_def)
  from Update_total [OF lines(1) k(1)] obtain st vs where up: "Update f cl k (fs_nesting fs) = Inr (st, vs)" by fastforce
  note ups = Updates_line_ctx(1) [OF assms(1) k(1) Suc.prems(2) up] and ctx = Updates_line_ctx(2) [OF assms(1) k(1) Suc.prems(2) up]
  from assms(3) k(1) ups have "line_returns f cl k st" unfolding lines_return_def by blast
  from check_line_total [OF ctx Suc.prems(3) assms(2) up this] obtain fs' rs where
    line: "check_line o1 f cl k fs = Inr (fs', rs)" "fs_nesting fs' = st" "includes_ok (fs_include fs')" by (auto simp: gives_def)
  from directives_total [OF Suc.prems(4), of f "cl_raw_lines cl ! k" k] obtain w1 where w1: "directives f (cl_raw_lines cl ! k) k w = Inr w1" "world_ok w1" by (auto simp: gives_def)
  from emit_all_total [OF w1(2)] obtain w2 where w2: "emit_all Error rs w1 = Inr w2" "world_ok w2" by (auto simp: gives_def)
  obtain cs where cs: "FlagCxx11Features f cl k = Inr cs" using cxx11.total [OF ctx] by (rule returnsE)
  from emit_all_total [OF w2(2)] obtain w3 where w3: "emit_all Error cs w2 = Inr w3" "world_ok w3" by (auto simp: gives_def)
  have "ProcessLine o1 f cl k (fs, w) = Inr (fs', w2)" using k(1) lines(2) w1 line(1) w2 by (simp add: ProcessLine_def)
  moreover have "gives (\<lambda>(fs', w'). includes_ok (fs_include fs') \<and> world_ok w') (process_lines o1 f cl [Suc k..<cl_num_lines cl] (fs', w3))"
    using Suc.hyps(1) [of "Suc k" fs' "us @ vs" w3] Suc.hyps(2) k(1) ups line w3(2) by simp
  ultimately show ?case by (simp add: k(2) cs w3)
qed simp

lemma fold_scan_bound:
  assumes "ifndef_linenum s < num \<and> endif_linenum s < num" "list_all (\<lambda>(i, _). i < num) ls"
  shows "ifndef_linenum (fold scan_guard_line ls s) < num \<and> endif_linenum (fold scan_guard_line ls s) < num"
  using assms
proof (induction ls arbitrary: s)
  case (Cons l ls)
  obtain i line where l: "l = (i, line)" by fastforce
  have "ifndef_linenum (scan_guard_line l s) \<in> {i, ifndef_linenum s}" "endif_linenum (scan_guard_line l s) \<in> {i, endif_linenum s}"
    unfolding l scan_guard_line_def Let_def by simp_all
  with Cons.prems l have "ifndef_linenum (scan_guard_line l s) < num \<and> endif_linenum (scan_guard_line l s) < num" by auto
  with Cons show ?case by simp
qed simp

lemma scan_guard_bound: "ls \<noteq> [] \<Longrightarrow> ifndef_linenum (scan_guard ls) < length ls \<and> endif_linenum (scan_guard ls) < length ls"
  unfolding scan_guard_def by (rule fold_scan_bound) (auto simp: list_all_iff in_set_enumerate_eq)

lemma CheckForHeaderGuard_total:
  assumes "guards_known env root" "cl_lines_without_raw_strings cl \<noteq> []"
  shows "returns (CheckForHeaderGuard env root f cl)"
  unfolding CheckForHeaderGuard_def Let_def
  by (intro oks GetHeaderGuardCPPVariable_total assms; use scan_guard_bound [OF assms(2)] in simp)

lemma CheckHeaderFileIncluded_total: "no_svn_at_root env \<Longrightarrow> returns (CheckHeaderFileIncluded env f st)"
  unfolding CheckHeaderFileIncluded_def Let_def by (intro oks name_parts_total repository_name_total)

lemma final_reports_total:
  assumes "lines_ok cl" "no_svn_at_root (os env)" "permutes (key_order env)"
  shows "returns (final_reports env ext f ls cl fs)"
  unfolding final_reports_def
  by (intro oks CheckHeaderFileIncluded_total assms(2)) (simp add: include_what_you_use_result [OF assms refl])

lemma RemoveMultiLineComments_total:
  "RemoveMultiLineComments f ls = (ls', rs) \<Longrightarrow> length ls' = length ls"
  using remove_comments_strip [of f "[]" ls] strip_comments_length [of 0 ls]
  by (auto simp: RemoveMultiLineComments_def)

lemma run_checks_member: "run_checks cs f cl n st = Inr rs \<Longrightarrow> c \<in> set cs \<Longrightarrow> returns (c f cl n st)"
  by (induction cs arbitrary: rs) (auto simp: seq_check_def returns_def)

lemma check_line_returned:
  assumes "check_line o1 f cl n fs = Inr (fs', rs)" "n < length (cl_elided cl)"
  shows "\<exists>us. Update f cl n (fs_nesting fs) = Inr (fs_nesting fs', us) \<and> line_returns f cl n (fs_nesting fs')"
proof -
  have mem: "CheckForNonStandardConstructs \<in> set (later_checks o1)" by (simp add: later_checks_def)
  from assms(1) obtain st us where up: "Update f cl n (fs_nesting fs) = Inr (st, us)" by (auto simp: check_line_def)
  show ?thesis
  proof (cases "InAsmBlock st")
    case True
    with assms(1) up show ?thesis by (auto simp: check_line_def line_returns_def)
  next
    case False
    with assms(1) up obtain p r7 where "CheckLanguage (lo_env o1) (lo_extension o1) f cl n (fs_include fs) = Inr p"
      "run_checks (later_checks o1) f cl n st = Inr r7" "fs_nesting fs' = st"
      by (auto simp: check_line_def Let_def)
    with up run_checks_member [OF _ mem] CheckLanguage_returned assms(2) show ?thesis by (auto simp: line_returns_def)
  qed
qed

lemma process_lines_returned:
  assumes "process_lines o1 f cl [k..<m] (fs, w) = Inr p" "Updates f cl [0..<k] NestingState = Inr (fs_nesting fs, us)"
    and "k \<le> n" "n < m" "m \<le> length (cl_elided cl)" "Updates f cl [0..<Suc n] NestingState = Inr (st, vs)"
  shows "line_returns f cl n st"
  using assms
proof (induction "m - k" arbitrary: k fs w us)
  case (Suc d)
  then have k: "[k..<m] = k # [Suc k..<m]" "k < length (cl_elided cl)" by (simp_all add: upt_conv_Cons)
  with Suc.prems(1) obtain fs' rs w' where line: "check_line o1 f cl k fs = Inr (fs', rs)"
    and rest: "process_lines o1 f cl [Suc k..<m] (fs', w') = Inr p"
    by (auto simp: ProcessLine_def)
  from check_line_returned [OF line k(2)] obtain ws where
    up: "Update f cl k (fs_nesting fs) = Inr (fs_nesting fs', ws)" "line_returns f cl k (fs_nesting fs')" by blast
  from Updates_snoc [OF Suc.prems(2) up(1)] have ups: "Updates f cl [0..<Suc k] NestingState = Inr (fs_nesting fs', us @ ws)" by simp
  show ?case
  proof (cases "n = k")
    case True
    with ups up(2) Suc.prems(6) show ?thesis by simp
  next
    case False
    with Suc.hyps(1) [of "Suc k" fs' w'] Suc.hyps(2) rest ups Suc.prems show ?thesis by simp
  qed
qed simp

lemma ProcessFileData_returns_iff:
  assumes "world_ok w" "options_ok o1" "lo_env o1 = os env" "permutes (key_order env)"
    and comments: "RemoveMultiLineComments f (with_markers ls) = (ls', rs)" and cl: "CleansedLines ls' = Inr cl"
  shows "returns (ProcessFileData env o1 f ls w) \<longleftrightarrow> lines_return f cl"
proof -
  let ?ls = "with_markers ls"
  from CleansedLines_full [OF cl] RemoveMultiLineComments_total [OF comments]
  have full: "lines_full cl" "cl_num_lines cl = length ?ls" by simp_all
  then have elided: "length (cl_elided cl) = cl_num_lines cl" "cl_lines_without_raw_strings cl \<noteq> []" "lines_ok cl"
    by (auto simp: lines_full_def lines_ok_def with_markers_def)
  obtain incs where incs: "IncludeState = Inr incs" "includes_ok incs"
    by (simp add: IncludeState_def ResetSection_def includes_ok_def)
  obtain w2 where w2: "emit_all Error (CheckForCopyright f ?ls) (w\<lparr>nolints := ResetNolintSuppressions (nolints w)\<rparr>) = Inr w2" "world_ok w2"
    using emit_all_total [of "w\<lparr>nolints := ResetNolintSuppressions (nolints w)\<rparr>"] assms(1) by (simp add: gives_def) blast
  obtain w4 where w4: "emit_all Error rs (w2\<lparr>nolints := ProcessGlobalSuppresions ?ls (nolints w2)\<rparr>) = Inr w4" "world_ok w4"
    using emit_all_total [of "w2\<lparr>nolints := ProcessGlobalSuppresions ?ls (nolints w2)\<rparr>"] w2(2) by (simp add: gives_def) blast
  from assms(2,3) have env: "guards_known (os env) (lo_root o1)" by (simp add: options_ok_def)
  obtain acts where acts: "(if lo_extension o1 = ''h'' then CheckForHeaderGuard (os env) (lo_root o1) f cl else Inr []) = Inr acts"
    using CheckForHeaderGuard_total [OF env elided(2)] by (cases "lo_extension o1 = ''h''") (auto elim: returnsE)
  obtain w5 where w5: "do_acts f acts w4 = Inr w5" "world_ok w5" using do_acts_total [OF w4(2)] by (auto simp: gives_def)
  let ?fs = "\<lparr>fs_include = incs, fs_function = FunctionState, fs_nesting = NestingState\<rparr>"
  have run: "ProcessFileData env o1 f ls w = res_bind (process_lines o1 f cl [0..<cl_num_lines cl] (?fs, w5)) (\<lambda>(fs, w6).
      res_bind (final_reports env (lo_extension o1) f ls' cl fs) (\<lambda>rs. emit_all Error rs w6))"
    unfolding ProcessFileData_def incs(1) using w2(1) comments w4(1) cl acts w5(1) by (simp add: Let_def NumLines_def)
  show ?thesis
  proof
    assume "lines_return f cl"
    from process_lines_total [OF full(1) assms(2) this, of 0 ?fs "[]" w5] incs(2) w5(2) obtain fs w6 where
      "process_lines o1 f cl [0..<cl_num_lines cl] (?fs, w5) = Inr (fs, w6)" "world_ok w6" by (auto simp: gives_def)
    moreover obtain qs where "final_reports env (lo_extension o1) f ls' cl fs = Inr qs"
      using final_reports_total [OF elided(3) guards_known_svn [OF env] assms(4)] by (blast elim: returnsE)
    moreover have "returns (emit_all Error qs w6)" if "world_ok w6" for qs w6
      using emit_all_total [OF that] by (rule gives_returns)
    ultimately show "returns (ProcessFileData env o1 f ls w)" unfolding run by simp
  next
    assume "returns (ProcessFileData env o1 f ls w)"
    then obtain p where "process_lines o1 f cl [0..<cl_num_lines cl] (?fs, w5) = Inr p" unfolding run by (auto simp: returns_def)
    from process_lines_returned [OF this] show "lines_return f cl" unfolding lines_return_def elided(1) by auto
  qed
qed

section \<open>Properties\<close>

text \<open>
  C1: The linter gets to the end of a file exactly when the two checks that can raise, the
  one of casts and the one of constructors, return on every line that they look at, with
  the blocks that are open there. The hypotheses: a state of the linter that its operations
  reach, no check passed in from outside and dictionaries that are listed in some order, which
  hold in every run of the driver; a verbosity of zero or more and a path whose include guard
  can be computed, which the driver does not enforce.
\<close>
theorem file_linted_to_its_end:
  assumes "filters_ok (lint w)" "counts_agree (lint w)" "permutes (key_order env)"
    and "guards_known (os env) (lo_root o1)" "lo_env o1 = os env" "0 \<le> lo_verbosity o1" "lo_extra o1 = []"
    and "RemoveMultiLineComments filename (with_markers ls) = (ls', rs)" "CleansedLines ls' = Inr cl"
  shows "(\<exists>w'. ProcessFileData env o1 filename ls w = Inr w') \<longleftrightarrow>
    (\<forall>n < cl_num_lines cl. \<forall>st us. Updates filename cl [0..<Suc n] NestingState = Inr (st, us) \<longrightarrow>
       InAsmBlock st \<or>
       (cl_elided cl ! n = [] \<or> Search RE_PATTERN_INCLUDE (cl_elided cl ! n) \<noteq> None \<or> returns (CheckCasts filename cl n)) \<and>
       returns (CheckForNonStandardConstructs filename cl n st))"
  using ProcessFileData_returns_iff [of w o1 env, OF _ _ assms(5,3,8,9)] assms
  unfolding lines_return_def line_returns_def casts_returned_def returns_def [of "ProcessFileData _ _ _ _ _"]
  by (simp add: world_ok_def options_ok_def)

definition demo_lint :: lint_env where
  "demo_lint = \<lparr>os = demo_env, read_config = (\<lambda>_. None), key_order = (\<lambda>xs. xs), items_order = (\<lambda>xs. xs)\<rparr>"

definition demo_options :: line_options where
  "demo_options = \<lparr>lo_env = demo_env, lo_root = [], lo_length = 80, lo_verbosity = 1, lo_extension = ''cc'', lo_extra = []\<rparr>"

theorem file_linted_to_its_end_witness:
  "\<not> (\<exists>w'. ProcessFileData demo_lint demo_options ''a.cc'' [''  Foo** p = &static_cast<Foo*>'', ''      (q);''] demo_world = Inr w')"
proof -
  let ?ls = "with_markers [''  Foo** p = &static_cast<Foo*>'', ''      (q);'']"
  have "case CleansedLines (fst (RemoveMultiLineComments ''a.cc'' ?ls)) of Inl _ \<Rightarrow> False | Inr cl \<Rightarrow>
      (case Updates ''a.cc'' cl [0, 1] NestingState of Inl _ \<Rightarrow> False | Inr (st, us) \<Rightarrow> \<not> InAsmBlock st) \<and>
      1 < cl_num_lines cl \<and> cl_elided cl ! 1 \<noteq> [] \<and> Search RE_PATTERN_INCLUDE (cl_elided cl ! 1) = None \<and>
      \<not> returns (CheckCasts ''a.cc'' cl 1)"
    by code_simp
  then obtain cl st us where cl: "CleansedLines (fst (RemoveMultiLineComments ''a.cc'' ?ls)) = Inr cl"
    and ups: "Updates ''a.cc'' cl [0, 1] NestingState = Inr (st, us)" "\<not> InAsmBlock st"
    and bad: "1 < cl_num_lines cl" "cl_elided cl ! 1 \<noteq> []" "Search RE_PATTERN_INCLUDE (cl_elided cl ! 1) = None"
      "\<not> returns (CheckCasts ''a.cc'' cl 1)" by (auto split: sum.splits)
  have ok: "filters_ok (lint demo_world)" "counts_agree (lint demo_world)"
    by (simp_all add: demo_world_def filters_ok_def counts_agree_def CppLintState_def signed_filter_def
        startswith_def DEFAULT_FILTERS_def)
  have opts: "permutes (key_order demo_lint)" "guards_known (os demo_lint) (lo_root demo_options)" "lo_env demo_options = os demo_lint"
    "0 \<le> lo_verbosity demo_options" "lo_extra demo_options = []"
    using demo_env_guards permutes_examples(1) by (simp_all add: demo_lint_def demo_options_def)
  have "[0..<Suc 1] = [0, 1]" by simp
  with file_linted_to_its_end [OF ok opts surjective_pairing cl] ups bad show ?thesis by metis
qed

text \<open>
  C3: Whatever the configuration files of earlier files say, and whether these were read,
  excluded or could not be opened, every file starts with the filters, the verbosity, the
  output format, the root and the extensions of the command line, and leaves them as they
  were. The allowed line length is not among them.
\<close>
theorem configuration_is_local:
  assumes "process_files env (earlier @ filename # later) a = Inr a'"
  shows "\<exists>b c. process_files env earlier a = Inr b \<and> ProcessFile env [] filename (module_VerboseLevel b) b = Inr c \<and>
    process_files env later c = Inr a' \<and> (\<forall>x \<in> {b, c, a'}.
      filters (lint (world_of x)) = filters (lint (world_of a)) \<and> module_VerboseLevel x = module_VerboseLevel a \<and>
      module_OutputFormat x = module_OutputFormat a \<and> root_dir x = root_dir a \<and> valid_extensions x = valid_extensions a)"
proof -
  from assms obtain b c where run: "process_files env earlier a = Inr b"
    "ProcessFile env [] filename (module_VerboseLevel b) b = Inr c" "process_files env later c = Inr a'"
    by (auto simp: process_files_append)
  moreover from run process_files_done [OF run(1)] process_files_done [OF run(3)] process_files_done [of env "[filename]" b c]
  have "unchanged a b" "unchanged a c" "unchanged a a'" by (auto simp: unchanged_def)
  ultimately show ?thesis unfolding unchanged_def by blast
qed

definition demo_config :: lint_env where
  "demo_config = demo_lint\<lparr>os := demo_env\<lparr>path_isfile := (\<lambda>p. p = ''/repo/CPPLINT.cfg'')\<rparr>,
     read_config := (\<lambda>_. Some (''filter=-build'' @ [nl] @ ''linelength=100'' @ [nl]))\<rparr>"

theorem configuration_is_local_witness:
  "\<exists>b c. process_files demo_config [''a.cc''] (initial_app []) = Inr b \<and> ProcessFile demo_config [] ''b.cc'' (module_VerboseLevel b) b = Inr c \<and>
     filters (lint (world_of b)) = filters (lint (world_of (initial_app []))) \<and> filters (lint (world_of c)) = filters (lint (world_of b))"
proof -
  have "returns (process_files demo_config ([''a.cc''] @ ''b.cc'' # []) (initial_app []))" by code_simp
  then obtain a' where "process_files demo_config ([''a.cc''] @ ''b.cc'' # []) (initial_app []) = Inr a'" by (rule returnsE)
  from configuration_is_local [OF this] show ?thesis by auto
qed

text \<open>The line length of a configuration file stays in force for the files after it.\<close>

lemma line_length_leaks:
  "case ProcessFile demo_config [] ''a.cc'' 1 (initial_app []) of Inl _ \<Rightarrow> False | Inr a \<Rightarrow> line_length a = 100"
  by code_simp

section \<open>A run on an empty file\<close>

text \<open>A run on an empty file and on one that is not there: the first is linted to its end.\<close>

definition demo_file :: lint_env where
  "demo_file = demo_lint\<lparr>os := demo_env\<lparr>read_file := (\<lambda>p. if p = ''a.cc'' then Some [] else None)\<rparr>\<rparr>"

lemma cfg_walk_none:
  "(\<And>d. \<not> path_isfile (os env) (path_join d ''CPPLINT.cfg'')) \<Longrightarrow> cfg_walk env f p c a = Inr (Go_on c a)"
proof (induction env f p c a rule: cfg_walk.induct)
  case (1 env f p c a)
  obtain dir base where split: "path_split p = (dir, base)" by fastforce
  show ?case using 1(1) [OF _ refl split [symmetric] _ refl _ 1(3)] 1(3) by (subst cfg_walk.simps) (simp add: split)
qed

lemma demo_file_config: "ProcessConfigOverrides demo_file f a = Inr (True, a)"
proof -
  have "last (path_join d ''CPPLINT.cfg'') = CHR ''g''" for d by (simp add: path_join_def)
  moreover have "last p \<noteq> CHR ''g''" if "path_isfile (os demo_file) p" for p
    using that by (auto simp: demo_file_def demo_env_def)
  ultimately have "\<not> path_isfile (os demo_file) (path_join d ''CPPLINT.cfg'')" for d by metis
  from cfg_walk_none [OF this] show ?thesis by (simp add: ProcessConfigOverrides_def)
qed

lemma demo_file_lines:
  "\<exists>cl. CleansedLines (fst (RemoveMultiLineComments ''a.cc'' (with_markers [[]]))) = Inr cl \<and> lines_return ''a.cc'' cl"
proof -
  have "case CleansedLines (fst (RemoveMultiLineComments ''a.cc'' (with_markers [[]]))) of Inl _ \<Rightarrow> False
      | Inr cl \<Rightarrow> cl_num_lines cl = 3 \<and> cl_elided cl = [[], [], []] \<and>
          list_all (\<lambda>n. case Updates ''a.cc'' cl [0..<Suc n] NestingState of Inl _ \<Rightarrow> False
            | Inr (st, us) \<Rightarrow> returns (CheckForNonStandardConstructs ''a.cc'' cl n st)) [0, 1, 2]"
    by code_simp
  then obtain cl where cl: "CleansedLines (fst (RemoveMultiLineComments ''a.cc'' (with_markers [[]]))) = Inr cl"
    "cl_num_lines cl = 3" "cl_elided cl = [[], [], []]"
    "\<forall>n \<in> {0, 1, 2}. case Updates ''a.cc'' cl [0..<Suc n] NestingState of Inl _ \<Rightarrow> False
       | Inr (st, us) \<Rightarrow> returns (CheckForNonStandardConstructs ''a.cc'' cl n st)"
    by (auto split: sum.splits)
  have "line_returns ''a.cc'' cl n st" if "n < 3" "Updates ''a.cc'' cl [0..<Suc n] NestingState = Inr (st, us)" for n st us
  proof -
    have n: "n \<in> {0, 1, 2}" using that(1) by auto
    from bspec [OF cl(4) n] that(2) have "returns (CheckForNonStandardConstructs ''a.cc'' cl n st)" by simp
    with n cl(3) show ?thesis by (auto simp: line_returns_def casts_returned_def)
  qed
  with cl show ?thesis by (auto simp: lines_return_def)
qed

lemma demo_file_linted:
  assumes "world_ok w" "options_ok o1" "lo_env o1 = os demo_file" "filters (lint w) = DEFAULT_FILTERS" "verbose_level (lint w) = 1"
  shows "\<exists>w'. ProcessFileData demo_file o1 ''a.cc'' [[]] w = Inr w' \<and> 0 < error_count (lint w')"
proof -
  from demo_file_lines obtain cl where cl: "CleansedLines (fst (RemoveMultiLineComments ''a.cc'' (with_markers [[]]))) = Inr cl"
    "lines_return ''a.cc'' cl" by blast
  have "permutes (key_order demo_file)" using permutes_examples(1) by (simp add: demo_file_def demo_lint_def)
  from ProcessFileData_returns_iff [OF assms(1-3) this surjective_pairing cl(1)] cl(2)
  obtain w' where run: "ProcessFileData demo_file o1 ''a.cc'' [[]] w = Inr w'" by (auto elim: returnsE)
  from ProcessFileData_parts [OF run] assms(2) obtain w2 where
    2: "emit_all Error (CheckForCopyright ''a.cc'' (with_markers [[]])) (w\<lparr>nolints := ResetNolintSuppressions (nolints w)\<rparr>) = Inr w2"
    and rest: "reports_only ''a.cc'' w2 w'" by (auto simp: options_ok_def)
  have "\<not> list_ex (\<lambda>l. contains (lower l) ''copyright'') (drop 1 (take 11 (with_markers [[]])))" by code_simp
  then obtain msg where "CheckForCopyright ''a.cc'' (with_markers [[]]) = [Report ''a.cc'' 0 ''legal/copyright'' 5 msg]"
    by (simp add: CheckForCopyright_def)
  moreover have "is_filtered ''legal/copyright'' DEFAULT_FILTERS False = Inr False" by code_simp
  ultimately have "0 < error_count (lint w2)" using 2 assms(4,5)
    by (auto simp: Error_def ShouldPrintError_def IsErrorSuppressedByNolint_def ResetNolintSuppressions_def lines_of_def IncrementErrorCount_def Let_def)
  with rest run show ?thesis by (auto simp: reports_only_def logged_def)
qed

lemma demo_file_processed:
  assumes "world_ok (world_of a)" "filters (lint (world_of a)) = DEFAULT_FILTERS" "root_dir a = []" "''cc'' \<in> set (valid_extensions a)"
  shows "\<exists>b. ProcessFile demo_file [] ''a.cc'' 1 a = Inr b \<and> 0 < error_count (lint (world_of b))"
proof -
  define a1 where "a1 = module_BackupFilters (module_SetVerboseLevel 1 a)"
  have a1: "world_ok (world_of a1)" "filters (lint (world_of a1)) = DEFAULT_FILTERS" "verbose_level (lint (world_of a1)) = 1"
    "root_dir a1 = []" "''cc'' \<in> set (valid_extensions a1)"
    using assms by (simp_all add: a1_def module_BackupFilters_def module_SetVerboseLevel_def on_lint_def BackupFilters_def
        SetVerboseLevel_def world_ok_def filters_ok_def counts_agree_def)
  let ?o = "\<lparr>lo_env = os demo_file, lo_root = root_dir a1, lo_length = line_length a1, lo_verbosity = verbose_level (lint (world_of a1)),
    lo_extension = ''cc'', lo_extra = []\<rparr>"
  have "guards_known (os demo_file) []"
    using demo_env_guards by (simp add: guards_known_def no_svn_at_root_def marked_def demo_file_def)
  then have "options_ok ?o" using a1(3,4) by (simp add: options_ok_def)
  from demo_file_linted [OF a1(1) this _ a1(2,3)] obtain w' where
    w': "ProcessFileData demo_file ?o ''a.cc'' [[]] (world_of a1) = Inr w'" "0 < error_count (lint w')" by auto
  have name: "file_extension_of ''a.cc'' = ''cc''" "read_file (os demo_file) ''a.cc'' = Some []" by code_simp+
  then have "lint_file demo_file [] ''a.cc'' [] a1 = Inr (a1\<lparr>world_of := w'\<rparr>)"
    using w'(1) a1(5) by (simp add: lint_file_def mixed_line_ends_def)
  with name(2) w'(2) show ?thesis
    by (simp add: ProcessFile_def a1_def [symmetric] demo_file_config read_input_def app_write_def to_stderr_def
        module_RestoreFilters_def on_lint_def RestoreFilters_def)
qed

lemma demo_missing_processed:
  "\<exists>b. ProcessFile demo_file [] ''b.cc'' v a = Inr b \<and> error_count (lint (world_of b)) = error_count (lint (world_of a))"
proof -
  have "read_file (os demo_file) ''b.cc'' = None" by code_simp
  then show ?thesis
    by (simp add: ProcessFile_def demo_file_config read_input_def app_write_def to_stderr_def module_RestoreFilters_def
        module_BackupFilters_def module_SetVerboseLevel_def on_lint_def RestoreFilters_def BackupFilters_def SetVerboseLevel_def)
qed

end
