(* ===== verification/Config_Files.thy ===== *)
theory Config_Files
  imports Runs
begin

text \<open>
  What the configuration files of a file mean: a declarative reading of the chain of
  \<open>CPPLINT.cfg\<close> files from the directory of a file upwards, and that the loop of
  \<open>ProcessConfigOverrides\<close> implements it.
\<close>

section \<open>The reading\<close>

definition cfg_entry :: "string \<Rightarrow> (string \<times> string) option" where
  "cfg_entry l =
     (let line = fst (partition_at (CHR ''#'') l); (name, val) = partition_at (CHR ''='') line
      in if byte_strip line = [] then None else Some (byte_strip name, byte_strip val))"

definition entries :: "string list \<Rightarrow> (string \<times> string) list" where
  "entries ls = List.map_filter cfg_entry ls"

definition excludes :: "string \<Rightarrow> string \<times> string \<Rightarrow> bool" where
  "excludes base_name e \<longleftrightarrow>
     fst e = ''exclude_files'' \<and> (case compile (snd e) of None \<Rightarrow> False | Some p \<Rightarrow> re_match p base_name \<noteq> None)"

definition is_top :: "(string \<times> string) list \<Rightarrow> bool" where
  "is_top es \<longleftrightarrow> ''set noparent'' \<in> fst ` set es"

definition filter_values :: "(string \<times> string) list \<Rightarrow> string list" where
  "filter_values es = map snd (filter (\<lambda>e. fst e = ''filter'') es)"

text \<open>The configuration files that apply, nearest first, each with the path component it is matched with.\<close>

function config_chain :: "lint_env \<Rightarrow> string \<Rightarrow> (string \<times> (string \<times> string) list) list" where
  "config_chain env path =
     (let (dir, base_name) = path_split path; cfg_file = path_join dir ''CPPLINT.cfg''
      in if base_name = [] then []
         else if \<not> path_isfile (os env) cfg_file then config_chain env dir
         else (case read_config env cfg_file of
                 None \<Rightarrow> []
               | Some content \<Rightarrow>
                   (base_name, entries (split_chr nl content)) #
                   (if is_top (entries (split_chr nl content)) then [] else config_chain env dir)))"
  by pat_completeness auto
termination
  by (relation "measure (\<lambda>(_, p). length p)") (auto dest: path_split_shorter)

declare config_chain.simps [simp del]

definition filter_list :: "string \<Rightarrow> string list" where
  "filter_list fs = filter (\<lambda>f. f \<noteq> []) (map byte_strip (split_chr (CHR '','') fs))"

section \<open>One file\<close>

lemma entries_simps [simp]:
  "entries [] = []"
  "entries (l # ls) = (case cfg_entry l of None \<Rightarrow> entries ls | Some e \<Rightarrow> e # entries ls)"
  by (simp_all add: entries_def List.map_filter_simps split: option.split)

lemma cfg_lines_entry:
  "cfg_lines f file base (l # ls) c a =
     (case cfg_entry l of
        None \<Rightarrow> cfg_lines f file base ls c a
      | Some (name, val) \<Rightarrow>
          res_bind (cfg_option f file base name val c a) (\<lambda>r.
            case r of Excluded a' \<Rightarrow> Inr (Excluded a') | Go_on c' a' \<Rightarrow> cfg_lines f file base ls c' a'))"
  by (simp add: cfg_entry_def Let_def split: prod.split)

lemma cfg_option_meaning:
  assumes "cfg_option f file base name val c a = Inr r" "base \<noteq> []"
  shows "case r of
      Excluded a' \<Rightarrow> excludes base (name, val)
    | Go_on c' a' \<Rightarrow> \<not> excludes base (name, val) \<and>
        c' = c\<lparr>cfg_keep_looking := cfg_keep_looking c \<and> \<not> is_top [(name, val)], cfg_filters := cfg_filters c @ filter_values [(name, val)]\<rparr>"
  using assms unfolding cfg_option_def excludes_def is_top_def filter_values_def
  by (auto split: if_splits option.splits)

lemma cfg_lines_meaning:
  assumes "cfg_lines f file base ls c a = Inr r" "base \<noteq> []"
  shows "case r of
      Excluded a' \<Rightarrow> \<exists>e \<in> set (entries ls). excludes base e
    | Go_on c' a' \<Rightarrow> (\<forall>e \<in> set (entries ls). \<not> excludes base e) \<and>
        c' = c\<lparr>cfg_keep_looking := cfg_keep_looking c \<and> \<not> is_top (entries ls), cfg_filters := cfg_filters c @ filter_values (entries ls)\<rparr>"
  using assms(1)
proof (induction ls arbitrary: c a)
  case Nil
  then show ?case by (auto simp: is_top_def filter_values_def)
next
  case (Cons l ls)
  show ?case
  proof (cases "cfg_entry l")
    case None
    then have same: "entries (l # ls) = entries ls" by simp
    from Cons None show ?thesis unfolding same by (simp add: cfg_lines_entry del: cfg_lines.simps)
  next
    case (Some e)
    obtain name val where e: "e = (name, val)" by fastforce
    from Cons.prems Some e obtain r1 where r1: "cfg_option f file base name val c a = Inr r1"
      and rest: "(case r1 of Excluded a' \<Rightarrow> Inr (Excluded a') | Go_on c' a' \<Rightarrow> cfg_lines f file base ls c' a') = Inr r"
      by (auto simp: cfg_lines_entry simp del: cfg_lines.simps)
    from cfg_option_meaning [OF r1 assms(2)] rest Cons.IH Some e show ?thesis
      by (cases r1; cases r) (fastforce simp: is_top_def filter_values_def)+
  qed
qed

section \<open>The chain\<close>

definition chain_excludes :: "(string \<times> (string \<times> string) list) list \<Rightarrow> bool" where
  "chain_excludes chain \<longleftrightarrow> (\<exists>(base, es) \<in> set chain. \<exists>e \<in> set es. excludes base e)"

definition chain_filters :: "(string \<times> (string \<times> string) list) list \<Rightarrow> string list" where
  "chain_filters chain = concat (map (filter_values \<circ> snd) chain)"

lemma chain_simps [simp]:
  "\<not> chain_excludes []" "chain_excludes ((base, es) # chain) \<longleftrightarrow> (\<exists>e \<in> set es. excludes base e) \<or> chain_excludes chain"
  "chain_filters [] = []" "chain_filters ((base, es) # chain) = filter_values es @ chain_filters chain"
  by (simp_all add: chain_excludes_def chain_filters_def)

lemma cfg_walk_meaning:
  assumes "cfg_walk env f path c a = Inr r" "cfg_keep_looking c"
  shows "case r of
      Excluded a' \<Rightarrow> chain_excludes (config_chain env path)
    | Go_on c' a' \<Rightarrow> \<not> chain_excludes (config_chain env path) \<and> cfg_filters c' = cfg_filters c @ chain_filters (config_chain env path)"
  using assms
proof (induction env f path c a rule: cfg_walk.induct)
  case (1 env f path c a)
  obtain dir base where split: "path_split path = (dir, base)" by fastforce
  let ?file = "path_join dir ''CPPLINT.cfg''"
  note walk = 1(3) [unfolded cfg_walk.simps [of env f path c a] split] and chain = config_chain.simps [of env path, unfolded split]
  show ?case
  proof (cases "base \<noteq> [] \<and> path_isfile (os env) ?file")
    case False
    show ?thesis
    proof (cases "base = []")
      case True
      with walk 1(4) chain show ?thesis by auto
    next
      case base: False
      with walk 1(4) False have "cfg_walk env f dir c a = Inr r" by simp
      from 1(1)[OF _ split [symmetric] refl _ _ _ this] 1(4) base False chain show ?thesis
        by (cases r) (simp_all add: Let_def)
    qed
  next
    case True
    show ?thesis
    proof (cases "read_config env ?file")
      case None
      with walk 1(4) True chain show ?thesis by auto
    next
      case (Some content)
      let ?es = "entries (split_chr nl content)"
      from walk 1(4) True Some obtain r1 where r1: "cfg_lines f ?file base (split_chr nl content) c a = Inr r1"
        and rest: "(case r1 of Excluded a' \<Rightarrow> Inr (Excluded a') | Go_on c' a' \<Rightarrow> cfg_walk env f dir c' a') = Inr r"
        by (auto split: sum.splits cfg_result.splits)
      have chain': "config_chain env path = (base, ?es) # (if is_top ?es then [] else config_chain env dir)"
        using chain True Some by simp
      show ?thesis
      proof (cases r1)
        case (Excluded a1)
        with rest cfg_lines_meaning [OF r1] True chain' show ?thesis by auto
      next
        case (Go_on c1 a1)
        with cfg_lines_meaning [OF r1] True have c1: "\<forall>e \<in> set ?es. \<not> excludes base e"
          "c1 = c\<lparr>cfg_keep_looking := \<not> is_top ?es, cfg_filters := cfg_filters c @ filter_values ?es\<rparr>" using 1(4) by auto
        from rest Go_on have walk1: "cfg_walk env f dir c1 a1 = Inr r" by simp
        show ?thesis
        proof (cases "is_top ?es")
          case top: True
          with walk1 c1(2) have "r = Go_on c1 a1" by (subst (asm) cfg_walk.simps) simp
          with top c1 chain' show ?thesis by simp
        next
          case below: False
          from 1(2)[OF _ split [symmetric] refl _ _ _ Some r1 _ walk1] below c1 chain' True 1(4) Go_on show ?thesis
            by (cases r) auto
        qed
      qed
    qed
  qed
qed

lemma add_all_filters_meaning:
  "add_all_filters fs a = Inr a' \<Longrightarrow> filters (lint (world_of a')) = filters (lint (world_of a)) @ concat (map filter_list fs)"
  by (induction fs arbitrary: a)
    (auto simp: module_AddFilters_def AddFilters_def on_lint_def Let_def filter_list_def split: option.splits)

section \<open>Properties\<close>

text \<open>
  C15: The configuration files that apply to a file are those of its directory and the
  directories above it, up to the first one that says it is the top or cannot be read. The
  file is skipped exactly when one of them excludes the path component below it; otherwise
  the filters in force are those of the command line followed by the filters of these
  files, the ones of the outermost directory first, so that a directory overrules the ones above
  it. Within one file the order of the filter lines is reversed as well.
\<close>
theorem config_overrides:
  assumes "ProcessConfigOverrides env filename a = Inr (go_on, a')" "chain = config_chain env (abspath (os env) filename)"
  shows "(go_on \<longleftrightarrow> \<not> (\<exists>(base, es) \<in> set chain. \<exists>e \<in> set es. excludes base e)) \<and>
    filters (lint (world_of a')) = filters (lint (world_of a)) @
      (if go_on then concat (map (\<lambda>(_, es). concat (map filter_list (rev (filter_values es)))) (rev chain)) else [])"
proof -
  let ?c = "\<lparr>cfg_keep_looking = True, cfg_filters = []\<rparr>"
  from assms(1) obtain r where r: "cfg_walk env filename (abspath (os env) filename) ?c a = Inr r"
    and rest: "(case r of Excluded a' \<Rightarrow> Inr (False, a')
      | Go_on c a' \<Rightarrow> res_bind (add_all_filters (rev (cfg_filters c)) a') (\<lambda>a''. Inr (True, a''))) = Inr (go_on, a')"
    by (auto simp: ProcessConfigOverrides_def)
  note meaning = cfg_walk_meaning [OF r] and ok = cfg_walk_ok [OF r]
  show ?thesis
  proof (cases r)
    case (Excluded a1)
    with meaning ok rest show ?thesis by (auto simp: assms(2) chain_excludes_def notes_only_def)
  next
    case (Go_on c a1)
    have "concat (map filter_list (rev (chain_filters ch))) =
        concat (map (\<lambda>(_, es). concat (map filter_list (rev (filter_values es)))) (rev ch))" for ch
      by (induction ch) (auto simp: chain_filters_def)
    moreover from Go_on meaning ok have "\<not> chain_excludes chain" "cfg_filters c = chain_filters chain" "lint (world_of a1) = lint (world_of a)"
      by (simp_all add: assms(2) notes_only_def)
    ultimately show ?thesis using rest Go_on add_all_filters_meaning [of _ a1] by (auto simp: chain_excludes_def)
  qed
qed

definition demo_tree :: lint_env where
  "demo_tree = demo_lint\<lparr>os := demo_env\<lparr>path_isfile := (\<lambda>p. p \<in> set [''/repo/CPPLINT.cfg'', ''/repo/io/CPPLINT.cfg''])\<rparr>,
     read_config := (\<lambda>p. if p = ''/repo/CPPLINT.cfg'' then Some (''filter=-build  # all'' @ [nl] @ ''exclude_files=gen.*'' @ [nl])
       else Some (''filter=+build/include'' @ [nl]))\<rparr>"

theorem config_overrides_witness:
  "\<exists>a'. ProcessConfigOverrides demo_tree ''io/a.cc'' (initial_app []) = Inr (True, a') \<and>
     filters (lint (world_of a')) = DEFAULT_FILTERS @ [''-build'', ''+build/include'']"
proof -
  have "case ProcessConfigOverrides demo_tree ''io/a.cc'' (initial_app []) of Inl _ \<Rightarrow> False | Inr (go_on, _) \<Rightarrow> go_on" by code_simp
  then obtain a' where run: "ProcessConfigOverrides demo_tree ''io/a.cc'' (initial_app []) = Inr (True, a')" by (auto split: sum.splits)
  have "concat (map (\<lambda>(_, es). concat (map filter_list (rev (filter_values es)))) (rev (config_chain demo_tree (abspath (os demo_tree) ''io/a.cc'')))) =
      [''-build'', ''+build/include'']"
    "filters (lint (world_of (initial_app []))) = DEFAULT_FILTERS" by code_simp+
  with config_overrides [OF run refl] run show ?thesis by simp
qed

end
