(* ===== verification/Scripts.thy ===== *)
theory Scripts
  imports PyRegex
begin

text \<open>
  The scripts around the linter: \<open>scripts/launch.py\<close> and \<open>scripts/kill.py\<close>, which start
  and stop the program on the machines of a host file, \<open>scripts/lint.py\<close>, which runs the
  linter on the sources, and \<open>scripts/clang-format.py\<close>.

  A script is a function to the list of its actions, the lines it prints and the commands
  it hands to the shell, and to the exception that ends it, if one does. What the shell,
  the file system and the interpreter's dictionary order give is an argument.
\<close>

section \<open>Actions\<close>

datatype action = Print string | System string

type_synonym run = "action list \<times> exn option"

fun splitlines :: "string \<Rightarrow> string \<Rightarrow> string list" where
  "splitlines w [] = (if w = [] then [] else [rev w])"
| "splitlines w (c # s) =
     (if c = CHR 0x0A then rev w # splitlines [] s
      else if c = CHR 0x0D then
        (case s of
           d # s' \<Rightarrow> if d = CHR 0x0A then rev w # splitlines [] s' else rev w # splitlines [] s
         | [] \<Rightarrow> [rev w])
      else splitlines (c # w) s)"

definition path_join :: "string \<Rightarrow> string \<Rightarrow> string" where
  "path_join a b =
     (if startswith b ''/'' then b else if a = [] \<or> endswith a ''/'' then a @ b else a @ ''/'' @ b)"

definition byte_rstrip :: "string \<Rightarrow> string" where
  "byte_rstrip s = rev (dropWhile is_space (rev s))"

definition ssh_cmd :: string where
  "ssh_cmd = ''ssh -o StrictHostKeyChecking=no -o UserKnownHostsFile=/dev/null ''"

section \<open>launch.py\<close>

definition hostfile :: string where "hostfile = ''machinefiles/nodes''"
definition progfile :: string where "progfile = ''build/Logistic''"

definition env_params :: string where
  "env_params = ''GLOG_logtostderr=true GLOG_v=1 GLOG_minloglevel=0 ''"

definition launch_params :: "string \<Rightarrow> (string \<times> string) list" where
  "launch_params hostfile_path =
     [(''config_file'', hostfile_path), (''input'', ''hdfs:///datasets/classification/kdd12-5blocks'')]"

definition hostlist :: "string \<Rightarrow> string list list" where
  "hostlist text =
     map (split_chr (CHR '':'')) (filter (\<lambda>line. \<not> startswith line ''#'') (splitlines [] text))"

definition launch_cmd :: "((string \<times> string) list \<Rightarrow> (string \<times> string) list) \<Rightarrow> string \<Rightarrow> string \<Rightarrow> string \<Rightarrow> string" where
  "launch_cmd items proj_dir node_id host =
     ssh_cmd @ host @ '' '' @ env_params @ '' '' @ path_join proj_dir progfile @ '' --my_id='' @ node_id
     @ concat (map (\<lambda>(k, v). '' --'' @ k @ ''='' @ v) (items (launch_params (path_join proj_dir hostfile)))) @ '' &''"

fun launch_hosts :: "((string \<times> string) list \<Rightarrow> (string \<times> string) list) \<Rightarrow> string \<Rightarrow> string list list \<Rightarrow> run" where
  "launch_hosts items proj_dir [] = ([], None)"
| "launch_hosts items proj_dir ([node_id, host, port] # hosts) =
     (let cmd = launch_cmd items proj_dir node_id host; (actions, e) = launch_hosts items proj_dir hosts
      in ([Print (''node_id:'' @ node_id @ '', host:'' @ host @ '', port:'' @ port), Print cmd, System cmd] @ actions, e))"
| "launch_hosts items proj_dir (fs # hosts) =
     ([], Some (ValueError
        (if length fs = 1 then ''need more than 1 value to unpack''
         else if length fs = 2 then ''need more than 2 values to unpack''
         else ''too many values to unpack'')))"

definition launch :: "((string \<times> string) list \<Rightarrow> (string \<times> string) list) \<Rightarrow> string \<Rightarrow> string \<Rightarrow> run" where
  "launch items proj_dir text =
     (let (actions, e) = launch_hosts items proj_dir (hostlist text)
      in ([Print (''proj_dir: '' @ proj_dir),
           Print (''hostfile_path:'' @ path_join proj_dir hostfile @ '', prog_path:'' @ path_join proj_dir progfile)]
          @ actions, e))"

section \<open>kill.py\<close>

fun host_ips :: "string list \<Rightarrow> string list res" where
  "host_ips [] = Inr []"
| "host_ips (line # ls) =
     res_bind (py_nth (split_chr (CHR '':'') line) 1) (\<lambda>ip. res_bind (host_ips ls) (\<lambda>ips. Inr (ip # ips)))"

definition kill :: "string list \<Rightarrow> (string \<Rightarrow> string) \<Rightarrow> run \<times> nat" where
  "kill argv read_file =
     (case argv of
        [_, host_file, prog_name] \<Rightarrow>
          (case host_ips (splitlines [] (read_file host_file)) of
             Inl e \<Rightarrow> (([], Some e), 1)
           | Inr ips \<Rightarrow>
               ((map (\<lambda>ip. System (ssh_cmd @ ip @ '' killall -q '' @ prog_name)) ips
                 @ [Print (''Done killing <'' @ prog_name @ ''> for <'' @ host_file @ ''>'')], None), 0))
      | _ \<Rightarrow> (([Print (''usage: '' @ hd argv @ '' <hostfile> <prog_name>'')], None), 1))"

section \<open>lint.py\<close>

definition CPPLINT_EXTENSIONS :: "string list" where
  "CPPLINT_EXTENSIONS = [''cpp'', ''hpp'', ''tpp'']"

definition CPPLINT_FILTERS :: "string list" where
  "CPPLINT_FILTERS = [''-whitespace/indent'', ''-runtime/references'', ''+build/include_alpha'', ''-build/c++11'',
     ''-legal/copyright'', ''-readability/casting'']"

definition default_dirs :: "string list" where "default_dirs = [''.'']"

definition ignored_dirs :: "string list" where
  "ignored_dirs = [''third_party'', ''debug'', ''release'', ''build'']"

definition cpp_suffix :: string where "cpp_suffix = ''*.[cht]pp''"

definition removes :: "string list \<Rightarrow> string list" where
  "removes files = concat (map (\<lambda>f. map (\<lambda>_. f) (filter (\<lambda>d. contains f d) ignored_dirs)) files)"

definition remove_ignored :: "string list \<Rightarrow> string list" where
  "remove_ignored files = fold (\<lambda>r fs. if r \<in> set fs then remove1 r fs else fs) (removes files) files"

fun find_all :: "(string \<Rightarrow> string res) \<Rightarrow> string list \<Rightarrow> string list res" where
  "find_all check_output [] = Inr []"
| "find_all check_output (d # dirs) =
     res_bind (check_output (''find '' @ d @ '' -name \"'' @ cpp_suffix @ [dq])) (\<lambda>res.
       res_bind (find_all check_output dirs) (\<lambda>files. Inr (split_chr nl (byte_rstrip res) @ files)))"

definition lint_list_files :: "(string \<Rightarrow> string res) \<Rightarrow> string list option \<Rightarrow> string list res" where
  "lint_list_files check_output paths =
     (case paths of
        None \<Rightarrow> res_bind (find_all check_output default_dirs) (\<lambda>files. Inr (remove_ignored files))
      | Some dirs \<Rightarrow>
          res_bind (check_output (''find '' @ join '' '' dirs @ '' -name '' @ cpp_suffix)) (\<lambda>res.
            Inr (split_chr nl (byte_rstrip res))))"

text \<open>The option parser of the standard library for the short option \<open>h\<close> and the long option \<open>help\<close>.\<close>

fun short_opts :: "string \<Rightarrow> string list res" where
  "short_opts [] = Inr []"
| "short_opts (c # s) =
     (if c = CHR ''h'' then res_bind (short_opts s) (\<lambda>os. Inr (''-h'' # os))
      else Inl (ValueError (''option -'' @ [c] @ '' not recognized'')))"

definition long_opt :: "string \<Rightarrow> string res" where
  "long_opt s =
     (let opt = takeWhile (\<lambda>c. c \<noteq> CHR ''='') s
      in if \<not> startswith ''help'' opt then Inl (ValueError (''option --'' @ opt @ '' not recognized''))
         else if CHR ''='' \<in> set s then Inl (ValueError ''option --help must not have an argument'')
         else Inr ''--help'')"

fun getopt :: "string list \<Rightarrow> (string list \<times> string list) res" where
  "getopt [] = Inr ([], [])"
| "getopt (a # args) =
     (if startswith a ''-'' \<and> a \<noteq> ''-'' then
        (if a = ''--'' then Inr ([], args)
         else if startswith a ''--'' then
           res_bind (long_opt (drop 2 a)) (\<lambda>opt.
             res_bind (getopt args) (\<lambda>(opts, rest). Inr (opt # opts, rest)))
         else
           res_bind (short_opts (drop 1 a)) (\<lambda>os.
             res_bind (getopt args) (\<lambda>(opts, rest). Inr (os @ opts, rest))))
      else Inr ([], a # args))"

definition usage_line :: action where
  "usage_line = Print ''Run command as: $ lint.py $PATH_OF_DIR''"

definition lint_cmd :: "string \<Rightarrow> string list \<Rightarrow> string" where
  "lint_cmd cpplint_py files =
     join '' '' ([cpplint_py, ''--linelength=120'', ''--extensions='' @ join '','' CPPLINT_EXTENSIONS]
       @ (if length CPPLINT_FILTERS > 0 then [''--filter='' @ join '','' CPPLINT_FILTERS] else []))
     @ '' '' @ join '' '' files"

definition lint_main :: "string \<Rightarrow> (string \<Rightarrow> string res) \<Rightarrow> string list \<Rightarrow> run \<times> nat option" where
  "lint_main cpplint_py check_output argv =
     (case getopt (tl argv) of
        Inl (ValueError msg) \<Rightarrow> (([Print msg, usage_line], None), Some 2)
      | Inl e \<Rightarrow> (([], Some e), None)
      | Inr (opts, args) \<Rightarrow>
          (if opts \<noteq> [] then (([usage_line], None), Some 0)
           else
             (case lint_list_files check_output (if length args = 0 then None else Some args) of
                Inl e \<Rightarrow> (([], Some e), None)
              | Inr files \<Rightarrow> (([System (lint_cmd cpplint_py files)], None), None))))"

section \<open>clang-format.py\<close>

definition format_list_files ::
  "(string \<Rightarrow> string res) \<Rightarrow> (string \<Rightarrow> bool) \<Rightarrow> (string \<Rightarrow> bool) \<Rightarrow> string option \<Rightarrow> string list option res" where
  "format_list_files check_output isdir exists path =
     (case path of
        None \<Rightarrow> res_bind (find_all check_output default_dirs) (\<lambda>files. Inr (Some (remove_ignored files)))
      | Some p \<Rightarrow>
          (if isdir p then
             res_bind (check_output (''find '' @ p @ '' -name '' @ cpp_suffix)) (\<lambda>res.
               Inr (Some (split_chr nl (byte_rstrip res))))
           else if \<not> exists p then Inr None
           else Inr (Some [p])))"

definition replace_files :: "string \<Rightarrow> string list option \<Rightarrow> action list" where
  "replace_files clang_format files =
     (case files of
        None \<Rightarrow> []
      | Some fs \<Rightarrow> map (\<lambda>f. System (clang_format @ '' -style=file -i '' @ f)) fs)"

definition check_files :: "string \<Rightarrow> string list option \<Rightarrow> action list" where
  "check_files clang_format files =
     (case files of
        None \<Rightarrow> []
      | Some fs \<Rightarrow> map (\<lambda>f. System (clang_format @ '' -style=file '' @ f @ '' | diff -u '' @ f @ '' -'')) fs)"

text \<open>
  The script after its arguments are parsed: \<open>mode\<close> is the value of \<open>-o\<close>, which the
  parser restricts to the two choices, and \<open>help_text\<close> what the parser prints as its help.
  An empty path counts as no path.
\<close>

definition format_main ::
  "string \<Rightarrow> string \<Rightarrow> (string \<Rightarrow> string res) \<Rightarrow> (string \<Rightarrow> bool) \<Rightarrow> (string \<Rightarrow> bool) \<Rightarrow> string option \<Rightarrow> string option \<Rightarrow> run" where
  "format_main clang_format help_text check_output isdir exists mode path =
     (case format_list_files check_output isdir exists (if path = Some [] then None else path) of
        Inl e \<Rightarrow> ([], Some e)
      | Inr files \<Rightarrow>
          ((if files = None
            then [Print (''[Error] Path '' @ the path @ '' does not exist''), Print help_text] else [])
           @ (if mode = None then [Print ''[Error] Need input argument for -o'', Print help_text] else [])
           @ (if mode = Some ''replace'' then replace_files clang_format files
              else if mode = Some ''check'' then check_files clang_format files
              else []), None))"

section \<open>The ignored files\<close>

definition ignored :: "string \<Rightarrow> bool" where
  "ignored f \<longleftrightarrow> list_ex (contains f) ignored_dirs"

lemma set_removes: "set (removes files) \<subseteq> {f. ignored f}"
  by (auto simp: removes_def ignored_def list_ex_iff)

lemma count_removes: "ignored f \<Longrightarrow> count_list files f \<le> count_list (removes files) f"
proof (induction files)
  case (Cons g files)
  let ?hits = "map (\<lambda>_. g) (filter (\<lambda>d. contains g d) ignored_dirs)"
  have "1 \<le> count_list ?hits g" if "g = f"
  proof -
    from Cons.prems that obtain d where "d \<in> set (filter (\<lambda>d. contains g d) ignored_dirs)"
      by (auto simp: ignored_def list_ex_iff)
    then have "g \<in> set ?hits" by (metis (no_types, lifting) image_eqI set_map)
    then have "count_list ?hits g \<noteq> 0" unfolding count_list_0_iff by blast
    then show ?thesis by linarith
  qed
  with Cons.IH [OF Cons.prems] show ?case by (auto simp: removes_def count_list_append)
qed (simp add: removes_def)

lemma fold_remove1:
  "fold (\<lambda>r fs. if r \<in> set fs then remove1 r fs else fs) rs fs = fold remove1 rs fs"
  by (induction rs arbitrary: fs) (auto simp: remove1_idem)

lemma filter_remove1_out: "P r \<Longrightarrow> filter (\<lambda>x. \<not> P x) (remove1 r fs) = filter (\<lambda>x. \<not> P x) fs"
  by (induction fs) auto

lemma count_list_remove1: "count_list (remove1 r fs) f = count_list fs f - (if f = r then 1 else 0)"
  by (induction fs) (auto simp: count_list_0_iff)

lemma fold_remove1_filter:
  "list_all P rs \<Longrightarrow> (\<And>f. P f \<Longrightarrow> count_list fs f \<le> count_list rs f) \<Longrightarrow>
     fold remove1 rs fs = filter (\<lambda>f. \<not> P f) fs"
proof (induction rs arbitrary: fs)
  case Nil
  then have "\<not> P f" if "f \<in> set fs" for f using that by (auto simp: count_list_0_iff)
  then show ?case by (auto simp: filter_id_conv)
next
  case (Cons r rs)
  have "fold remove1 rs (remove1 r fs) = filter (\<lambda>f. \<not> P f) (remove1 r fs)"
  proof (rule Cons.IH)
    show "count_list (remove1 r fs) f \<le> count_list rs f" if "P f" for f
      using Cons.prems(2)[OF that] by (auto simp: count_list_remove1)
  qed (use Cons.prems(1) in simp)
  with Cons.prems(1) show ?case by (simp add: filter_remove1_out)
qed

lemma remove_ignored_filter: "remove_ignored files = filter (\<lambda>f. \<not> ignored f) files"
  unfolding remove_ignored_def fold_remove1
  by (rule fold_remove1_filter) (use set_removes [of files] count_removes in \<open>auto simp: list_all_iff\<close>)

section \<open>Hosts\<close>

definition host_line :: "string \<Rightarrow> bool" where
  "host_line l \<longleftrightarrow> length (split_chr (CHR '':'') l) = 3 \<and> \<not> startswith l ''#''"

definition host_of :: "string \<Rightarrow> string" where
  "host_of l = split_chr (CHR '':'') l ! 1"

fun systems :: "action list \<Rightarrow> string list" where
  "systems [] = []"
| "systems (System c # as) = c # systems as"
| "systems (Print _ # as) = systems as"

lemma systems_append [simp]: "systems (as @ cs) = systems as @ systems cs"
  by (induction as rule: systems.induct) auto

lemma systems_map [simp]: "systems (map (\<lambda>x. System (f x)) xs) = map f xs"
  by (induction xs) auto

definition launch_line :: "((string \<times> string) list \<Rightarrow> (string \<times> string) list) \<Rightarrow> string \<Rightarrow> string \<Rightarrow> string" where
  "launch_line items proj_dir l =
     launch_cmd items proj_dir (split_chr (CHR '':'') l ! 0) (host_of l)"

lemma launch_hosts_ok:
  "list_all host_line ls \<Longrightarrow>
     snd (launch_hosts items d (map (split_chr (CHR '':'')) ls)) = None \<and>
     systems (fst (launch_hosts items d (map (split_chr (CHR '':'')) ls))) = map (launch_line items d) ls"
proof (induction ls)
  case (Cons l ls)
  then obtain a b c where abc: "split_chr (CHR '':'') l = [a, b, c]"
    by (auto simp: host_line_def length_Suc_conv eval_nat_numeral)
  with Cons show ?case
    by (auto simp: launch_line_def host_of_def Let_def split: prod.splits)
qed simp

lemma launch_hosts_accepts:
  "snd (launch_hosts items d hosts) = None \<Longrightarrow> list_all (\<lambda>fs. length fs = 3) hosts"
  by (induction items d hosts rule: launch_hosts.induct) (auto simp: Let_def split: prod.splits)

lemma split_chr_length: "1 < length (split_chr c s) \<longleftrightarrow> c \<in> set s"
proof (induction s)
  case (Cons d s)
  obtain w ws where "split_chr c s = w # ws" by (cases "split_chr c s") auto
  with Cons show ?case by auto
qed simp

lemma split_chr_chars: "w \<in> set (split_chr c s) \<Longrightarrow> set w \<subseteq> set s"
proof (induction s arbitrary: w)
  case (Cons d s)
  obtain v vs where v: "split_chr c s = v # vs" by (cases "split_chr c s") auto
  from Cons.prems v show ?case using Cons.IH by (fastforce split: if_splits)
qed simp

lemma host_ips_result:
  "host_ips ls = (if list_all (\<lambda>l. CHR '':'' \<in> set l) ls then Inr (map host_of ls) else Inl IndexError)"
proof (induction ls)
  case (Cons l ls)
  have "py_nth (split_chr (CHR '':'') l) 1 = (if CHR '':'' \<in> set l then Inr (host_of l) else Inl IndexError)"
    using split_chr_length [of "CHR '':''" l] by (auto simp: py_nth_def host_of_def)
  with Cons show ?case by simp
qed simp

text \<open>The host that a command of the scripts addresses: the first word after the options of ssh.\<close>

definition ssh_host :: "string \<Rightarrow> string" where
  "ssh_host cmd = takeWhile (\<lambda>c. c \<noteq> CHR '' '') (drop (length ssh_cmd) cmd)"

lemma ssh_host_word: "CHR '' '' \<notin> set h \<Longrightarrow> ssh_host (ssh_cmd @ h @ CHR '' '' # rest) = h"
proof -
  assume "CHR '' '' \<notin> set h"
  then have "takeWhile (\<lambda>c. c \<noteq> CHR '' '') (h @ CHR '' '' # rest) = h" by (induction h) auto
  then show ?thesis unfolding ssh_host_def append_eq_conv_conj by simp
qed

lemma launch_line_host:
  assumes "host_line l" "CHR '' '' \<notin> set l"
  shows "CHR '' '' \<notin> set (host_of l)" "ssh_host (launch_line items d l) = host_of l"
proof -
  have "host_of l \<in> set (split_chr (CHR '':'') l)" using assms(1) by (simp add: host_line_def host_of_def)
  with split_chr_chars assms(2) show h: "CHR '' '' \<notin> set (host_of l)" by blast
  show "ssh_host (launch_line items d l) = host_of l"
    using ssh_host_word [OF h] by (simp add: launch_line_def launch_cmd_def)
qed

section \<open>Properties\<close>

text \<open>
  C35: On a host file in which every line that is not a comment has its three fields, the
  launcher ends without an exception and runs exactly one remote command for each of these
  lines, in their order, with the node id and the host of the line.
\<close>
theorem launch_all_hosts:
  assumes "list_all (\<lambda>l. startswith l ''#'' \<or> host_line l) (splitlines [] text)"
  shows "snd (launch items d text) = None \<and>
    systems (fst (launch items d text)) =
      map (launch_line items d) (filter (\<lambda>l. \<not> startswith l ''#'') (splitlines [] text))"
proof -
  let ?ls = "filter (\<lambda>l. \<not> startswith l ''#'') (splitlines [] text)"
  have "list_all host_line ?ls" using assms by (auto simp: list_all_iff)
  from launch_hosts_ok [OF this, of items d] show ?thesis
    by (auto simp: launch_def hostlist_def split: prod.splits)
qed

definition demo_hosts :: string where
  "demo_hosts = ''# id:host:port'' @ [nl] @ ''0:w1:37542'' @ [nl] @ ''1:w2:37542'' @ [nl]"

theorem launch_all_hosts_witness:
  "snd (launch (\<lambda>kvs. kvs) ''/p'' demo_hosts) = None \<and>
   systems (fst (launch (\<lambda>kvs. kvs) ''/p'' demo_hosts)) =
     [launch_line (\<lambda>kvs. kvs) ''/p'' ''0:w1:37542'', launch_line (\<lambda>kvs. kvs) ''/p'' ''1:w2:37542'']"
proof -
  have lines: "list_all (\<lambda>l. startswith l ''#'' \<or> host_line l) (splitlines [] demo_hosts)"
    "filter (\<lambda>l. \<not> startswith l ''#'') (splitlines [] demo_hosts) = [''0:w1:37542'', ''1:w2:37542'']"
    by code_simp+
  from launch_all_hosts [OF lines(1)] lines(2) show ?thesis by simp
qed

text \<open>
  C36: The stop script on a host file that the launcher accepts and whose host lines hold no
  blanks. When some line of the file has no colon, which is then a comment the launcher
  skips, the stop script ends with an IndexError and stops nothing. Otherwise it ends without
  an exception after one killall of the program for each line, and the hosts it addresses
  include those the launcher started, in the same order; on a file without comments they are
  the same hosts.
\<close>
theorem kill_launched_hosts:
  assumes "snd (launch items d (read_file hf)) = None"
    and "list_all (\<lambda>l. startswith l ''#'' \<or> CHR '' '' \<notin> set l) (splitlines [] (read_file hf))"
  shows "let ls = splitlines [] (read_file hf);
      started = map ssh_host (systems (fst (launch items d (read_file hf))));
      ((actions, e), status) = kill [script, hf, prog] read_file
    in if list_ex (\<lambda>l. CHR '':'' \<notin> set l) ls
       then list_all (\<lambda>l. CHR '':'' \<in> set l \<or> startswith l ''#'') ls \<and> actions = [] \<and> e = Some IndexError \<and> status = 1
       else e = None \<and> status = 0 \<and> subseq started (map ssh_host (systems actions)) \<and>
         list_all (\<lambda>c. \<exists>h. c = ssh_cmd @ h @ '' killall -q '' @ prog) (systems actions) \<and>
         (list_all (\<lambda>l. \<not> startswith l ''#'') ls \<longrightarrow> started = map ssh_host (systems actions))"
proof -
  let ?ls = "splitlines [] (read_file hf)"
  let ?hosts = "filter (\<lambda>l. \<not> startswith l ''#'') ?ls"
  let ?kill = "\<lambda>l. ssh_cmd @ host_of l @ '' killall -q '' @ prog"
  from assms(1) have "list_all (\<lambda>fs. length fs = 3) (hostlist (read_file hf))"
    by (intro launch_hosts_accepts [of items d]) (auto simp: launch_def split: prod.splits)
  then have hosts: "list_all host_line ?hosts" by (auto simp: hostlist_def host_line_def list_all_iff)
  have words: "host_line l" "CHR '' '' \<notin> set l" if "l \<in> set ?hosts" for l
    using that hosts assms(2) by (auto simp: list_all_iff)
  have "systems (fst (launch items d (read_file hf))) = map (launch_line items d) ?hosts"
    using launch_hosts_ok [OF hosts, of items d] by (auto simp: launch_def hostlist_def split: prod.splits)
  then have started: "map ssh_host (systems (fst (launch items d (read_file hf)))) = map host_of ?hosts"
    using launch_line_host(2)[OF words] by simp
  have stopped: "map (\<lambda>l. ssh_host (?kill l)) ?hosts = map host_of ?hosts"
    using launch_line_host(1)[OF words] ssh_host_word by simp
  have colons: "list_all (\<lambda>l. CHR '':'' \<in> set l \<or> startswith l ''#'') ?ls"
    using hosts by (auto simp: list_all_iff host_line_def split_chr_length [symmetric])
  have "subseq (map (\<lambda>l. ssh_host (?kill l)) ?hosts) (map (\<lambda>l. ssh_host (?kill l)) ?ls)"
    by (intro subseq_map subseq_filter_left)
  then have sub: "subseq (map host_of ?hosts) (map ssh_host (map ?kill ?ls))" unfolding stopped map_map comp_def .
  show ?thesis
  proof (cases "list_all (\<lambda>l. CHR '':'' \<in> set l) ?ls")
    case True
    then have "\<not> list_ex (\<lambda>l. CHR '':'' \<notin> set l) ?ls" by (auto simp: list_all_iff list_ex_iff)
    moreover have "map host_of ?hosts = map ssh_host (map ?kill ?ls)" if "list_all (\<lambda>l. \<not> startswith l ''#'') ?ls"
    proof -
      have "?hosts = ?ls" using that by (auto simp: filter_id_conv list_all_iff)
      then show ?thesis using stopped unfolding map_map comp_def by simp
    qed
    moreover have "list_all (\<lambda>c. \<exists>h. c = ssh_cmd @ h @ '' killall -q '' @ prog) (map ?kill ?ls)"
      unfolding list_all_iff set_map by blast
    moreover obtain actions where "kill [script, hf, prog] read_file = ((actions, None), 0)" "systems actions = map ?kill ?ls"
      using True by (simp add: kill_def host_ips_result comp_def)
    ultimately show ?thesis using sub unfolding Let_def started by simp
  next
    case False
    then have "list_ex (\<lambda>l. CHR '':'' \<notin> set l) ?ls" by (auto simp: list_all_iff list_ex_iff)
    with False colons show ?thesis unfolding Let_def by (simp add: kill_def host_ips_result)
  qed
qed

theorem kill_launched_hosts_witness:
  "(let hosts = ''0:w1:37542'' @ [nl] @ ''1:w2:37542'' @ [nl];
       started = map ssh_host (systems (fst (launch (\<lambda>kvs. kvs) ''/p'' hosts)));
       ((actions, e), status) = kill [''kill.py'', ''nodes'', ''Logistic''] (\<lambda>_. hosts)
     in e = None \<and> status = 0 \<and> started = map ssh_host (systems actions) \<and> started = [''w1'', ''w2'']) \<and>
   (let ((actions, e), status) = kill [''kill.py'', ''nodes'', ''Logistic''] (\<lambda>_. ''# a'' @ [nl] @ ''0:w1:37542'' @ [nl])
     in actions = [] \<and> e = Some IndexError)"
proof -
  let ?hosts = "''0:w1:37542'' @ [nl] @ ''1:w2:37542'' @ [nl]" and ?comment = "''# a'' @ [nl] @ ''0:w1:37542'' @ [nl]"
  have accepts: "snd (launch (\<lambda>kvs. kvs) ''/p'' ?hosts) = None" "snd (launch (\<lambda>kvs. kvs) ''/p'' ?comment) = None"
    and blanks: "list_all (\<lambda>l. startswith l ''#'' \<or> CHR '' '' \<notin> set l) (splitlines [] ?hosts)"
      "list_all (\<lambda>l. startswith l ''#'' \<or> CHR '' '' \<notin> set l) (splitlines [] ?comment)"
    and kinds: "list_ex (\<lambda>l. CHR '':'' \<notin> set l) (splitlines [] ?hosts) = False"
      "list_all (\<lambda>l. \<not> startswith l ''#'') (splitlines [] ?hosts) = True"
      "list_ex (\<lambda>l. CHR '':'' \<notin> set l) (splitlines [] ?comment) = True"
    and started: "map ssh_host (systems (fst (launch (\<lambda>kvs. kvs) ''/p'' ?hosts))) = [''w1'', ''w2'']"
    by code_simp+
  show ?thesis
    using kill_launched_hosts [of "\<lambda>kvs. kvs" "''/p''" "\<lambda>_. ?hosts" "''nodes''" "''kill.py''" "''Logistic''", OF accepts(1) blanks(1)]
      kill_launched_hosts [of "\<lambda>kvs. kvs" "''/p''" "\<lambda>_. ?comment" "''nodes''" "''kill.py''" "''Logistic''", OF accepts(2) blanks(2)]
    unfolding kinds started Let_def simp_thms if_True if_False by (auto split: prod.splits)
qed

text \<open>A comment line, which the launcher skips, ends the stop script before it stops anything.\<close>

lemma kill_comment_line:
  "kill [''kill.py'', ''nodes'', ''Logistic''] (\<lambda>_. ''# nodes'' @ [nl] @ ''0:w1:37542'' @ [nl]) = (([], Some IndexError), 1)"
  by code_simp

text \<open>
  C37: Removing the files of ignored directories one occurrence at a time, for each directory
  name a path contains, keeps exactly the paths that contain none, in order and with their
  multiplicity.
\<close>
theorem ignored_files_removed:
  "remove_ignored files = filter (\<lambda>f. \<not> list_ex (contains f) ignored_dirs) files"
  using remove_ignored_filter [of files] by (simp add: ignored_def)

end
