(* ===== verification/Spec2Isabelle.thy ===== *)
theory Spec2Isabelle
  imports Config_Files Scripts
begin

text \<open>
  A verification development for the Python tools of the repository: the C++ linter
  \<^verbatim>\<open>src/scripts/cpplint.py\<close> and the scripts around it, \<^verbatim>\<open>launch.py\<close>, \<^verbatim>\<open>kill.py\<close>,
  \<^verbatim>\<open>lint.py\<close> and \<^verbatim>\<open>clang-format.py\<close> in the same directory.

  \<^bold>\<open>The program.\<close> The linter reads a file as a list of lines. It removes comments that
  span lines, builds four versions of the lines (raw, without raw strings, without
  comments, and with strings collapsed), and then visits each line: NOLINT directives are
  recorded, the stack of open blocks is updated, and some forty checks look at the line,
  the stack, the includes seen so far and the current function. A check reports through
  one error function, which drops a report that a directive, the verbosity or a filter
  suppresses, and otherwise counts and prints it.

  \<^bold>\<open>Theories.\<close>
  \<^item> \<open>Prelude\<close>: exceptions and results, Python indexing, reports, the string operations of
    the standard library, and the lemmas on them.
  \<^item> \<open>PyRegex\<close>: regular expressions. The matcher is a backtracking matcher that lists all
    successes in the order of the interpreter, the compiler reads the pattern syntax that
    the program uses, and \<open>Match\<close>, \<open>Search\<close>, \<open>ReplaceAll\<close> with their cache of compiled
    patterns are the program's functions. The locale of a pattern cache is interpreted on
    the dictionary of the program; the inversion lemmas give what a match says of a line.
  \<^item> \<open>Suppressions\<close>: the error categories and the NOLINT dictionaries. The locale of a
    suppression store is interpreted on them.
  \<^item> \<open>Lint_State\<close>: \<open>_CppLintState\<close>, \<open>_ShouldPrintError\<close> and \<open>Error\<close>. The locale of an error
    handler is interpreted on \<open>Error\<close>.
  \<^item> \<open>Include_State\<close>: \<open>_IncludeState\<close>.
  \<^item> \<open>Cleanse\<close>: raw strings, comments, \<open>CleansedLines\<close>. The locale of an operation that only
    deletes characters of a line is interpreted on the collapsing of strings, the removal
    of comments and their composition.
  \<^item> \<open>Expressions\<close>: \<open>CloseExpression\<close>, \<open>ReverseCloseExpression\<close> and their scanners. The
    locale of bracket pairs is interpreted forward and backward.
  \<^item> \<open>Nesting\<close>: the block classes and \<open>NestingState\<close>. Blocks carry the identity of their
    object, since the program compares them by identity and copies stacks deeply; no identity
    occurs twice on the stack and the saved stacks, so that an assignment to an object is a
    change of one element.
  \<^item> \<open>Function_State\<close>: \<open>_FunctionState\<close> and \<open>CheckForFunctionLengths\<close>.
  \<^item> \<open>Line_Checks\<close>: the checks from \<open>CheckForCopyright\<close> to \<open>CheckAccess\<close>, namespace
    indentation, and the language version checks.
  \<^item> \<open>PyText\<close>: slices, searches and splits of the Python library that the checks below use,
    and what a match of a pattern says when the pattern has a given shape.
  \<^item> \<open>Nesting_Lines\<close>: the lines at which the blocks on the stack start.
  \<^item> \<open>Checks\<close>: the contract of a check of a line, as the locales \<open>line_reports\<close> (its reports
    are about lines of the file, in known categories) and \<open>line_check\<close> (it also returns), with
    their composition. Every check of a line is an interpretation.
  \<^item> \<open>Spacing\<close> and \<open>Style\<close>: \<open>CheckSpacing\<close> to \<open>CheckStyle\<close>.
  \<^item> \<open>File_Names\<close>: \<open>FileInfo\<close>, header guards, the header of a source file, the kinds of
    headers. The file system is the record \<open>os_env\<close>.
  \<^item> \<open>Casts\<close>: text inside brackets, global strings, \<open>printf\<close>, references, casts,
    \<open>make_pair\<close>, redundant \<open>virtual\<close> and \<open>override\<close>.
  \<^item> \<open>Language\<close>: \<open>CheckIncludeLine\<close>, \<open>CheckLanguage\<close> and include-what-you-use.
  \<^item> \<open>Driver\<close>: \<open>ProcessLine\<close>, \<open>ProcessFileData\<close>, \<open>ProcessConfigOverrides\<close>, \<open>ProcessFile\<close>,
    \<open>ParseArguments\<close>, \<open>main\<close> and the module variables, the record \<open>app\<close>. The file system, the
    configuration files and the iteration orders of dictionaries are the record \<open>lint_env\<close>.
  \<^item> \<open>Reports\<close>: the reports of the whole pipeline are about the file that is processed, in
    documented categories.
  \<^item> \<open>Runs\<close>: what a run writes, what a file may change for the files after it, and when a
    file is linted to its end.
  \<^item> \<open>Config_Files\<close>: a declarative reading of the configuration files, which the loop over
    them implements.
  \<^item> \<open>Scripts\<close>: the other four scripts.

  \<^bold>\<open>Conventions.\<close> A record stands for an object, its fields keep the names of the
  attributes. An operation that may raise returns a value of type \<open>'a res\<close>; an exception is
  one of the values of \<open>exn\<close>. An operation that reports returns the list of its reports in
  order instead of calling the error function, and \<open>emit_all\<close> hands such a list over; a
  report made before an exception is dropped with the result. Directives of a line are read
  before the reports of its checks are handed over, as in the program; the header guard
  check, which reads directives between its reports, returns a list of both. A stack is a
  list whose head is its top. A character is one of the 256 first code points, so no
  character is wide or combining; \<open>CheckForBadCharacters\<close>, which looks for a character outside
  this range, takes lines of code points. Lines hold no newline, as they come from a split
  at newlines. In a pattern a back quote stands for a backslash. A pattern that a user
  passes (an \<open>exclude_files\<close> option, the \<open>--root\<close> option) is compiled when it is in the syntax of
  \<open>PyRegex\<close>; the model raises otherwise. Every loop of the program is a terminating
  function, by structural recursion or by a measure that is proved to decrease, so there is
  no fuel, with one exception: the walk up a Subversion checkout may not end, is a
  \<open>partial_function\<close>, and its callers get the value \<open>Diverges\<close>. Functions that the program
  imports from the operating system, and the order in which a dictionary is iterated, are
  arguments; \<open>getopt\<close> and the functions of \<open>os.path\<close> are modelled as the library defines them.

  \<^bold>\<open>What is shown.\<close> A file is linted to its end exactly when two checks return on its lines:
  the check of casts, whose exception is characterised, and the check of constructors, whose
  argument joining is characterised; no other step of the pipeline raises. A run writes the
  log of each file named, in order, and the counts of the reports in these logs, in total and
  by category, and its exit status says whether there was a report. An event of a log is a
  report or one of seven notes, each with its text. The settings of the command line hold for every file,
  whatever the configuration files of other files say; those of its own directory overrule
  those of the directories above.

  The filters and the print decision agree with their reading "the last filter that applies
  decides" in every state the setters reach. NOLINT parsing suppresses exactly what the
  directives say. The include order accepts exactly the four blocks; a second include is
  reported, whatever lines are in between that do not leave the conditional branch of the
  first; missing headers are reported at their last use, in every iteration order.
  Cleansing is total, keeps the lines and only deletes; comment removal agrees with a
  reference that reads the lines once, and is idempotent when it reports nothing. Bracket matching is sound, finds the close of balanced text and is
  undone by the backward scan. Updating the nesting state is total on every file, keeps
  object identities unique across the stack and the saved stacks, follows a brace counter, and is not affected by the branches
  after the first one of a conditional group. A suggested header guard is accepted and is a
  macro name. The parts of a checked condition make up the condition. Function lengths are
  counted and reported at the stated thresholds, with the logarithm as the level. The launcher
  runs the commands that the host file calls for, the stop script reaches the launched hosts
  unless a comment without a colon ends it, and the linter accepts the command that \<open>lint.py\<close>
  builds, read by a shell that is a parameter, unless no file is named.

  \<^bold>\<open>Not modelled.\<close> The C++ sources of the repository (server, worker, driver, comm, io, lib,
  base and app) are outside this development, which covers the Python programs. Of these,
  the encoding of the error stream, the text of docstrings and the exception values beyond
  their kind are not modelled.
\<close>

section \<open>Properties across components\<close>

text \<open>
  For every file, cleansing its lines, updating the nesting state with each of them,
  collecting the reports of the updates and of the blocks left open, and handing these to
  the error function of a linter in its initial state raises no exception; the linter
  counts exactly the reports that are to be shown and prints these in order.
\<close>
theorem reports_printed:
  "\<exists>cl st rs w'. CleansedLines ls = Inr cl \<and> Updates f cl [0..<length ls] NestingState = Inr (st, rs) \<and>
     (let w = \<lparr>lint = CppLintState, nolints = ns, stderr = []\<rparr>; reports = rs @ CheckCompletedBlocks f st
      in emit_all Error reports w = Inr w' \<and> error_count (lint w') = length (filter (shown w) reports) \<and>
         stderr w' = concat (map (format_error ''emacs'') (filter (shown w) reports)))"
proof -
  from CleansedLines_ok [of ls] obtain cl where cl: "CleansedLines ls = Inr cl" "cl_num_lines cl = length ls" by blast
  from Updates_total [OF CleansedLines_lines_ok [OF cl(1)], of "[0..<length ls]" f NestingState] cl(2)
  obtain st rs where run: "Updates f cl [0..<length ls] NestingState = Inr (st, rs)"
    by (auto simp: list_all_iff)
  define w where "w = \<lparr>lint = CppLintState, nolints = ns, stderr = []\<rparr>"
  let ?reports = "rs @ CheckCompletedBlocks f st"
  have ok: "filters_ok (lint w)" "counts_agree (lint w)" "error_count (lint w) = 0"
    "stderr w = []" "output_format (lint w) = ''emacs''"
    by (simp_all add: w_def counts_agree_def CppLintState_def filters_ok_init [unfolded CppLintState_def])
  from lint_handler.emit_all_ok [of w ?reports] ok obtain w' where
    emit: "emit_all Error ?reports w = Inr w'" "error_count (lint w') = length (filter (shown w) ?reports)" by auto
  from emit_all_Error_state [OF ok(1) emit(1)] ok
  have "stderr w' = concat (map (format_error ''emacs'') (filter (shown w) ?reports))" by simp
  with cl(1) run emit show ?thesis unfolding Let_def w_def by blast
qed

text \<open>
  C2: When a run on some files ends, every file named on the command line has been dealt
  with, in this order, and the output consists of the logs of the files and the counts. The
  log of a file holds the notes about its configuration files; then, when it is excluded by
  one or cannot be read, the note that says so, and otherwise its reports, or the note that
  its extension is not valid, and the note that it is done. Every report is about the file in
  whose log it stands, in a documented category, with a confidence from 0 to 5. Each category
  line gives the number of the reports of that category in these logs (or of the categories
  below it), the total is the number of all reports in them, and the exit status is 1 exactly
  when there is one.
\<close>
theorem run_log:
  assumes "ParseArguments args (initial_app input) = Inr (Stay (filenames, a))" "main env input args = Inr (output, status)"
  shows "filenames \<noteq> [] \<and> (\<exists>logs. list_all2 (file_log env (valid_extensions a)) filenames logs \<and>
    (let reports = shown_reports (concat logs); counts = category_counts (counting (lint (world_of a))) reports
     in output = concat (map (render (module_OutputFormat a)) (concat logs)) @
          concat (map (\<lambda>(category, n). ''Category '' @ [sq] @ category @ [sq] @ '' errors found: '' @ nat_str n @ [nl])
            (items_order env counts)) @
          ''Total errors found: '' @ nat_str (length reports) @ [nl] \<and>
        status = (if reports = [] then 0 else 1)))"
proof -
  have "silent (initial_app input)" by (simp add: silent_def initial_app_def)
  from ParseArguments_silent [OF assms(1) this] have quiet: "stderr (world_of a) = []" "filenames \<noteq> []" by (simp_all add: silent_def)
  from assms obtain a1 where run: "process_files env filenames (on_lint ResetErrorCounts a) = Inr a1"
    and out: "output = stderr (world_of a1) @ PrintErrorCounts (items_order env) (lint (world_of a1))"
    and status: "status = (if error_count (lint (world_of a1)) > 0 then 1 else 0)" by (auto simp: main_def)
  from process_files_done [OF run] obtain logs where logs: "list_all2 (file_log env (valid_extensions a)) filenames logs"
    "logged (concat logs) (world_of (on_lint ResetErrorCounts a)) (world_of a1)" by (auto simp: on_lint_def)
  let ?reports = "shown_reports (concat logs)"
  from logs(2) quiet have log: "stderr (world_of a1) = concat (map (render (module_OutputFormat a)) (concat logs))"
    "error_count (lint (world_of a1)) = length ?reports"
    "errors_by_category (lint (world_of a1)) = category_counts (counting (lint (world_of a))) ?reports"
    by (simp_all add: logged_def on_lint_def ResetErrorCounts_def counted_all)
  from out status logs(1) quiet(2) show ?thesis unfolding PrintErrorCounts_def log Let_def by (auto simp: sq_def)
qed

theorem run_log_witness:
  "\<exists>output logs. main demo_file [] [''--counting=toplevel'', ''a.cc'', ''b.cc''] = Inr (output, 1) \<and>
     list_all2 (file_log demo_file [''cc'', ''h'', ''cpp'', ''cu'', ''cuh'']) [''a.cc'', ''b.cc''] logs \<and> shown_reports (concat logs) \<noteq> [] \<and>
     output = concat (map (render ''emacs'') (concat logs)) @
       concat (map (\<lambda>(category, n). ''Category '' @ [sq] @ category @ [sq] @ '' errors found: '' @ nat_str n @ [nl])
         (category_counts ''toplevel'' (shown_reports (concat logs)))) @
       ''Total errors found: '' @ nat_str (length (shown_reports (concat logs))) @ [nl]"
proof -
  let ?args = "[''--counting=toplevel'', ''a.cc'', ''b.cc'']" and ?exts = "[''cc'', ''h'', ''cpp'', ''cu'', ''cuh'']"
  have "case ParseArguments ?args (initial_app []) of Inr (Stay (filenames, a)) \<Rightarrow>
      filenames = [''a.cc'', ''b.cc''] \<and> filters (lint (world_of a)) = DEFAULT_FILTERS \<and> filters_backup (lint (world_of a)) = DEFAULT_FILTERS \<and>
      counting (lint (world_of a)) = ''toplevel'' \<and> module_OutputFormat a = ''emacs'' \<and> module_VerboseLevel a = 1 \<and> root_dir a = [] \<and> valid_extensions a = ?exts
    | _ \<Rightarrow> False" by code_simp
  then obtain a where parsed: "ParseArguments ?args (initial_app []) = Inr (Stay ([''a.cc'', ''b.cc''], a))"
    and a: "filters (lint (world_of a)) = DEFAULT_FILTERS" "filters_backup (lint (world_of a)) = DEFAULT_FILTERS"
      "counting (lint (world_of a)) = ''toplevel''" "module_OutputFormat a = ''emacs''" "module_VerboseLevel a = 1" "root_dir a = []" "valid_extensions a = ?exts"
    by (auto split: sum.splits step.splits)
  let ?a = "on_lint ResetErrorCounts a"
  have "world_ok (world_of ?a)" "filters (lint (world_of ?a)) = DEFAULT_FILTERS" "root_dir ?a = []" "''cc'' \<in> set (valid_extensions ?a)"
    "module_VerboseLevel ?a = 1" using a filters_ok_init
    by (simp_all add: on_lint_def ResetErrorCounts_def world_ok_def filters_ok_def counts_agree_def CppLintState_def)
  with demo_file_processed [of ?a] demo_missing_processed obtain b c where
    "ProcessFile demo_file [] ''a.cc'' (module_VerboseLevel ?a) ?a = Inr b" "0 < error_count (lint (world_of b))"
    "ProcessFile demo_file [] ''b.cc'' (module_VerboseLevel b) b = Inr c" "error_count (lint (world_of c)) = error_count (lint (world_of b))"
    by metis
  with parsed obtain printed where run: "main demo_file [] ?args = Inr (printed, 1)" by (simp add: main_def)
  have items: "items_order demo_file = (\<lambda>xs. xs)" by (simp add: demo_file_def demo_lint_def)
  from run_log [OF parsed run] run show ?thesis unfolding Let_def items a by (auto split: if_splits)
qed

section \<open>The linter as lint.py calls it\<close>

lemma split_chr_word: "c \<notin> set w \<Longrightarrow> split_chr c w = [w]" "c \<notin> set w \<Longrightarrow> split_chr c (w @ c # t) = w # split_chr c t"
  by (induction w) auto

lemma split_join: "ws \<noteq> [] \<Longrightarrow> list_all (\<lambda>w. c \<notin> set w) ws \<Longrightarrow> split_chr c (join [c] ws) = ws"
  by (induction ws rule: induct_list012) (simp_all add: split_chr_word)

lemma join_append: "vs \<noteq> [] \<Longrightarrow> ws \<noteq> [] \<Longrightarrow> join sep (vs @ ws) = join sep vs @ sep @ join sep ws"
  by (induction vs rule: induct_list012) (simp_all add: join_Cons)

definition lint_options :: "string list" where
  "lint_options = [''--linelength=120'', ''--extensions='' @ join '','' CPPLINT_EXTENSIONS, ''--filter='' @ join '','' CPPLINT_FILTERS]"

text \<open>
  What is relied on of the shell that \<open>os.system\<close> hands the command to: a command of
  characters that mean nothing to the shell is split into its words at the blanks, where
  several blanks count as one and no word is empty. The name of the program is an absolute
  path, so that it is neither an assignment nor an alias nor a builtin.
\<close>

definition plain_char :: "char \<Rightarrow> bool" where
  "plain_char c \<longleftrightarrow> is_word c \<or> c \<in> set ''./+-,=:@%''"

definition posix_shell :: "(string \<Rightarrow> string list) \<Rightarrow> bool" where
  "posix_shell argv_of \<longleftrightarrow>
     (\<forall>cmd. startswith cmd ''/'' \<and> list_all (\<lambda>c. plain_char c \<or> c = CHR '' '') cmd \<longrightarrow>
        argv_of cmd = filter (\<lambda>w. w \<noteq> []) (split_chr (CHR '' '') cmd))"

lemma join_chars: "list_all P sep \<Longrightarrow> list_all (list_all P) ws \<Longrightarrow> list_all P (join sep ws)"
  by (induction ws rule: induct_list012) simp_all

lemma lint_cmd_join:
  "lint_cmd cpplint_py files = join '' '' (cpplint_py # lint_options @ (if files = [] then [[]] else files))"
  using join_append [of "cpplint_py # lint_options" "if files = [] then [[]] else files" "'' ''"]
  by (simp add: lint_cmd_def lint_options_def CPPLINT_FILTERS_def)

lemma lint_cmd_words:
  assumes "posix_shell argv_of" "startswith cpplint_py ''/''" "list_all (list_all plain_char) (cpplint_py # files)"
  shows "argv_of (lint_cmd cpplint_py files) = cpplint_py # lint_options @ filter (\<lambda>f. f \<noteq> []) files"
proof -
  let ?ws = "cpplint_py # lint_options @ (if files = [] then [[]] else files)"
  have blank: "\<not> plain_char (CHR '' '')" by code_simp
  have "list_all (list_all plain_char) lint_options" by code_simp
  with assms(3) have plain: "list_all (list_all plain_char) ?ws" by simp
  then have "list_all (\<lambda>w. CHR '' '' \<notin> set w) ?ws" using blank unfolding list_all_iff by metis
  then have split: "split_chr (CHR '' '') (lint_cmd cpplint_py files) = ?ws"
    unfolding lint_cmd_join by (intro split_join) simp_all
  have "list_all (\<lambda>c. plain_char c \<or> c = CHR '' '') (lint_cmd cpplint_py files)"
    unfolding lint_cmd_join using plain by (intro join_chars) (auto simp: list_all_iff)
  moreover have "startswith (lint_cmd cpplint_py files) ''/''"
    using assms(2) unfolding lint_cmd_join by (cases cpplint_py) (auto simp: startswith_def lint_options_def)
  ultimately have "argv_of (lint_cmd cpplint_py files) = filter (\<lambda>w. w \<noteq> []) ?ws"
    using assms(1) split by (simp add: posix_shell_def)
  moreover have "filter (\<lambda>w. w \<noteq> []) lint_options = lint_options" by code_simp
  moreover have "cpplint_py \<noteq> []" using assms(2) by (auto simp: startswith_def)
  ultimately show ?thesis by simp
qed

lemma names_only: "files = [] \<or> \<not> startswith (hd files) ''-'' \<Longrightarrow> Driver.getopt longopts files = Some ([], files)"
  by (cases files) simp_all

definition lint_settings :: "(string \<times> string) list" where
  "lint_settings = [(''--linelength'', ''120''), (''--extensions'', join '','' CPPLINT_EXTENSIONS), (''--filter'', join '','' CPPLINT_FILTERS)]"

lemma lint_options_parsed:
  assumes "Driver.getopt LONG_OPTIONS files = Some ([], files)"
  shows "Driver.getopt LONG_OPTIONS (lint_options @ files) = Some (lint_settings, files)"
proof -
  have "do_longs (drop 2 ''--linelength=120'') LONG_OPTIONS args = Some ((''--linelength'', ''120''), args)"
    "do_longs (drop 2 (''--extensions='' @ join '','' CPPLINT_EXTENSIONS)) LONG_OPTIONS args = Some ((''--extensions'', join '','' CPPLINT_EXTENSIONS), args)"
    "do_longs (drop 2 (''--filter='' @ join '','' CPPLINT_FILTERS)) LONG_OPTIONS args = Some ((''--filter'', join '','' CPPLINT_FILTERS), args)" for args
    by code_simp+
  then show ?thesis using assms by (simp add: lint_options_def lint_settings_def startswith_def del: drop_Suc_Cons)
qed

lemma lint_settings_taken:
  "take_options lint_settings p a =
     Inr (Stay (p\<lparr>p_filters := join '','' CPPLINT_FILTERS\<rparr>, a\<lparr>line_length := 120, valid_extensions := CPPLINT_EXTENSIONS\<rparr>))"
proof -
  have "parse_int ''120'' = Some 120" "remdups (split_chr (CHR '','') (join '','' CPPLINT_EXTENSIONS)) = CPPLINT_EXTENSIONS"
    "join '','' CPPLINT_FILTERS \<noteq> []" by code_simp+
  then show ?thesis by (simp add: lint_settings_def take_option_def)
qed

lemma lint_filters: "SetFilters (join '','' CPPLINT_FILTERS) l = Inr (l\<lparr>filters := DEFAULT_FILTERS @ CPPLINT_FILTERS\<rparr>)"
proof -
  have "filter (\<lambda>f. f \<noteq> []) (map byte_strip (split_chr (CHR '','') (join '','' CPPLINT_FILTERS))) = CPPLINT_FILTERS"
    "find (\<lambda>f. \<not> signed_filter f) (DEFAULT_FILTERS @ CPPLINT_FILTERS) = None" by code_simp+
  then show ?thesis by (simp add: SetFilters_def AddFilters_def Let_def)
qed

text \<open>
  C6: What the linter makes of the command that \<open>lint.py\<close> runs, through a shell that splits
  the command into words. When the list of files names at least one file, the linter takes the
  arguments without a usage error and is to check exactly these files, with the line length,
  the extensions and the filters that the script names, after the default filters. When it
  names none, as when \<open>find\<close> prints nothing and the list holds one empty name that the shell
  drops, the linter leaves with the message that no files were specified. The path of the
  linter is absolute, the names have no characters that mean something to the shell, and the
  first one does not look like an option.
\<close>
theorem lint_command_accepted:
  assumes "posix_shell argv_of" "startswith cpplint_py ''/''" "list_all (list_all plain_char) (cpplint_py # files)"
    and "names = filter (\<lambda>f. f \<noteq> []) files" "names = [] \<or> \<not> startswith (hd names) ''-''"
  shows "if names = []
    then ParseArguments (tl (argv_of (lint_cmd cpplint_py files))) (initial_app input) =
      Inr (Leave (PrintUsage (Some ''No files were specified.'')))
    else \<exists>a. ParseArguments (tl (argv_of (lint_cmd cpplint_py files))) (initial_app input) = Inr (Stay (names, a)) \<and>
      line_length a = 120 \<and> valid_extensions a = CPPLINT_EXTENSIONS \<and> filters (lint (world_of a)) = DEFAULT_FILTERS @ CPPLINT_FILTERS"
  unfolding lint_cmd_words [OF assms(1-3)] assms(4) [symmetric] list.sel ParseArguments_def lint_options_parsed [OF names_only [OF assms(5)]]
  by (simp add: lint_settings_taken module_SetFilters_def lint_filters module_SetOutputFormat_def module_SetVerboseLevel_def module_SetCountingStyle_def
      on_lint_def SetOutputFormat_def SetVerboseLevel_def SetCountingStyle_def)

theorem lint_command_accepted_witness:
  "(let words = \<lambda>cmd. filter (\<lambda>w. w \<noteq> []) (split_chr (CHR '' '') cmd); lint = ''/r/scripts/cpplint.py''
    in (\<exists>a. ParseArguments (tl (words (lint_cmd lint [''./a.hpp'', ''./b.cpp'']))) (initial_app []) = Inr (Stay ([''./a.hpp'', ''./b.cpp''], a)) \<and>
          line_length a = 120) \<and>
       ParseArguments (tl (words (lint_cmd lint [[]]))) (initial_app []) = Inr (Leave (PrintUsage (Some ''No files were specified.''))))"
proof -
  let ?words = "\<lambda>cmd. filter (\<lambda>w. w \<noteq> []) (split_chr (CHR '' '') cmd)" and ?files = "[''./a.hpp'', ''./b.cpp'']"
  let ?lint = "''/r/scripts/cpplint.py''"
  have shell: "posix_shell ?words" by (simp add: posix_shell_def)
  have args: "startswith ?lint ''/''" "list_all (list_all plain_char) (?lint # ?files)" "list_all (list_all plain_char) (?lint # [[]])"
    "?files = filter (\<lambda>f. f \<noteq> []) ?files" "?files = [] \<or> \<not> startswith (hd ?files) ''-''" "[] = filter (\<lambda>f. f \<noteq> []) [[] :: string]"
    by code_simp+
  from lint_command_accepted [OF shell args(1,2,4,5), of "[]"]
    lint_command_accepted [OF shell args(1,3,6), of "[]"]
  show ?thesis unfolding Let_def by auto
qed

end
